(* ===== verification/Prelude.thy ===== *)
theory Prelude
  imports Main "HOL-Library.Word"
begin

text \<open>
  Shared vocabulary of the development: Go's error values and the result type of fallible
  functions, the instants and durations of the \<open>time\<close> package (integers counting nanoseconds,
  with the 64-bit wrap-around of \<open>time.Duration\<close> written out), Go's truncating integer
  division, and the generic lemmas on lists, maps and options that the components share.
  The two collections \<open>go_std\<close> (definitions of standard-library functions) and
  \<open>step_defs\<close> (one-step operations of the stateful components) let proofs unfold a group of
  definitions at once.
\<close>

named_theorems go_std "definitions of the Go standard-library functions the source calls"
named_theorems step_defs "definitions of the operations of the stateful components"

section \<open>Errors and results\<close>

text \<open>
  A Go error is a message (\<open>errors.New\<close>, \<open>fmt.Errorf\<close> without a wrapped error) or a prefix
  around a wrapped error (\<open>fmt.Errorf("prefix: %w", err)\<close>). \<open>errorText\<close> is the method
  \<open>Error()\<close>, whose text the RPC fleet classifies and the store records.
\<close>

datatype error = Err string | Wrap string error

primrec errorText :: "error \<Rightarrow> string" where
  "errorText (Err s) = s"
| "errorText (Wrap p e) = p @ '': '' @ errorText e"

type_synonym 'a result = "error + 'a"

type_synonym byte = "8 word"

definition is_ok :: "'a result \<Rightarrow> bool" where
  "is_ok r = (case r of Inl _ \<Rightarrow> False | Inr _ \<Rightarrow> True)"

section \<open>Integers, instants and durations\<close>

type_synonym duration = int
type_synonym instant = int

definition wrap64 :: "int \<Rightarrow> int" where
  "wrap64 x = (x + 9223372036854775808) mod 18446744073709551616 - 9223372036854775808"

definition clamp64 :: "int \<Rightarrow> int" where
  "clamp64 x = (if x < - 9223372036854775808 then - 9223372036854775808
                else if x > 9223372036854775807 then 9223372036854775807 else x)"

definition int64 :: "int \<Rightarrow> bool" where
  "int64 x = (- 9223372036854775808 \<le> x \<and> x \<le> 9223372036854775807)"

text \<open>Go's \<open>/\<close> and \<open>%\<close> on integers truncate towards zero.\<close>

definition go_quot :: "int \<Rightarrow> int \<Rightarrow> int" where
  [go_std]: "go_quot a b = sgn a * sgn b * (\<bar>a\<bar> div \<bar>b\<bar>)"

definition go_rem :: "int \<Rightarrow> int \<Rightarrow> int" where
  [go_std]: "go_rem a b = a - b * go_quot a b"

definition millisecond :: duration where "millisecond = 1000000"
definition second :: duration where "second = 1000000000"
definition minute :: duration where "minute = 60000000000"
definition hour :: duration where "hour = 3600000000000"

text \<open>
  An instant counts nanoseconds since the Unix epoch; Go's zero \<open>time.Time\<close> is midnight of
  January 1 of year 1, UTC.
\<close>

definition zeroTime :: instant where
  "zeroTime = - 62135596800000000000"

definition time_IsZero :: "instant \<Rightarrow> bool" where
  [go_std]: "time_IsZero t = (t = zeroTime)"

definition time_Sub :: "instant \<Rightarrow> instant \<Rightarrow> duration" where
  [go_std]: "time_Sub t u = clamp64 (t - u)"

definition time_Add :: "instant \<Rightarrow> duration \<Rightarrow> instant" where
  [go_std]: "time_Add t d = t + d"

definition time_Unix :: "instant \<Rightarrow> int" where
  [go_std]: "time_Unix t = t div 1000000000"

lemma wrap64_int64: "int64 (wrap64 x)"
  by (simp add: wrap64_def int64_def)

lemma wrap64_id [simp]: "int64 x \<Longrightarrow> wrap64 x = x"
  by (simp add: wrap64_def int64_def)

lemma wrap64_shift: "wrap64 (x + 18446744073709551616) = wrap64 x"
  using mod_add_self2 [of "x + 9223372036854775808" 18446744073709551616] by (simp add: wrap64_def)

lemma clamp64_int64: "int64 (clamp64 x)"
  by (simp add: clamp64_def int64_def)

lemma clamp64_id: "int64 x \<Longrightarrow> clamp64 x = x"
  by (auto simp: clamp64_def int64_def)

lemma clamp64_mono: "x \<le> y \<Longrightarrow> clamp64 x \<le> clamp64 y"
  by (auto simp: clamp64_def)

lemma time_Unix_mono: "t \<le> u \<Longrightarrow> time_Unix t \<le> time_Unix u"
  by (simp add: time_Unix_def zdiv_mono1)

section \<open>Lists, options and maps\<close>

text \<open>Deleting every key of a map whose value satisfies a predicate, as a \<open>range\<close> loop does.\<close>

definition map_drop :: "('v \<Rightarrow> bool) \<Rightarrow> ('k \<rightharpoonup> 'v) \<Rightarrow> ('k \<rightharpoonup> 'v)" where
  "map_drop P m = (\<lambda>k. case m k of None \<Rightarrow> None | Some v \<Rightarrow> if P v then None else Some v)"

lemma map_drop_Some [simp]: "map_drop P m k = Some v \<longleftrightarrow> m k = Some v \<and> \<not> P v"
  by (auto simp: map_drop_def split: option.splits)

lemma map_drop_None [simp]:
  "map_drop P m k = None \<longleftrightarrow> (\<forall>v. m k = Some v \<longrightarrow> P v)"
  by (auto simp: map_drop_def split: option.splits)

end
