(* ===== verification/Go_Strings.thy ===== *)
theory Go_Strings
  imports Prelude
begin

text \<open>
  The functions of the Go packages \<open>strings\<close>, \<open>strconv\<close> (integers and booleans),
  \<open>math/big\<close> (decimal \<open>SetString\<close>, \<open>Bytes\<close>) and \<open>encoding/hex\<close> that the source calls. A Go string is a
  sequence of bytes, which is what HOL's \<open>string\<close> is. White space and letter case are those of
  ASCII: bytes outside ASCII are left as they are, where Go consults the Unicode tables.
\<close>

section \<open>Package strings\<close>

definition isSpace :: "char \<Rightarrow> bool" where
  [go_std]: "isSpace c = (c \<in> {CHR '' '', CHR 0x09, CHR 0x0A, CHR 0x0B, CHR 0x0C, CHR 0x0D})"

definition TrimSpace :: "string \<Rightarrow> string" where
  "TrimSpace s = rev (dropWhile isSpace (rev (dropWhile isSpace s)))"

definition upperChar :: "char \<Rightarrow> char" where
  "upperChar c = (let n = (of_char c :: int) in if 97 \<le> n \<and> n \<le> 122 then char_of (n - 32) else c)"

definition lowerChar :: "char \<Rightarrow> char" where
  "lowerChar c = (let n = (of_char c :: int) in if 65 \<le> n \<and> n \<le> 90 then char_of (n + 32) else c)"

definition ToUpper :: "string \<Rightarrow> string" where
  "ToUpper s = map upperChar s"

definition ToLower :: "string \<Rightarrow> string" where
  "ToLower s = map lowerChar s"

definition EqualFold :: "string \<Rightarrow> string \<Rightarrow> bool" where
  "EqualFold s t = (ToLower s = ToLower t)"

definition HasPrefix :: "string \<Rightarrow> string \<Rightarrow> bool" where
  "HasPrefix s p = (take (length p) s = p)"

definition TrimPrefix :: "string \<Rightarrow> string \<Rightarrow> string" where
  "TrimPrefix s p = (if HasPrefix s p then drop (length p) s else s)"

fun Contains :: "string \<Rightarrow> string \<Rightarrow> bool" where
  "Contains [] p = (p = [])"
| "Contains (c # s) p = (HasPrefix (c # s) p \<or> Contains s p)"

text \<open>\<open>strings.Split\<close> with a separator of one byte; the result is never empty.\<close>

fun Split :: "string \<Rightarrow> char \<Rightarrow> string list" where
  "Split [] sep = [[]]"
| "Split (c # s) sep =
     (if c = sep then [] # Split s sep
      else (case Split s sep of [] \<Rightarrow> [[c]] | w # ws \<Rightarrow> (c # w) # ws))"

text \<open>Conversion of a code point to a string, \<open>string(rune(n))\<close>: its UTF-8 encoding.\<close>

definition runeToString :: "int \<Rightarrow> string" where
  "runeToString n =
     (if 0 \<le> n \<and> n < 128 then [char_of n]
      else if 0 \<le> n \<and> n < 2048 then [char_of (192 + n div 64), char_of (128 + n mod 64)]
      else if n < 0 \<or> 1114112 \<le> n \<or> 55296 \<le> n \<and> n < 57344 then [CHR 0xEF, CHR 0xBF, CHR 0xBD]
      else if n < 65536 then
        [char_of (224 + n div 4096), char_of (128 + n div 64 mod 64), char_of (128 + n mod 64)]
      else [char_of (240 + n div 262144), char_of (128 + n div 4096 mod 64),
        char_of (128 + n div 64 mod 64), char_of (128 + n mod 64)])"

section \<open>Digits\<close>

definition isDigit :: "char \<Rightarrow> bool" where
  [go_std]: "isDigit c = (let n = (of_char c :: int) in 48 \<le> n \<and> n \<le> 57)"

definition digitVal :: "char \<Rightarrow> int" where
  [go_std]: "digitVal c = of_char c - 48"

definition digitChar :: "int \<Rightarrow> char" where
  [go_std]: "digitChar d = char_of (d + 48)"

text \<open>The value of a string of decimal digits, most significant first.\<close>

definition digitsVal :: "string \<Rightarrow> int" where
  "digitsVal s = foldl (\<lambda>a c. 10 * a + digitVal c) 0 s"

definition isHexDigit :: "char \<Rightarrow> bool" where
  [go_std]: "isHexDigit c = (let n = (of_char c :: int) in
     48 \<le> n \<and> n \<le> 57 \<or> 97 \<le> n \<and> n \<le> 102 \<or> 65 \<le> n \<and> n \<le> 70)"

definition hexVal :: "char \<Rightarrow> int" where
  [go_std]: "hexVal c = (let n = (of_char c :: int) in
     if n \<le> 57 then n - 48 else if 97 \<le> n then n - 87 else n - 55)"

definition hexChar :: "int \<Rightarrow> char" where
  [go_std]: "hexChar d = char_of (if d < 10 then d + 48 else d + 87)"

section \<open>Package strconv, integers and booleans\<close>

text \<open>Optional sign of a numeral: the flag is true for a minus sign.\<close>

definition takeSign :: "string \<Rightarrow> bool \<times> string" where
  "takeSign s = (case s of
     [] \<Rightarrow> (False, [])
   | c # t \<Rightarrow> if c = CHR ''+'' then (False, t) else if c = CHR ''-'' then (True, t) else (False, s))"

definition numError :: "string \<Rightarrow> string \<Rightarrow> string \<Rightarrow> error" where
  "numError f s e = Err (''strconv.'' @ f @ '': parsing '' @ [CHR 0x22] @ s @ [CHR 0x22] @ '': '' @ e)"

text \<open>
  \<open>strconv.ParseInt(s, 10, 64)\<close>: the value and the error. A syntax error comes with the value
  0, an out-of-range number with the nearest value of the type. \<open>strconv.Atoi\<close>, on a platform
  with a 64-bit \<open>int\<close>, differs only in the function name of its error.
\<close>

definition parseIntAs :: "string \<Rightarrow> string \<Rightarrow> int \<times> error option" where
  "parseIntAs fn s = (let (neg, ds) = takeSign s in
     if ds = [] \<or> \<not> list_all isDigit ds
     then (0, Some (numError fn s ''invalid syntax''))
     else let v = (if neg then - digitsVal ds else digitsVal ds) in
       if int64 v then (v, None)
       else (clamp64 v, Some (numError fn s ''value out of range'')))"

definition ParseInt64 :: "string \<Rightarrow> int \<times> error option" where
  "ParseInt64 = parseIntAs ''ParseInt''"

definition Atoi :: "string \<Rightarrow> int \<times> error option" where
  "Atoi = parseIntAs ''Atoi''"

definition ParseBool :: "string \<Rightarrow> bool option" where
  "ParseBool s =
     (if s \<in> {''1'', ''t'', ''T'', ''true'', ''TRUE'', ''True''} then Some True
      else if s \<in> {''0'', ''f'', ''F'', ''false'', ''FALSE'', ''False''} then Some False
      else None)"

text \<open>Decimal printing of integers (\<open>%d\<close>, \<open>FormatInt\<close>, \<open>big.Int.String\<close>).\<close>

fun natDigits :: "int \<Rightarrow> string" where
  "natDigits n = (if n < 10 then [digitChar n] else natDigits (n div 10) @ [digitChar (n mod 10)])"

declare natDigits.simps [simp del]

definition FormatInt :: "int \<Rightarrow> string" where
  "FormatInt n = (if n < 0 then CHR ''-'' # natDigits (- n) else natDigits n)"

section \<open>Package math/big\<close>

text \<open>\<open>big.Int.SetString(s, 10)\<close>: an optional sign and at least one digit, nothing else.\<close>

definition SetString10 :: "string \<Rightarrow> int option" where
  "SetString10 s = (let (neg, ds) = takeSign s in
     if ds = [] \<or> \<not> list_all isDigit ds then None
     else Some (if neg then - digitsVal ds else digitsVal ds))"

text \<open>The bytes of a Go string.\<close>

definition stringBytes :: "string \<Rightarrow> byte list" where
  "stringBytes s = map (\<lambda>c. word_of_int (of_char c)) s"

text \<open>\<open>big.Int.Bytes\<close>: the absolute value, big-endian, without leading zeros.\<close>

fun bigBytesAux :: "int \<Rightarrow> byte list" where
  "bigBytesAux n = (if n \<le> 0 then [] else bigBytesAux (n div 256) @ [word_of_int (n mod 256)])"

declare bigBytesAux.simps [simp del]

definition bigBytes :: "int \<Rightarrow> byte list" where
  "bigBytes n = bigBytesAux \<bar>n\<bar>"

section \<open>Package encoding/hex\<close>

definition hexEncodeByte :: "byte \<Rightarrow> string" where
  "hexEncodeByte b = [hexChar (uint b div 16), hexChar (uint b mod 16)]"

definition hexEncodeToString :: "byte list \<Rightarrow> string" where
  "hexEncodeToString bs = concat (map hexEncodeByte bs)"

fun hexDecodeString :: "string \<Rightarrow> byte list option" where
  "hexDecodeString [] = Some []"
| "hexDecodeString [c] = None"
| "hexDecodeString (c # d # s) =
     (if isHexDigit c \<and> isHexDigit d
      then map_option ((#) (word_of_int (16 * hexVal c + hexVal d))) (hexDecodeString s)
      else None)"

section \<open>Lemmas on strings\<close>

lemma TrimSpace_idem [simp]: "TrimSpace (TrimSpace s) = TrimSpace s"
proof -
  define t where "t = dropWhile isSpace s"
  define u where "u = dropWhile isSpace (rev t)"
  have "hd (rev u) = hd t" if "u \<noteq> []"
  proof -
    from that obtain v where v: "rev t = v @ u"
      unfolding u_def by (metis takeWhile_dropWhile_id)
    then have "t = rev u @ rev v" by (metis rev_append rev_rev_ident)
    with that show ?thesis by (simp add: hd_append)
  qed
  moreover have "u \<noteq> [] \<Longrightarrow> t \<noteq> []"
    by (auto simp: u_def)
  moreover have "t \<noteq> [] \<Longrightarrow> \<not> isSpace (hd t)"
    unfolding t_def by (rule hd_dropWhile)
  ultimately have "dropWhile isSpace (rev u) = rev u"
    by (auto simp: dropWhile_eq_self_iff)
  moreover have "dropWhile isSpace u = u"
    by (simp add: u_def)
  ultimately show ?thesis
    by (simp add: TrimSpace_def t_def [symmetric] u_def [symmetric])
qed

lemma set_TrimSpace: "set (TrimSpace s) \<subseteq> set s"
  unfolding TrimSpace_def by (metis set_dropWhileD set_rev subsetI)

lemma TrimSpace_no_space: "list_all (\<lambda>c. \<not> isSpace c) s \<Longrightarrow> TrimSpace s = s"
proof -
  assume a: "list_all (\<lambda>c. \<not> isSpace c) s"
  then have "dropWhile isSpace s = s"
    by (cases s) auto
  moreover from a have "dropWhile isSpace (rev s) = rev s"
    by (cases "rev s") (auto simp: list_all_iff dest: arg_cong [where f = set])
  ultimately show ?thesis
    by (simp add: TrimSpace_def)
qed

lemma TrimSpace_Nil [simp]: "TrimSpace [] = []"
  by (simp add: TrimSpace_def)

lemma ToUpper_Nil_iff [simp]: "ToUpper s = [] \<longleftrightarrow> s = []"
  by (simp add: ToUpper_def)

lemma length_ToUpper [simp]: "length (ToUpper s) = length s"
  by (simp add: ToUpper_def)

lemma length_ToLower [simp]: "length (ToLower s) = length s"
  by (simp add: ToLower_def)

lemma EqualFold_refl [simp]: "EqualFold s s"
  by (simp add: EqualFold_def)

lemma EqualFold_sym: "EqualFold s t \<longleftrightarrow> EqualFold t s"
  by (auto simp: EqualFold_def)

lemma Split_not_Nil [simp]: "Split s sep \<noteq> []"
  by (cases s) (auto split: list.splits)

lemma Split_no_sep: "sep \<notin> set s \<Longrightarrow> Split s sep = [s]"
  by (induction s) auto

lemma Split_append:
  "sep \<notin> set s \<Longrightarrow> Split (s @ sep # t) sep = s # Split t sep"
  by (induction s) auto

section \<open>Numerals: reading back what is printed\<close>

lemma of_char_digitChar: "0 \<le> d \<Longrightarrow> d < 10 \<Longrightarrow> (of_char (digitChar d) :: int) = d + 48"
  by (simp add: digitChar_def)

lemma isDigit_digitChar: "0 \<le> d \<Longrightarrow> d < 10 \<Longrightarrow> isDigit (digitChar d)"
  by (simp add: isDigit_def of_char_digitChar)

lemma digitVal_digitChar: "0 \<le> d \<Longrightarrow> d < 10 \<Longrightarrow> digitVal (digitChar d) = d"
  by (simp add: digitVal_def of_char_digitChar)

lemma digitVal_bounds: "isDigit c \<Longrightarrow> 0 \<le> digitVal c \<and> digitVal c < 10"
  by (simp add: isDigit_def digitVal_def Let_def)

lemma digitsVal_Nil [simp]: "digitsVal [] = 0"
  by (simp add: digitsVal_def)

lemma digitsVal_snoc [simp]: "digitsVal (s @ [c]) = 10 * digitsVal s + digitVal c"
  by (simp add: digitsVal_def)

lemma digitsVal_append: "digitsVal (s @ t) = digitsVal s * 10 ^ length t + digitsVal t"
proof (induction t rule: rev_induct)
  case Nil
  show ?case by simp
next
  case (snoc c t)
  have "digitsVal (s @ t @ [c]) = 10 * digitsVal (s @ t) + digitVal c"
    by (metis append_assoc digitsVal_snoc)
  with snoc.IH show ?case by (simp add: algebra_simps)
qed

lemma digitsVal_bounds:
  "list_all isDigit s \<Longrightarrow> 0 \<le> digitsVal s \<and> digitsVal s < 10 ^ length s"
proof (induction s rule: rev_induct)
  case Nil
  show ?case by simp
next
  case (snoc c s)
  then have "0 \<le> digitsVal s" "digitsVal s < 10 ^ length s" "isDigit c"
    by auto
  with digitVal_bounds [of c] show ?case by simp
qed

lemma digitsVal_replicate_0: "digitsVal (replicate n CHR ''0'') = 0"
  by (induction n) (simp_all add: digitsVal_def digitVal_def)

lemma natDigits_digits: "0 \<le> n \<Longrightarrow> natDigits n \<noteq> [] \<and> list_all isDigit (natDigits n)"
proof (induction n rule: natDigits.induct)
  case (1 n)
  show ?case
  proof (cases "n < 10")
    case True
    with 1(2) show ?thesis
      by (subst (1 2) natDigits.simps) (simp add: isDigit_digitChar)
  next
    case False
    with 1 have "list_all isDigit (natDigits (n div 10))" by simp
    with False show ?thesis
      by (subst (1 2) natDigits.simps) (simp add: isDigit_digitChar)
  qed
qed

lemma digitsVal_natDigits: "0 \<le> n \<Longrightarrow> digitsVal (natDigits n) = n"
proof (induction n rule: natDigits.induct)
  case (1 n)
  show ?case
  proof (cases "n < 10")
    case True
    with 1(2) show ?thesis
      using digitsVal_snoc [of "[]" "digitChar n"]
      by (subst natDigits.simps) (simp add: digitVal_digitChar)
  next
    case False
    with 1 have "digitsVal (natDigits (n div 10)) = n div 10" by simp
    with False show ?thesis
      by (subst natDigits.simps) (simp add: digitVal_digitChar)
  qed
qed

lemma natDigits_no_sign:
  assumes "0 \<le> n"
  shows "takeSign (natDigits n) = (False, natDigits n)"
proof -
  obtain c t where ct: "natDigits n = c # t"
    using natDigits_digits [OF assms] by (cases "natDigits n") auto
  with natDigits_digits [OF assms] have "isDigit c" by simp
  then have "c \<noteq> CHR ''+''" "c \<noteq> CHR ''-''"
    by (auto simp: isDigit_def)
  with ct show ?thesis by (simp add: takeSign_def)
qed

lemma SetString10_FormatInt: "SetString10 (FormatInt n) = Some n"
proof (cases "n < 0")
  case True
  then have "0 \<le> - n" by simp
  with True natDigits_digits [of "- n"] show ?thesis
    by (simp add: FormatInt_def SetString10_def takeSign_def digitsVal_natDigits)
next
  case False
  then have "0 \<le> n" by simp
  with natDigits_digits [of n] show ?thesis
    by (simp add: FormatInt_def SetString10_def natDigits_no_sign digitsVal_natDigits)
qed

lemma ParseInt64_FormatInt: "int64 n \<Longrightarrow> ParseInt64 (FormatInt n) = (n, None)"
proof (cases "n < 0")
  case True
  assume "int64 n"
  with True natDigits_digits [of "- n"] show ?thesis
    by (simp add: ParseInt64_def parseIntAs_def FormatInt_def takeSign_def digitsVal_natDigits)
next
  case False
  assume "int64 n"
  with False natDigits_digits [of n] show ?thesis
    by (simp add: ParseInt64_def parseIntAs_def FormatInt_def natDigits_no_sign digitsVal_natDigits)
qed

section \<open>Big-endian bytes and hexadecimal text\<close>

definition bytesVal :: "byte list \<Rightarrow> int" where
  "bytesVal bs = foldl (\<lambda>a b. 256 * a + uint b) 0 bs"

lemma bytesVal_Nil [simp]: "bytesVal [] = 0"
  by (simp add: bytesVal_def)

lemma bytesVal_snoc [simp]: "bytesVal (bs @ [b]) = 256 * bytesVal bs + uint b"
  by (simp add: bytesVal_def)

lemma bytesVal_append: "bytesVal (bs @ cs) = bytesVal bs * 256 ^ length cs + bytesVal cs"
proof (induction cs rule: rev_induct)
  case Nil
  show ?case by simp
next
  case (snoc c cs)
  have "bytesVal (bs @ cs @ [c]) = 256 * bytesVal (bs @ cs) + uint c"
    by (metis append_assoc bytesVal_snoc)
  with snoc.IH show ?case by (simp add: algebra_simps)
qed

lemma bytesVal_replicate_0 [simp]: "bytesVal (replicate n 0) = 0"
  by (induction n) (simp_all add: bytesVal_def)

lemma bytesVal_bigBytesAux: "0 \<le> n \<Longrightarrow> bytesVal (bigBytesAux n) = n"
proof (induction n rule: bigBytesAux.induct)
  case (1 n)
  show ?case
  proof (cases "n \<le> 0")
    case True
    with 1(2) show ?thesis by (subst bigBytesAux.simps) simp
  next
    case False
    with 1 have "bytesVal (bigBytesAux (n div 256)) = n div 256" by simp
    moreover have "uint (word_of_int (n mod 256) :: byte) = n mod 256"
      by (simp add: uint_word_of_int)
    ultimately show ?thesis using False by (subst bigBytesAux.simps) simp
  qed
qed

lemma bytesVal_bigBytes: "bytesVal (bigBytes n) = \<bar>n\<bar>"
  by (simp add: bigBytes_def bytesVal_bigBytesAux)

lemma length_bigBytesAux: "n < 256 ^ k \<Longrightarrow> length (bigBytesAux n) \<le> k"
proof (induction k arbitrary: n)
  case 0
  then show ?case by (subst bigBytesAux.simps) simp
next
  case (Suc k)
  show ?case
  proof (cases "n \<le> 0")
    case True
    then show ?thesis by (subst bigBytesAux.simps) simp
  next
    case False
    have "n div 256 < 256 ^ k"
      using Suc.prems unfolding power_Suc by linarith
    with Suc.IH have "length (bigBytesAux (n div 256)) \<le> k" by simp
    with False show ?thesis by (subst bigBytesAux.simps) simp
  qed
qed

lemma length_bigBytes: "\<bar>n\<bar> < 256 ^ k \<Longrightarrow> length (bigBytes n) \<le> k"
  by (simp add: bigBytes_def length_bigBytesAux)

lemma hexChar_props:
  "0 \<le> d \<Longrightarrow> d < 16 \<Longrightarrow> isHexDigit (hexChar d) \<and> hexVal (hexChar d) = d"
  by (auto simp: isHexDigit_def hexVal_def hexChar_def Let_def)

lemma hexDecode_hexEncodeByte:
  "hexDecodeString (hexEncodeByte b @ s) = map_option ((#) b) (hexDecodeString s)"
proof -
  have b: "0 \<le> uint b" "uint b < 256"
    using uint_lt2p [of b] by simp_all
  then have "0 \<le> uint b div 16" "uint b div 16 < 16" by linarith+
  moreover have "0 \<le> uint b mod 16" "uint b mod 16 < 16" by simp_all
  ultimately show ?thesis
    using hexChar_props [of "uint b div 16"] hexChar_props [of "uint b mod 16"]
    by (simp add: hexEncodeByte_def)
qed

lemma hexDecode_hexEncode: "hexDecodeString (hexEncodeToString bs) = Some bs"
  by (induction bs) (simp_all add: hexEncodeToString_def hexDecode_hexEncodeByte)

lemma length_hexEncodeToString: "length (hexEncodeToString bs) = 2 * length bs"
  by (induction bs) (simp_all add: hexEncodeToString_def hexEncodeByte_def)

lemma hexEncodeToString_inj: "hexEncodeToString a = hexEncodeToString b \<Longrightarrow> a = b"
  using hexDecode_hexEncode by (metis option.inject)

lemma hexDecodeString_length: "hexDecodeString s = Some bs \<Longrightarrow> length s = 2 * length bs"
  by (induction s arbitrary: bs rule: hexDecodeString.induct) (auto split: if_splits)

lemma stringBytes_append [simp]: "stringBytes (a @ b) = stringBytes a @ stringBytes b"
  by (simp add: stringBytes_def)

lemma stringBytes_inj: "stringBytes a = stringBytes b \<Longrightarrow> a = b"
proof (induction a arbitrary: b)
  case Nil
  then show ?case by (simp add: stringBytes_def)
next
  case (Cons c a)
  then obtain d b' where b: "b = d # b'" by (cases b) (auto simp: stringBytes_def)
  have "word_of_int (of_char c) = (word_of_int (of_char d) :: 8 word)"
    using Cons.prems b by (simp add: stringBytes_def)
  then have "(of_char c :: int) = of_char d"
    unfolding word_of_int_eq_iff take_bit_eq_mod by simp
  with Cons b show ?case by (simp add: stringBytes_def)
qed

lemma ParseInt64_int64: "int64 (fst (ParseInt64 s))"
  using clamp64_int64 by (simp add: ParseInt64_def parseIntAs_def Let_def split_beta int64_def)

lemma takeSign_set: "set s \<subseteq> insert CHR ''+'' (insert CHR ''-'' (set (snd (takeSign s))))"
  by (auto simp: takeSign_def split: list.splits if_splits)

lemma ParseInt64_no_dot:
  assumes "ParseInt64 s = (v, None)"
  shows "CHR ''.'' \<notin> set s"
proof -
  from assms have "list_all isDigit (snd (takeSign s))"
    by (auto simp: ParseInt64_def parseIntAs_def Let_def split_beta split: if_splits)
  moreover have "\<not> isDigit CHR ''.''" by (simp add: isDigit_def)
  ultimately have "CHR ''.'' \<notin> set (snd (takeSign s))" by (auto simp: list_all_iff)
  with takeSign_set [of s] show ?thesis by auto
qed

lemma hexChar_not_dot: "0 \<le> d \<Longrightarrow> d < 16 \<Longrightarrow> hexChar d \<noteq> CHR ''.''"
  using hexChar_props [of d] by (auto simp: isHexDigit_def)

lemma hexEncodeToString_no_dot: "CHR ''.'' \<notin> set (hexEncodeToString bs)"
proof -
  have "hexChar (uint b div 16) \<noteq> CHR ''.''" "hexChar (uint b mod 16) \<noteq> CHR ''.''" for b :: byte
    using hexChar_not_dot [of "uint b div 16"] hexChar_not_dot [of "uint b mod 16"] uint_lt2p [of b]
    by (simp_all add: pos_imp_zdiv_nonneg_iff div_less_iff_less_mult)
  then show ?thesis by (simp add: hexEncodeToString_def hexEncodeByte_def) metis
qed

text \<open>A text with a separator determines what stands before the first and after the last one.\<close>

lemma append_sep_left:
  "c \<notin> set a \<Longrightarrow> c \<notin> set b \<Longrightarrow> a @ c # x = b @ c # y \<Longrightarrow> a = b \<and> x = y"
proof (induction a arbitrary: b)
  case Nil
  then show ?case by (cases b) auto
next
  case (Cons d a)
  then show ?case by (cases b) auto
qed

lemma append_sep_right:
  assumes "c \<notin> set x" and "c \<notin> set y" and "a @ c # x = b @ c # y"
  shows "a = b \<and> x = y"
proof -
  from assms(3) have "rev x @ c # rev a = rev y @ c # rev b" by (metis append.assoc append_Cons append_Nil rev.simps(2) rev_append)
  with append_sep_left [of c "rev x" "rev y" "rev a" "rev b"] assms(1,2) show ?thesis by simp
qed

end
