(* ===== verification/Go_Float64.thy ===== *)
theory Go_Float64
  imports Complex_Main Go_Strings
begin

text \<open>
  Go's \<open>float64\<close>: the IEEE 754 binary64 values with rounding to nearest, ties to even, and
  \<open>strconv.ParseFloat\<close> on the full syntax of floating-point literals. Finite values are the rational
  numbers they stand for; both zeros are the rational 0, since no comparison or sum of the
  program tells them apart. Operations compute the exact rational result and round once, as
  hardware without fused multiply-add does.
\<close>

section \<open>Values and rounding\<close>

datatype f64 = NaN | PosInf | NegInf | Fin rat

fun intLog2 :: "int \<Rightarrow> int" where
  "intLog2 n = (if n \<le> 1 then 0 else 1 + intLog2 (n div 2))"

declare intLog2.simps [simp del]

definition ratLog2 :: "rat \<Rightarrow> int" where
  "ratLog2 x = (if 1 \<le> x then intLog2 \<lfloor>x\<rfloor> else - (1 + intLog2 (\<lceil>1 / x\<rceil> - 1)))"

definition roundHalfEven :: "rat \<Rightarrow> int" where
  "roundHalfEven x = (let q = \<lfloor>x\<rfloor>; r = x - of_int q in
     if r < 1 / 2 then q else if 1 / 2 < r then q + 1 else if even q then q else q + 1)"

definition pow2 :: "int \<Rightarrow> rat" where
  "pow2 e = (if 0 \<le> e then of_int (2 ^ nat e) else 1 / of_int (2 ^ nat (- e)))"

definition f64Exp :: "rat \<Rightarrow> int" where
  "f64Exp x = max (- 1074) (ratLog2 x - 52)"

definition f64Mag :: "rat \<Rightarrow> rat" where
  "f64Mag x = of_int (roundHalfEven (x / pow2 (f64Exp x))) * pow2 (f64Exp x)"

text \<open>
  The rounded magnitude is finite when it stays below \<open>2 ^ 1024\<close>, that is, when its binary
  logarithm stays below 1024; otherwise the result is an infinity.
\<close>

definition f64Round :: "rat \<Rightarrow> f64" where
  "f64Round x =
     (if x = 0 then Fin 0
      else if 0 < x then (if ratLog2 (f64Mag x) < 1024 then Fin (f64Mag x) else PosInf)
      else (if ratLog2 (f64Mag (- x)) < 1024 then Fin (- f64Mag (- x)) else NegInf))"

definition isFin :: "f64 \<Rightarrow> bool" where
  "isFin a = (case a of Fin _ \<Rightarrow> True | _ \<Rightarrow> False)"

definition f64Val :: "f64 \<Rightarrow> rat" where
  "f64Val a = (case a of Fin x \<Rightarrow> x | _ \<Rightarrow> 0)"

section \<open>Arithmetic and comparison\<close>

text \<open>
  The operators of the type class \<open>ord\<close> are IEEE comparison, false when an operand is not a
  number; the arithmetic operators round the exact result.
\<close>

instantiation f64 :: "{ord, zero, one, plus, minus, times, inverse}"
begin

fun less_f64 :: "f64 \<Rightarrow> f64 \<Rightarrow> bool" where
  "less_f64 (Fin x) (Fin y) = (x < y)"
| "less_f64 (Fin x) PosInf = True"
| "less_f64 NegInf (Fin y) = True"
| "less_f64 NegInf PosInf = True"
| "less_f64 _ _ = False"

definition less_eq_f64 :: "f64 \<Rightarrow> f64 \<Rightarrow> bool" where
  "less_eq_f64 a b = (a < b \<or> (a = b \<and> a \<noteq> NaN))"

definition zero_f64 :: f64 where "zero_f64 = Fin 0"

definition one_f64 :: f64 where "one_f64 = Fin 1"

fun plus_f64 :: "f64 \<Rightarrow> f64 \<Rightarrow> f64" where
  "plus_f64 (Fin x) (Fin y) = f64Round (x + y)"
| "plus_f64 NaN _ = NaN"
| "plus_f64 _ NaN = NaN"
| "plus_f64 PosInf NegInf = NaN"
| "plus_f64 NegInf PosInf = NaN"
| "plus_f64 PosInf _ = PosInf"
| "plus_f64 _ PosInf = PosInf"
| "plus_f64 NegInf _ = NegInf"
| "plus_f64 _ NegInf = NegInf"

definition minus_f64 :: "f64 \<Rightarrow> f64 \<Rightarrow> f64" where
  "minus_f64 a b = a + (case b of Fin y \<Rightarrow> Fin (- y) | PosInf \<Rightarrow> NegInf | NegInf \<Rightarrow> PosInf | NaN \<Rightarrow> NaN)"

definition f64Sign :: "f64 \<Rightarrow> int" where
  "f64Sign a = (case a of Fin x \<Rightarrow> (if x < 0 then - 1 else if 0 < x then 1 else 0)
     | PosInf \<Rightarrow> 1 | NegInf \<Rightarrow> - 1 | NaN \<Rightarrow> 0)"

definition f64Inf :: "int \<Rightarrow> f64" where
  "f64Inf s = (if 0 < s then PosInf else if s < 0 then NegInf else NaN)"

fun times_f64 :: "f64 \<Rightarrow> f64 \<Rightarrow> f64" where
  "times_f64 (Fin x) (Fin y) = f64Round (x * y)"
| "times_f64 a b = f64Inf (f64Sign a * f64Sign b)"

fun divide_f64 :: "f64 \<Rightarrow> f64 \<Rightarrow> f64" where
  "divide_f64 (Fin x) (Fin y) =
     (if y = 0 then f64Inf (f64Sign (Fin x)) else f64Round (x / y))"
| "divide_f64 NaN _ = NaN"
| "divide_f64 _ NaN = NaN"
| "divide_f64 (Fin x) _ = Fin 0"
| "divide_f64 a (Fin y) = f64Inf (f64Sign a * (if y < 0 then - 1 else 1))"
| "divide_f64 _ _ = NaN"

definition inverse_f64 :: "f64 \<Rightarrow> f64" where
  "inverse_f64 a = Fin 1 div a"

instance ..

end

definition f64OfInt :: "int \<Rightarrow> f64" where
  "f64OfInt n = f64Round (of_int n)"

text \<open>Conversion of a float to \<open>int64\<close>: truncation towards zero.\<close>

definition f64ToInt :: "f64 \<Rightarrow> int" where
  "f64ToInt a = (case a of Fin x \<Rightarrow> (if 0 \<le> x then \<lfloor>x\<rfloor> else \<lceil>x\<rceil>) | _ \<Rightarrow> 0)"

text \<open>\<open>Duration.Seconds\<close> and \<open>Duration.Milliseconds\<close>.\<close>

definition durationSeconds :: "duration \<Rightarrow> f64" where
  "durationSeconds d = f64OfInt (go_quot d second) + f64OfInt (go_rem d second) / f64OfInt 1000000000"

definition durationMilliseconds :: "duration \<Rightarrow> int" where
  "durationMilliseconds d = go_quot d millisecond"

section \<open>strconv.ParseFloat\<close>

record scanned =
  mantissa :: int
  fracDigits :: nat
  sawdot :: bool
  sawdigits :: bool
  underscores :: bool

text \<open>The digit loop of \<open>readFloat\<close>; it stops at the first character that cannot continue.\<close>

fun scanDigits :: "bool \<Rightarrow> scanned \<Rightarrow> string \<Rightarrow> scanned \<times> string" where
  "scanDigits hex a [] = (a, [])"
| "scanDigits hex a (c # s) =
     (if c = CHR ''_'' then scanDigits hex (a\<lparr>underscores := True\<rparr>) s
      else if c = CHR ''.'' then
        (if sawdot a then (a, c # s) else scanDigits hex (a\<lparr>sawdot := True\<rparr>) s)
      else if isDigit c \<or> hex \<and> isHexDigit c then
        scanDigits hex (a\<lparr>mantissa := mantissa a * (if hex then 16 else 10) + hexVal c,
          fracDigits := (if sawdot a then Suc (fracDigits a) else fracDigits a),
          sawdigits := True\<rparr>) s
      else (a, c # s))"

text \<open>The exponent digits of \<open>readFloat\<close>, which stop counting at 10000.\<close>

fun scanExp :: "int \<Rightarrow> bool \<Rightarrow> string \<Rightarrow> int \<times> bool \<times> string" where
  "scanExp e u [] = (e, u, [])"
| "scanExp e u (c # s) =
     (if c = CHR ''_'' then scanExp e True s
      else if isDigit c then scanExp (if e < 10000 then e * 10 + digitVal c else e) u s
      else (e, u, c # s))"

datatype saw = SawStart | SawDigit | SawUnderscore | SawOther

fun underscoreLoop :: "bool \<Rightarrow> saw \<Rightarrow> string \<Rightarrow> bool" where
  "underscoreLoop hex w [] = (w \<noteq> SawUnderscore)"
| "underscoreLoop hex w (c # s) =
     (if isDigit c \<or> hex \<and> isHexDigit c then underscoreLoop hex SawDigit s
      else if c = CHR ''_'' then w = SawDigit \<and> underscoreLoop hex SawUnderscore s
      else w \<noteq> SawUnderscore \<and> underscoreLoop hex SawOther s)"

definition hasBasePrefix :: "string \<Rightarrow> bool" where
  "hasBasePrefix s = (case s of a # b # _ \<Rightarrow> a = CHR ''0'' \<and> lowerChar b \<in> {CHR ''b'', CHR ''o'', CHR ''x''} | _ \<Rightarrow> False)"

definition underscoreOK :: "string \<Rightarrow> bool" where
  "underscoreOK s0 = (let s = snd (takeSign s0) in
     if hasBasePrefix s then underscoreLoop (lowerChar (s ! 1) = CHR ''x'') SawDigit (drop 2 s)
     else underscoreLoop False SawStart s)"

definition hexPrefix :: "string \<Rightarrow> bool" where
  "hexPrefix s = (case s of a # b # _ # _ \<Rightarrow> a = CHR ''0'' \<and> lowerChar b = CHR ''x'' | _ \<Rightarrow> False)"

text \<open>
  \<open>readExp\<close> reads the optional exponent: \<open>None\<close> for a malformed one, else the exponent, the
  underscore flag and what is left of the string.
\<close>

definition readExp :: "bool \<Rightarrow> bool \<Rightarrow> string \<Rightarrow> (int \<times> bool \<times> string) option" where
  "readExp hex u r = (case r of
     [] \<Rightarrow> if hex then None else Some (0, u, [])
   | c # t \<Rightarrow>
       if lowerChar c = (if hex then CHR ''p'' else CHR ''e'') then
         (let (neg, t') = takeSign t in
          case t' of [] \<Rightarrow> None
          | d # _ \<Rightarrow> if isDigit d
              then (let (e, u', rest) = scanExp 0 u t' in Some (if neg then - e else e, u', rest))
              else None)
       else if hex then None else Some (0, u, r))"

definition scanned0 :: scanned where
  "scanned0 = \<lparr>mantissa = 0, fracDigits = 0, sawdot = False, sawdigits = False, underscores = False\<rparr>"

definition ratPow10 :: "int \<Rightarrow> rat" where
  "ratPow10 e = (if 0 \<le> e then of_int (10 ^ nat e) else 1 / of_int (10 ^ nat (- e)))"

text \<open>\<open>readFloat\<close>: the exact value of a well-formed literal.\<close>

definition readFloat :: "string \<Rightarrow> rat option" where
  "readFloat s = (let (neg, t) = takeSign s; hex = hexPrefix t;
       (a, r) = scanDigits hex scanned0 (if hex then drop 2 t else t) in
     if \<not> sawdigits a then None
     else case readExp hex (underscores a) r of
       None \<Rightarrow> None
     | Some (e, u, rest) \<Rightarrow>
         if rest \<noteq> [] \<or> u \<and> \<not> underscoreOK s then None
         else let v = of_int (mantissa a) *
                (if hex then pow2 (e - 4 * int (fracDigits a)) else ratPow10 (e - int (fracDigits a)))
              in Some (if neg then - v else v))"

definition special :: "string \<Rightarrow> f64 option" where
  "special s = (let (neg, t) = takeSign s; l = ToLower t in
     if l = ''inf'' \<or> l = ''infinity'' then Some (if neg then NegInf else PosInf)
     else if ToLower s = ''nan'' then Some NaN else None)"

text \<open>\<open>ParseFloat(s, 64)\<close>; \<open>None\<close> stands for a syntax error or an out-of-range value.\<close>

definition ParseFloat :: "string \<Rightarrow> f64 option" where
  "ParseFloat s = (case special s of
     Some f \<Rightarrow> Some f
   | None \<Rightarrow> (case readFloat s of
       None \<Rightarrow> None
     | Some v \<Rightarrow> if isFin (f64Round v) then Some (f64Round v) else None))"

text \<open>The verb \<open>%.8f\<close> of \<open>fmt\<close>.\<close>

definition padLeft0 :: "nat \<Rightarrow> string \<Rightarrow> string" where
  "padLeft0 n s = replicate (n - length s) CHR ''0'' @ s"

definition fmtF8 :: "f64 \<Rightarrow> string" where
  "fmtF8 a = (case a of
     NaN \<Rightarrow> ''NaN'' | PosInf \<Rightarrow> ''+Inf'' | NegInf \<Rightarrow> ''-Inf''
   | Fin x \<Rightarrow> (let q = roundHalfEven (\<bar>x\<bar> * 100000000) in
       (if x < 0 then ''-'' else []) @ natDigits (q div 100000000) @ ''.'' @
         padLeft0 8 (natDigits (q mod 100000000))))"

section \<open>Binary logarithms, powers of two and the rounding of magnitudes\<close>

lemma intLog2_nonneg: "0 \<le> intLog2 n"
proof (induction n rule: intLog2.induct)
  case (1 n)
  then show ?case by (subst intLog2.simps) auto
qed

lemma intLog2_bounds:
  "1 \<le> n \<Longrightarrow> 2 ^ nat (intLog2 n) \<le> n \<and> n < 2 * 2 ^ nat (intLog2 n)"
proof (induction n rule: intLog2.induct)
  case (1 n)
  show ?case
  proof (cases "n \<le> 1")
    case True
    with 1(2) show ?thesis by (simp add: intLog2.simps)
  next
    case False
    define k where "k = nat (intLog2 (n div 2))"
    from False 1 have ih: "2 ^ k \<le> n div 2" "n div 2 < 2 * 2 ^ k"
      by (simp_all add: k_def)
    have "nat (intLog2 n) = Suc k"
      using False intLog2_nonneg [of "n div 2"] by (subst intLog2.simps) (simp add: k_def nat_add_distrib)
    with ih show ?thesis by simp linarith
  qed
qed

lemma pow2_powi: "pow2 e = 2 powi e"
  by (simp add: pow2_def power_int_def inverse_eq_divide power_one_over)

lemma pow2_pos [simp]: "0 < pow2 e"
  by (simp add: pow2_powi)

lemma pow2_nonneg [simp]: "0 \<le> pow2 e"
  by (simp add: less_imp_le)

lemma pow2_nonzero [simp]: "pow2 e \<noteq> 0"
  by (simp add: pow2_powi)

lemma pow2_add: "pow2 (a + b) = pow2 a * pow2 b"
  by (simp add: pow2_powi power_int_add)

lemma pow2_0 [simp]: "pow2 0 = 1"
  by (simp add: pow2_powi)

lemma pow2_minus: "pow2 (- a) = 1 / pow2 a"
  by (simp add: pow2_powi power_int_minus inverse_eq_divide)

lemma pow2_Suc: "pow2 (a + 1) = 2 * pow2 a"
  by (simp add: pow2_powi power_int_add)

lemma pow2_strict_mono: "a < b \<Longrightarrow> pow2 a < pow2 b"
  by (simp add: pow2_powi power_int_strict_increasing)

lemma pow2_less_iff [simp]: "pow2 a < pow2 b \<longleftrightarrow> a < b"
  using pow2_strict_mono [of a b] pow2_strict_mono [of b a] by (cases a b rule: linorder_cases) auto

lemma pow2_le_iff [simp]: "pow2 a \<le> pow2 b \<longleftrightarrow> a \<le> b"
  using pow2_less_iff [of b a] by (simp add: not_less [symmetric] del: pow2_less_iff)

lemma pow2_nat: "pow2 (int k) = 2 ^ k"
  by (simp add: pow2_def)

lemma ratLog2_bounds:
  assumes "0 < x"
  shows "pow2 (ratLog2 x) \<le> x \<and> x < pow2 (ratLog2 x + 1)"
proof (cases "1 \<le> x")
  case True
  define k where "k = intLog2 \<lfloor>x\<rfloor>"
  from True have "1 \<le> \<lfloor>x\<rfloor>" by simp
  from intLog2_bounds [OF this] intLog2_nonneg
  have b: "2 ^ nat k \<le> \<lfloor>x\<rfloor>" "\<lfloor>x\<rfloor> + 1 \<le> 2 * 2 ^ nat k" "0 \<le> k"
    by (auto simp: k_def)
  have "pow2 k = of_int (2 ^ nat k)"
    using b(3) by (simp add: pow2_def)
  moreover have "of_int (2 ^ nat k) \<le> x"
    using b(1) by (simp add: le_floor_iff)
  moreover have "x < of_int (2 * 2 ^ nat k)"
    using b(2) by (meson floor_less_iff zless_iff_Suc_zadd less_le_trans zless_add1_eq)
  ultimately show ?thesis
    using True by (simp add: ratLog2_def k_def [symmetric] pow2_Suc)
next
  case False
  define y where "y = 1 / x"
  define m where "m = \<lceil>y\<rceil> - 1"
  define k where "k = intLog2 m"
  from False assms have y: "1 < y" by (simp add: y_def)
  then have "2 \<le> \<lceil>y\<rceil>"
    by (metis less_ceiling_iff of_int_1 one_add_one zless_imp_add1_zle)
  then have "1 \<le> m" by (simp add: m_def)
  from intLog2_bounds [OF this] intLog2_nonneg
  have b: "2 ^ nat k \<le> m" "m + 1 \<le> 2 * 2 ^ nat k" "0 \<le> k"
    by (auto simp: k_def)
  have p: "pow2 k = of_int (2 ^ nat k)"
    using b(3) by (simp add: pow2_def)
  have "of_int (2 ^ nat k) < y"
    using b(1) by (simp add: m_def less_ceiling_iff)
  then have lo: "pow2 k < y" using p by simp
  have "y \<le> of_int (2 * 2 ^ nat k)"
    using b(2) by (simp add: m_def ceiling_le_iff)
  then have hi: "y \<le> pow2 (k + 1)" using p by (simp add: pow2_Suc)
  have "ratLog2 x = - (k + 1)"
    using False by (simp add: ratLog2_def k_def m_def y_def)
  moreover have "1 / pow2 (k + 1) \<le> x"
    using hi assms by (simp add: y_def divide_simps mult.commute)
  moreover have "x < 1 / pow2 k"
    using lo assms by (simp add: y_def divide_simps mult.commute)
  moreover have "pow2 (- (k + 1)) = 1 / pow2 (k + 1)" "pow2 (- (k + 1) + 1) = 1 / pow2 k"
    using pow2_minus [of "k + 1"] pow2_minus [of k] by simp_all
  ultimately show ?thesis
    by (simp only:)
qed

lemma ratLog2_eqI: "pow2 k \<le> x \<Longrightarrow> x < pow2 (k + 1) \<Longrightarrow> ratLog2 x = k"
proof -
  assume a: "pow2 k \<le> x" "x < pow2 (k + 1)"
  then have "0 < x" using pow2_pos less_le_trans by blast
  from ratLog2_bounds [OF this] a have "pow2 k < pow2 (ratLog2 x + 1)" "pow2 (ratLog2 x) < pow2 (k + 1)"
    by linarith+
  then show ?thesis by simp
qed

lemma ratLog2_less_iff: "0 < x \<Longrightarrow> ratLog2 x < k \<longleftrightarrow> x < pow2 k"
proof
  assume "0 < x" "ratLog2 x < k"
  then have "x < pow2 (ratLog2 x + 1)" "pow2 (ratLog2 x + 1) \<le> pow2 k"
    using ratLog2_bounds by auto
  then show "x < pow2 k" by linarith
next
  assume "0 < x" "x < pow2 k"
  with ratLog2_bounds have "pow2 (ratLog2 x) < pow2 k" by (meson le_less_trans)
  then show "ratLog2 x < k" by simp
qed

lemma ratLog2_mono: "0 < x \<Longrightarrow> x \<le> y \<Longrightarrow> ratLog2 x \<le> ratLog2 y"
proof (rule ccontr)
  assume a: "0 < x" "x \<le> y" "\<not> ratLog2 x \<le> ratLog2 y"
  then have "ratLog2 y < ratLog2 x" by simp
  with a have "y < pow2 (ratLog2 x)"
    using ratLog2_less_iff [of y "ratLog2 x"] by simp
  with ratLog2_bounds [OF a(1)] a(2) show False by linarith
qed

lemma roundHalfEven_of_int [simp]: "roundHalfEven (of_int n) = n"
  by (simp add: roundHalfEven_def)

lemma roundHalfEven_error: "\<bar>of_int (roundHalfEven x) - x\<bar> \<le> 1 / 2"
proof -
  have "of_int \<lfloor>x\<rfloor> \<le> x" "x < of_int \<lfloor>x\<rfloor> + 1"
    using floor_correct [of x] by simp_all
  then show ?thesis
    by (auto simp: roundHalfEven_def Let_def abs_le_iff field_simps)
qed

lemma roundHalfEven_floor: "\<lfloor>x\<rfloor> \<le> roundHalfEven x \<and> roundHalfEven x \<le> \<lfloor>x\<rfloor> + 1"
  by (auto simp: roundHalfEven_def Let_def)

lemma roundHalfEven_mono: "x \<le> y \<Longrightarrow> roundHalfEven x \<le> roundHalfEven y"
proof -
  assume xy: "x \<le> y"
  show ?thesis
  proof (cases "\<lfloor>x\<rfloor> = \<lfloor>y\<rfloor>")
    case True
    with xy show ?thesis by (auto simp: roundHalfEven_def Let_def)
  next
    case False
    with xy have "\<lfloor>x\<rfloor> + 1 \<le> \<lfloor>y\<rfloor>"
      using floor_mono [OF xy] by simp
    with roundHalfEven_floor [of x] roundHalfEven_floor [of y] show ?thesis by linarith
  qed
qed

lemma f64Exp_mono: "0 < x \<Longrightarrow> x \<le> y \<Longrightarrow> f64Exp x \<le> f64Exp y"
  using ratLog2_mono [of x y] by (simp add: f64Exp_def)

lemma f64Mag_nonneg: "0 < x \<Longrightarrow> 0 \<le> f64Mag x"
proof -
  assume "0 < x"
  then have "roundHalfEven (of_int 0) \<le> roundHalfEven (x / pow2 (f64Exp x))"
    by (intro roundHalfEven_mono) (simp add: zero_le_divide_iff less_imp_le)
  then have "0 \<le> roundHalfEven (x / pow2 (f64Exp x))"
    by (simp only: roundHalfEven_of_int)
  then show ?thesis
    by (simp add: f64Mag_def)
qed

lemma f64Mag_grid:
  assumes "f64Exp x \<le> e" and "of_int m * pow2 e \<le> x"
  shows "of_int m * pow2 e \<le> f64Mag x"
proof -
  define f where "f = f64Exp x"
  have e: "pow2 e = of_int (2 ^ nat (e - f)) * pow2 f"
    using assms(1) pow2_add [of "e - f" f] by (simp add: f_def pow2_def)
  then have "of_int (m * 2 ^ nat (e - f)) \<le> x / pow2 f"
    using assms(2) by (simp add: field_simps)
  then have "m * 2 ^ nat (e - f) \<le> roundHalfEven (x / pow2 f)"
    by (metis roundHalfEven_mono roundHalfEven_of_int)
  then have "of_int (m * 2 ^ nat (e - f)) * pow2 f \<le> of_int (roundHalfEven (x / pow2 f)) * pow2 f"
    by (simp add: mult_right_mono del: of_int_mult)
  with e show ?thesis
    by (simp add: f64Mag_def f_def [symmetric] mult.assoc)
qed

lemma f64Mag_grid_upper:
  assumes "f64Exp x \<le> e" and "x \<le> of_int m * pow2 e"
  shows "f64Mag x \<le> of_int m * pow2 e"
proof -
  define f where "f = f64Exp x"
  have e: "pow2 e = of_int (2 ^ nat (e - f)) * pow2 f"
    using assms(1) pow2_add [of "e - f" f] by (simp add: f_def pow2_def)
  then have "x / pow2 f \<le> of_int (m * 2 ^ nat (e - f))"
    using assms(2) by (simp add: field_simps)
  then have "roundHalfEven (x / pow2 f) \<le> m * 2 ^ nat (e - f)"
    by (metis roundHalfEven_mono roundHalfEven_of_int)
  then have "of_int (roundHalfEven (x / pow2 f)) * pow2 f \<le> of_int (m * 2 ^ nat (e - f)) * pow2 f"
    by (simp add: mult_right_mono del: of_int_mult)
  with e show ?thesis
    by (simp add: f64Mag_def f_def [symmetric] mult.assoc)
qed

lemma f64Mag_mono: "0 < x \<Longrightarrow> x \<le> y \<Longrightarrow> f64Mag x \<le> f64Mag y"
proof (cases "f64Exp x = f64Exp y")
  case True
  assume "0 < x" "x \<le> y"
  then have "x / pow2 (f64Exp y) \<le> y / pow2 (f64Exp y)"
    by (simp add: divide_right_mono less_imp_le)
  then have "roundHalfEven (x / pow2 (f64Exp y)) \<le> roundHalfEven (y / pow2 (f64Exp y))"
    by (rule roundHalfEven_mono)
  with True show ?thesis
    by (simp add: f64Mag_def mult_right_mono)
next
  case False
  assume a: "0 < x" "x \<le> y"
  define k where "k = ratLog2 y"
  from False f64Exp_mono [OF a] have lt: "f64Exp x < f64Exp y" by simp
  then have k: "f64Exp y = k - 52" "ratLog2 x < k"
    by (auto simp: f64Exp_def k_def max_def split: if_splits)
  from a k(2) have xk: "x \<le> pow2 k"
    using ratLog2_less_iff [of x k] by simp
  from a have yk: "pow2 k \<le> y"
    using ratLog2_bounds [of y] by (simp add: k_def)
  have g: "of_int (2 ^ 52) * pow2 (k - 52) = pow2 k"
    using pow2_add [of 52 "k - 52"] by (simp add: pow2_def)
  have "f64Mag x \<le> of_int (2 ^ 52) * pow2 (k - 52)"
    by (rule f64Mag_grid_upper) (use lt k(1) xk g in simp_all)
  also have "\<dots> \<le> f64Mag y"
    by (rule f64Mag_grid) (use k(1) yk g in simp_all)
  finally show ?thesis .
qed

text \<open>The values a float can hold: at most 53 significant bits, exponent at least -1074.\<close>

lemma f64Mag_exact:
  assumes "0 < m" and "m \<le> 2 ^ 53" and "- 1074 \<le> e"
  shows "f64Mag (of_int m * pow2 e) = of_int m * pow2 e"
proof -
  define x where "x = of_int m * pow2 e"
  have x0: "0 < x" using assms(1) by (simp add: x_def)
  show ?thesis
  proof (cases "f64Exp x \<le> e")
    case True
    have "of_int m * pow2 e \<le> f64Mag x" "f64Mag x \<le> of_int m * pow2 e"
      by (rule f64Mag_grid [OF True], simp add: x_def) (rule f64Mag_grid_upper [OF True], simp add: x_def)
    then show ?thesis by (simp add: x_def)
  next
    case False
    then have "e < ratLog2 x - 52" using assms(3) by (auto simp: f64Exp_def max_def split: if_splits)
    then have "pow2 (e + 53) \<le> pow2 (ratLog2 x)" by simp
    with ratLog2_bounds [OF x0] have "pow2 (e + 53) \<le> x" by linarith
    moreover have "pow2 (e + 53) = of_int (2 ^ 53) * pow2 e"
      using pow2_add [of 53 e] by (simp add: pow2_def add.commute)
    moreover have "(of_int m :: rat) \<le> of_int (2 ^ 53)"
      using assms(2) by (simp only: of_int_le_iff)
    then have "x \<le> of_int (2 ^ 53) * pow2 e"
      unfolding x_def by (rule mult_right_mono) simp
    ultimately have x: "x = pow2 (e + 53)" by simp
    then have "ratLog2 x = e + 53" by (simp add: ratLog2_eqI pow2_Suc)
    with assms(3) have f: "f64Exp x = e + 1" by (simp add: f64Exp_def)
    have "x = of_int (2 ^ 52) * pow2 (e + 1)"
      using x pow2_add [of 52 "e + 1"] by (simp add: pow2_def add.commute)
    with f f64Mag_grid [of x "e + 1" "2 ^ 52"] f64Mag_grid_upper [of x "e + 1" "2 ^ 52"]
    have "f64Mag x = x" by simp
    then show ?thesis by (simp add: x_def)
  qed
qed

lemma f64Mag_form:
  assumes "0 < x"
  obtains m e where "f64Mag x = of_int m * pow2 e" "0 \<le> m" "m \<le> 2 ^ 53" "- 1074 \<le> e"
proof
  let ?e = "f64Exp x"
  let ?m = "roundHalfEven (x / pow2 ?e)"
  show "f64Mag x = of_int ?m * pow2 ?e"
    by (simp add: f64Mag_def)
  show "- 1074 \<le> ?e"
    by (simp add: f64Exp_def)
  show "0 \<le> ?m"
    using f64Mag_nonneg [OF assms] pow2_pos [of ?e]
    by (simp add: f64Mag_def zero_le_mult_iff del: pow2_pos)
  have "ratLog2 x + 1 \<le> 53 + ?e"
    by (simp add: f64Exp_def)
  then have "pow2 (ratLog2 x + 1) \<le> pow2 (53 + ?e)"
    by simp
  with ratLog2_bounds [OF assms] have "x \<le> pow2 53 * pow2 ?e"
    using pow2_add [of 53 ?e] by simp
  then have "x / pow2 ?e \<le> of_int (2 ^ 53)"
    by (simp add: divide_le_eq pow2_def)
  then show "?m \<le> 2 ^ 53"
    by (metis roundHalfEven_mono roundHalfEven_of_int)
qed

lemma f64Mag_idem: "0 < x \<Longrightarrow> 0 < f64Mag x \<Longrightarrow> f64Mag (f64Mag x) = f64Mag x"
proof -
  assume a: "0 < x" "0 < f64Mag x"
  obtain m e where me: "f64Mag x = of_int m * pow2 e" "0 \<le> m" "m \<le> 2 ^ 53" "- 1074 \<le> e"
    by (rule f64Mag_form [OF a(1)])
  with a(2) have "0 < m" by (simp add: zero_less_mult_iff)
  with me f64Mag_exact show ?thesis by simp
qed

section \<open>Facts about rounding, sums and comparisons\<close>

lemma f64Round_not_NaN [simp]: "f64Round x \<noteq> NaN"
  by (simp add: f64Round_def)

lemma f64Round_0 [simp]: "f64Round 0 = Fin 0"
  by (simp add: f64Round_def)

lemma f64Round_pos: "0 < x \<Longrightarrow>
  f64Round x = (if f64Mag x = 0 \<or> f64Mag x < pow2 1024 then Fin (f64Mag x) else PosInf)"
proof -
  assume x: "0 < x"
  have "ratLog2 0 < 1024" by (simp add: ratLog2_def intLog2.simps)
  with x f64Mag_nonneg [OF x] ratLog2_less_iff [of "f64Mag x" 1024] show ?thesis
    by (cases "f64Mag x = 0") (simp_all add: f64Round_def)
qed

lemma f64Round_minus: "f64Round (- x) = (case f64Round x of Fin y \<Rightarrow> Fin (- y)
    | PosInf \<Rightarrow> NegInf | NegInf \<Rightarrow> PosInf | NaN \<Rightarrow> NaN)"
  by (simp add: f64Round_def)

lemma f64Round_exact:
  assumes "\<bar>m\<bar> \<le> 2 ^ 53" and "- 1074 \<le> e" and "\<bar>of_int m * pow2 e\<bar> < pow2 1024"
  shows "f64Round (of_int m * pow2 e) = Fin (of_int m * pow2 e)"
proof -
  have pos: "f64Round (of_int k * pow2 e) = Fin (of_int k * pow2 e)"
    if "0 < k" "k \<le> 2 ^ 53" "of_int k * pow2 e < pow2 1024" for k
    using that assms(2) by (simp add: f64Round_pos f64Mag_exact zero_less_mult_iff)
  consider "m = 0" | "0 < m" | "m < 0" by linarith
  then show ?thesis
  proof cases
    case 1
    then show ?thesis by simp
  next
    case 2
    with assms show ?thesis by (intro pos) auto
  next
    case 3
    with assms have "f64Round (of_int (- m) * pow2 e) = Fin (of_int (- m) * pow2 e)"
      by (intro pos) auto
    then show ?thesis
      using f64Round_minus [of "of_int (- m) * pow2 e"] by simp
  qed
qed

lemma f64OfInt_exact: "\<bar>n\<bar> \<le> 2 ^ 53 \<Longrightarrow> f64OfInt n = Fin (of_int n)"
proof -
  assume n: "\<bar>n\<bar> \<le> 2 ^ 53"
  have "\<bar>of_int n :: rat\<bar> \<le> of_int (2 ^ 53)"
    using n by (simp only: of_int_abs [symmetric] of_int_le_iff)
  also have "\<dots> = pow2 53" by (simp add: pow2_def)
  also have "\<dots> < pow2 1024" by simp
  finally show ?thesis
    using f64Round_exact [of n 0] n by (simp add: f64OfInt_def)
qed

lemma f64Round_idem: "f64Round x = Fin y \<Longrightarrow> f64Round y = Fin y"
proof -
  have pos: "f64Round v = Fin v" if "0 < u" "f64Round u = Fin v" for u v
  proof -
    from that have v: "v = f64Mag u" "v = 0 \<or> v < pow2 1024"
      by (auto simp: f64Round_pos split: if_splits)
    show ?thesis
    proof (cases "v = 0")
      case True
      then show ?thesis by simp
    next
      case False
      with v f64Mag_nonneg [OF that(1)] have "0 < v" by simp
      with v that(1) show ?thesis by (simp add: f64Round_pos f64Mag_idem)
    qed
  qed
  assume xy: "f64Round x = Fin y"
  consider "x = 0" | "0 < x" | "x < 0" by linarith
  then show ?thesis
  proof cases
    case 1
    with xy show ?thesis by simp
  next
    case 2
    with xy show ?thesis by (rule pos [rotated])
  next
    case 3
    then have "0 < - x" by simp
    moreover have "f64Round (- x) = Fin (- y)"
      using xy by (simp add: f64Round_minus)
    ultimately have "f64Round (- y) = Fin (- y)" by (rule pos)
    then show ?thesis using f64Round_minus [of "- y"] by simp
  qed
qed

lemma f64Round_mono_pos: "0 < x \<Longrightarrow> x \<le> y \<Longrightarrow> f64Round x \<le> f64Round y"
proof -
  assume a: "0 < x" "x \<le> y"
  then have "f64Mag x \<le> f64Mag y" "0 < y" "0 \<le> f64Mag x"
    using f64Mag_mono [OF a] f64Mag_nonneg [OF a(1)] by auto
  with a(1) show ?thesis
    by (auto simp: f64Round_pos less_eq_f64_def)
qed

lemma f64Round_nonneg: "0 \<le> x \<Longrightarrow> Fin 0 \<le> f64Round x"
  using f64Mag_nonneg [of x] by (cases "x = 0") (auto simp: f64Round_pos less_eq_f64_def)

lemma f64Round_mono: "x \<le> y \<Longrightarrow> f64Round x \<le> f64Round y"
proof -
  assume xy: "x \<le> y"
  consider "0 < x" | "x \<le> 0" "0 \<le> y" | "y < 0" by linarith
  then show ?thesis
  proof cases
    case 1
    with xy show ?thesis by (rule f64Round_mono_pos [rotated])
  next
    case 2
    then have "Fin 0 \<le> f64Round (- x)" "Fin 0 \<le> f64Round y"
      by (simp_all add: f64Round_nonneg)
    then show ?thesis
      by (cases "f64Round x"; cases "f64Round y") (auto simp: f64Round_minus less_eq_f64_def)
  next
    case 3
    then have "f64Round (- y) \<le> f64Round (- x)"
      using xy by (intro f64Round_mono_pos) auto
    then show ?thesis
      by (cases "f64Round x"; cases "f64Round y") (auto simp: f64Round_minus less_eq_f64_def)
  qed
qed

lemma f64_less_trans: "(a::f64) < b \<Longrightarrow> b < c \<Longrightarrow> a < c"
  by (cases a; cases b; cases c) auto

lemma f64_less_asym: "(a::f64) < b \<Longrightarrow> \<not> b < a"
  by (cases a; cases b) auto

lemma f64_less_irrefl [simp]: "\<not> (a::f64) < a"
  by (cases a) auto

end
