(* ===== verification/Rpc_Fleet.thy ===== *)
theory Rpc_Fleet
  imports Go_Float64 "HOL-Library.Multiset"
begin

text \<open>
  Model of \<open>src/rpc_fleet.go\<close>: the pool of RPC endpoints with its failure counters, cooldowns,
  burst accounting, scoring and selection. The mutex of an endpoint makes each of its methods
  atomic, so a method is a function from the endpoint to its next value. \<open>time.Now()\<close> is the
  argument \<open>now\<close>; a slice expression that would panic is the result \<open>None\<close>.
\<close>

section \<open>Data\<close>

datatype rpcFailureKind =
  rpcFailureRemote | rpcFailureTimeout | rpcFailureRateLimited
| rpcFailureCapacityExhausted | rpcFailureTransport

record rpcReservation =
  res_at :: instant
  res_units :: "32 word"

record rpcEndpointState =
  failures :: "32 word"
  timeoutFailures :: "32 word"
  rateLimitFailures :: "32 word"
  disabled :: bool
  disabledReason :: string
  cooldownUntil :: instant
  avgLatency :: duration
  lastFailureDecay :: instant
  recentReservations :: "rpcReservation list"
  lastSelectedAt :: instant

record rpcEndpoint =
  ep_id :: int
  ep_name :: string
  ep_url :: string
  ep_state :: rpcEndpointState

record rpcFleet =
  endpoints :: "rpcEndpoint list"
  rotation :: "64 word"

record rpcHandle =
  h_id :: int
  h_name :: string
  h_url :: string

definition rpcBurstWindow :: duration where "rpcBurstWindow = 1200 * millisecond"
definition rpcFailureDecay :: duration where "rpcFailureDecay = 20 * second"
definition rpcBurstCapacity :: "32 word" where "rpcBurstCapacity = 18"
definition rpcSendBurstCost :: "32 word" where "rpcSendBurstCost = 7"

definition newEndpointState :: "instant \<Rightarrow> rpcEndpointState" where
  "newEndpointState now = \<lparr>failures = 0, timeoutFailures = 0, rateLimitFailures = 0,
     disabled = False, disabledReason = [], cooldownUntil = zeroTime, avgLatency = 0,
     lastFailureDecay = now, recentReservations = [], lastSelectedAt = zeroTime\<rparr>"

section \<open>Construction\<close>

definition itoaSmall :: "int \<Rightarrow> string" where
  "itoaSmall value = runeToString (48 + value)"

definition rpcEndpointName :: "int \<Rightarrow> string \<Rightarrow> string" where
  "rpcEndpointName i url = (let lower = ToLower url in
     if Contains lower ''alchemy'' then ''alchemy-bsc-'' @ itoaSmall i
     else if Contains lower ''ankr'' then ''ankr-bsc-'' @ itoaSmall i
     else if Contains lower ''binance'' then ''binance-bsc-'' @ itoaSmall i
     else ''bsc-rpc-'' @ itoaSmall i)"

definition newEndpoint :: "instant \<Rightarrow> nat \<Rightarrow> string \<Rightarrow> rpcEndpoint" where
  "newEndpoint now n url = \<lparr>ep_id = int n, ep_name = rpcEndpointName (int n) url, ep_url = url,
     ep_state = newEndpointState now\<rparr>"

text \<open>The loop of \<open>newRPCFleet\<close>; \<open>eps\<close> is the slice built so far, whose URLs are those seen.\<close>

fun fleetLoop :: "instant \<Rightarrow> rpcEndpoint list \<Rightarrow> string list \<Rightarrow> rpcEndpoint list" where
  "fleetLoop now eps [] = eps"
| "fleetLoop now eps (raw # urls) = (let url = TrimSpace raw in
     if url = [] \<or> url \<in> set (map ep_url eps) then fleetLoop now eps urls
     else fleetLoop now (eps @ [newEndpoint now (length eps) url]) urls)"

definition defaultRPCURL :: string where
  "defaultRPCURL = ''https://bsc-dataseed.binance.org/''"

definition newRPCFleet :: "instant \<Rightarrow> string list \<Rightarrow> rpcFleet" where
  "newRPCFleet now urls = (let eps = fleetLoop now [] urls in
     \<lparr>endpoints =
        (if eps = []
         then [\<lparr>ep_id = 0, ep_name = ''bsc-default-0'', ep_url = defaultRPCURL,
                ep_state = newEndpointState now\<rparr>]
         else eps),
      rotation = 0\<rparr>)"

section \<open>Endpoint bookkeeping\<close>

definition subtractUint32 :: "32 word \<Rightarrow> 32 word \<Rightarrow> 32 word" where
  "subtractUint32 value amount = (if amount > value then 0 else value - amount)"

definition minUint32 :: "32 word \<Rightarrow> 32 word \<Rightarrow> 32 word" where
  "minUint32 value m = (if value > m then m else value)"

definition prune :: "instant \<Rightarrow> rpcEndpointState \<Rightarrow> rpcEndpointState" where
  "prune now s = s\<lparr>recentReservations :=
     filter (\<lambda>item. time_Sub now (res_at item) \<le> rpcBurstWindow) (recentReservations s)\<rparr>"

definition decay :: "instant \<Rightarrow> rpcEndpointState \<Rightarrow> rpcEndpointState" where
  "decay now s =
     (if time_IsZero (lastFailureDecay s) then s\<lparr>lastFailureDecay := now\<rparr>
      else let steps = (word_of_int (go_quot (time_Sub now (lastFailureDecay s)) rpcFailureDecay) :: 32 word) in
        if steps = 0 then s
        else s\<lparr>lastFailureDecay := time_Add (lastFailureDecay s) (wrap64 (uint steps * rpcFailureDecay)),
               failures := subtractUint32 (failures s) (steps * 2),
               timeoutFailures := subtractUint32 (timeoutFailures s) (steps * 2),
               rateLimitFailures := subtractUint32 (rateLimitFailures s) (steps * 4)\<rparr>)"

definition burstLoad :: "instant \<Rightarrow> rpcEndpointState \<Rightarrow> 32 word" where
  "burstLoad now s = foldl (\<lambda>total item.
     if time_Sub now (res_at item) \<le> rpcBurstWindow then total + res_units item else total)
     0 (recentReservations s)"

text \<open>
  \<open>score\<close>: the endpoint after pruning and decay, and its score unless it is disabled or cooling
  down. \<open>scoreValue\<close> is the arithmetic of the last part of the method.
\<close>

definition scoreValue :: "instant \<Rightarrow> rpcEndpointState \<Rightarrow> f64" where
  "scoreValue now s = (let
     burstRatio = f64OfInt (uint (burstLoad now s)) / f64OfInt (uint rpcBurstCapacity);
     latencyMs = (if avgLatency s > 0 then f64OfInt (durationMilliseconds (avgLatency s)) else f64OfInt 120);
     elapsed = time_Sub now (lastSelectedAt s);
     recencyPenalty = (if \<not> time_IsZero (lastSelectedAt s) \<and> elapsed < 180 * millisecond
       then f64OfInt (durationMilliseconds (wrap64 (180 * millisecond - elapsed))) * f64Round (24 / 10)
       else Fin 0);
     burstPenalty = (if Fin 1 \<le> burstRatio
       then f64OfInt 25000 + (burstRatio - Fin 1) * f64OfInt 8000
       else burstRatio * burstRatio * f64OfInt 2200)
     in latencyMs + f64OfInt (uint (failures s)) * f64OfInt 180
        + f64OfInt (uint (rateLimitFailures s)) * f64OfInt 900 + burstPenalty + recencyPenalty)"

definition score :: "instant \<Rightarrow> rpcEndpointState \<Rightarrow> rpcEndpointState \<times> f64 option" where
  "score now s0 = (let s = decay now (prune now s0) in
     if disabled s \<or> \<not> time_IsZero (cooldownUntil s) \<and> cooldownUntil s > now then (s, None)
     else (s, Some (scoreValue now s)))"

definition reserve :: "instant \<Rightarrow> rpcEndpointState \<Rightarrow> rpcEndpointState" where
  "reserve now s0 = (let
     s = prune now s0;
     s' = s\<lparr>recentReservations := recentReservations s @ [\<lparr>res_at = now, res_units = rpcSendBurstCost\<rparr>],
            lastSelectedAt := now\<rparr>
     in if burstLoad now s' \<ge> rpcBurstCapacity * 2
        then s'\<lparr>cooldownUntil := time_Add now (900 * millisecond)\<rparr> else s')"

section \<open>Selection\<close>

definition setState :: "rpcEndpointState \<Rightarrow> rpcEndpoint \<Rightarrow> rpcEndpoint" where
  "setState s ep = ep\<lparr>ep_state := s\<rparr>"

text \<open>
  The two scoring loops of \<open>sendCandidates\<close>. A candidate is the position of its endpoint in the
  fleet (the code holds a pointer) and its score; \<open>i\<close> is the position of the head of the list.
\<close>

type_synonym scored = "nat \<times> f64"

fun scoreLoop :: "instant \<Rightarrow> nat \<Rightarrow> rpcEndpoint list \<Rightarrow> rpcEndpoint list \<times> scored list" where
  "scoreLoop now i [] = ([], [])"
| "scoreLoop now i (ep # eps) = (let
     (s, r) = score now (ep_state ep);
     (eps', cs) = scoreLoop now (Suc i) eps
     in (setState s ep # eps', (case r of Some v \<Rightarrow> (i, v) # cs | None \<Rightarrow> cs)))"

definition clearCooldown :: "rpcEndpoint \<Rightarrow> rpcEndpoint" where
  "clearCooldown ep = setState ((ep_state ep)\<lparr>cooldownUntil := zeroTime\<rparr>) ep"

definition swap :: "'a list \<Rightarrow> nat \<Rightarrow> nat \<Rightarrow> 'a list" where
  "swap xs i j = xs[i := xs ! j, j := xs ! i]"

text \<open>The exchange sort of the candidates: \<open>sortInner\<close> is the loop over \<open>j\<close>, \<open>sortOuter\<close> over \<open>i\<close>.\<close>

function sortInner :: "scored list \<Rightarrow> nat \<Rightarrow> nat \<Rightarrow> scored list" where
  "sortInner xs i j =
     (if j < length xs
      then sortInner (if snd (xs ! j) < snd (xs ! i) then swap xs i j else xs) i (Suc j)
      else xs)"
  by pat_completeness auto
termination
  by (relation "measure (\<lambda>(xs, i, j). length xs - j)") (auto simp: swap_def)

declare sortInner.simps [simp del]

lemma length_sortInner [simp]: "length (sortInner xs i j) = length xs"
  by (induction xs i j rule: sortInner.induct) (subst sortInner.simps, simp add: swap_def)

function sortOuter :: "scored list \<Rightarrow> nat \<Rightarrow> scored list" where
  "sortOuter xs i = (if i < length xs then sortOuter (sortInner xs i (Suc i)) (Suc i) else xs)"
  by pat_completeness auto
termination
  by (relation "measure (\<lambda>(xs, i). length xs - i)") auto

declare sortOuter.simps [simp del]

definition rotateTop :: "64 word \<Rightarrow> scored list \<Rightarrow> scored list option \<times> 64 word" where
  "rotateTop rot cs = (let topN = (if length cs > 2 then 2 else length cs) in
     if topN > 1 then
       (let shift = go_rem (sint rot) (int topN) in
        (if shift < 0 then None
         else Some (drop (nat shift) (take topN cs) @ take (nat shift) cs),
         rot + 1))
     else (Some cs, rot))"

definition handleOf :: "rpcEndpoint \<Rightarrow> rpcHandle" where
  "handleOf ep = \<lparr>h_id = ep_id ep, h_name = ep_name ep, h_url = ep_url ep\<rparr>"

fun reserveLoop :: "instant \<Rightarrow> rpcEndpoint list \<Rightarrow> scored list \<Rightarrow> rpcEndpoint list \<times> rpcHandle list" where
  "reserveLoop now eps [] = (eps, [])"
| "reserveLoop now eps (c # cs) = (let
     ep = eps ! fst c;
     (eps', hs) = reserveLoop now (eps[fst c := setState (reserve now (ep_state ep)) ep]) cs
     in (eps', handleOf ep # hs))"

definition scoreFleet :: "instant \<Rightarrow> rpcEndpoint list \<Rightarrow> rpcEndpoint list \<times> scored list" where
  "scoreFleet now eps0 = (let (eps, cs) = scoreLoop now 0 eps0 in
     if cs = [] then scoreLoop now 0 (map clearCooldown eps) else (eps, cs))"

definition sendCandidates :: "instant \<Rightarrow> int \<Rightarrow> rpcFleet \<Rightarrow> rpcHandle list option \<times> rpcFleet" where
  "sendCandidates now limit f = (let
     (eps, cs) = scoreFleet now (endpoints f);
     (rotated, rot) = rotateTop (rotation f) (sortOuter cs 0)
     in case rotated of
       None \<Rightarrow> (None, \<lparr>endpoints = eps, rotation = rot\<rparr>)
     | Some ds \<Rightarrow> (let
         n = (if limit \<le> 0 \<or> limit > int (length ds) then int (length ds) else limit);
         (eps', hs) = reserveLoop now eps (take (nat n) ds)
         in (Some hs, \<lparr>endpoints = eps', rotation = rot\<rparr>)))"

section \<open>Outcome of a call\<close>

definition classifyRPCFailure :: "error option \<Rightarrow> rpcFailureKind" where
  "classifyRPCFailure err = (case err of
     None \<Rightarrow> rpcFailureRemote
   | Some e \<Rightarrow> (let lower = ToLower (errorText e) in
       if list_ex (Contains lower) [''402'', ''payment required'', ''out of cu'', ''out of compute'',
            ''monthly capacity limit exceeded'', ''capacity limit exceeded'', ''quota exceeded'', ''billing'']
       then rpcFailureCapacityExhausted
       else if list_ex (Contains lower) [''429'', ''rate limit'', ''too many requests'', ''throughput limit'']
       then rpcFailureRateLimited
       else if list_ex (Contains lower) [''timeout'', ''timed out'', ''deadline exceeded'']
       then rpcFailureTimeout
       else if list_ex (Contains lower) [''connection'', ''socket'', ''dns'', ''econnreset'', ''broken pipe'', ''eof'']
       then rpcFailureTransport
       else rpcFailureRemote))"

text \<open>\<open>endpoint(id)\<close>: the position of the first endpoint with that id.\<close>

fun endpointPos :: "int \<Rightarrow> rpcEndpoint list \<Rightarrow> nat option" where
  "endpointPos i [] = None"
| "endpointPos i (ep # eps) = (if ep_id ep = i then Some 0 else map_option Suc (endpointPos i eps))"

definition onEndpoint :: "(rpcEndpointState \<Rightarrow> rpcEndpointState) \<Rightarrow> int \<Rightarrow> rpcFleet \<Rightarrow> rpcFleet" where
  "onEndpoint g i f = (case endpointPos i (endpoints f) of
     None \<Rightarrow> f
   | Some n \<Rightarrow> f\<lparr>endpoints := (endpoints f)[n := setState (g (ep_state (endpoints f ! n))) (endpoints f ! n)]\<rparr>)"

definition decUint32 :: "32 word \<Rightarrow> 32 word" where
  "decUint32 n = (if n > 0 then n - 1 else n)"

definition successState :: "instant \<Rightarrow> duration \<Rightarrow> rpcEndpointState \<Rightarrow> rpcEndpointState" where
  "successState now latency s0 = (let
     s = decay now (prune now s0);
     s1 = s\<lparr>avgLatency := (if avgLatency s > 0
            then f64ToInt (f64OfInt (avgLatency s) * f64Round (72 / 100) + f64OfInt latency * f64Round (28 / 100))
            else latency),
          failures := decUint32 (failures s),
          timeoutFailures := decUint32 (timeoutFailures s),
          rateLimitFailures := decUint32 (rateLimitFailures s)\<rparr>
     in if \<not> time_IsZero (cooldownUntil s1) \<and> cooldownUntil s1 < now
        then s1\<lparr>cooldownUntil := zeroTime\<rparr> else s1)"

definition recordSuccess :: "instant \<Rightarrow> int \<Rightarrow> duration \<Rightarrow> rpcFleet \<Rightarrow> rpcFleet" where
  "recordSuccess now i latency f = onEndpoint (successState now latency) i f"

text \<open>
  \<open>failureCooldown\<close> is the \<open>switch\<close> of \<open>recordFailure\<close>: the endpoint with the counters of the
  failure kind updated, and the cooldown before it is capped at 45 seconds.
\<close>

definition failureCooldown :: "rpcFailureKind \<Rightarrow> rpcEndpointState \<Rightarrow> rpcEndpointState \<times> duration" where
  "failureCooldown kind s = (case kind of
     rpcFailureRateLimited \<Rightarrow> (let n = rateLimitFailures s + 1 in
       (s\<lparr>rateLimitFailures := n\<rparr>, 2 * 2 ^ unat (minUint32 n 4) * second))
   | rpcFailureCapacityExhausted \<Rightarrow>
       (s\<lparr>rateLimitFailures := rateLimitFailures s + 10, disabled := True,
          disabledReason := ''provider capacity exhausted''\<rparr>, 24 * hour)
   | rpcFailureTimeout \<Rightarrow> (let n = timeoutFailures s + 1 in
       (s\<lparr>timeoutFailures := n\<rparr>, 400 * 2 ^ unat (minUint32 n 5) * millisecond))
   | rpcFailureTransport \<Rightarrow> (s, 700 * millisecond)
   | rpcFailureRemote \<Rightarrow> (s, 500 * millisecond))"

definition failureState :: "instant \<Rightarrow> rpcFailureKind \<Rightarrow> rpcEndpointState \<Rightarrow> rpcEndpointState" where
  "failureState now kind s0 = (let
     s = decay now (prune now s0);
     (s1, cooldown) = failureCooldown kind (s\<lparr>failures := failures s + 1\<rparr>);
     until = time_Add now (if cooldown > 45 * second then 45 * second else cooldown)
     in if cooldownUntil s1 < until then s1\<lparr>cooldownUntil := until\<rparr> else s1)"

definition recordFailure :: "instant \<Rightarrow> int \<Rightarrow> rpcFailureKind \<Rightarrow> rpcFleet \<Rightarrow> rpcFleet" where
  "recordFailure now i kind f = onEndpoint (failureState now kind) i f"

section \<open>The exchange sort\<close>

lemma length_swap [simp]: "length (swap xs i j) = length xs"
  by (simp add: swap_def)

lemma mset_swap_pos [simp]: "i < length xs \<Longrightarrow> j < length xs \<Longrightarrow> mset (swap xs i j) = mset xs"
  by (simp add: swap_def Multiset.mset_swap)

lemma take_swap [simp]: "i \<le> j \<Longrightarrow> take i (swap xs i j) = take i xs"
  by (simp add: swap_def)

lemma nth_swap: "j < length xs \<Longrightarrow> i < j \<Longrightarrow> k < length xs \<Longrightarrow>
  swap xs i j ! k = (if k = i then xs ! j else if k = j then xs ! i else xs ! k)"
  by (simp add: swap_def nth_list_update)

definition minAt :: "scored list \<Rightarrow> nat \<Rightarrow> nat \<Rightarrow> bool" where
  "minAt xs i j = (\<forall>k. i < k \<and> k < j \<and> k < length xs \<longrightarrow> \<not> snd (xs ! k) < snd (xs ! i))"

lemma minAt_step:
  assumes "i < j" and "j < length xs" and "minAt xs i j"
  shows "minAt (if snd (xs ! j) < snd (xs ! i) then swap xs i j else xs) i (Suc j)"
proof (cases "snd (xs ! j) < snd (xs ! i)")
  case True
  with assms show ?thesis
    unfolding minAt_def by (auto simp: nth_swap less_Suc_eq dest: f64_less_trans f64_less_asym)
next
  case False
  with assms show ?thesis
    unfolding minAt_def by (auto simp: less_Suc_eq)
qed

lemma sortInner_perm:
  "i < j \<Longrightarrow> mset (sortInner xs i j) = mset xs \<and> take i (sortInner xs i j) = take i xs"
proof (induction xs i j rule: sortInner.induct)
  case (1 xs i j)
  then show ?case
    by (cases "j < length xs") (simp_all add: sortInner.simps [of xs i j])
qed

lemma sortInner_min: "i < j \<Longrightarrow> minAt xs i j \<Longrightarrow> minAt (sortInner xs i j) i (length xs)"
proof (induction xs i j rule: sortInner.induct)
  case (1 xs i j)
  show ?case
  proof (cases "j < length xs")
    case True
    from minAt_step [OF 1(2) True 1(3)] 1(1) [OF True] 1(2) True show ?thesis
      by (simp add: sortInner.simps [of xs i j] split: if_splits)
  next
    case False
    with 1(3) show ?thesis
      by (simp add: sortInner.simps [of xs i j] minAt_def)
  qed
qed

lemma in_set_drop: "x \<in> set (drop i xs) \<longleftrightarrow> (\<exists>k. i \<le> k \<and> k < length xs \<and> xs ! k = x)"
proof
  assume "x \<in> set (drop i xs)"
  then obtain j where "j < length xs - i" "drop i xs ! j = x"
    by (auto simp: in_set_conv_nth)
  then have "i \<le> i + j \<and> i + j < length xs \<and> xs ! (i + j) = x"
    by simp
  then show "\<exists>k. i \<le> k \<and> k < length xs \<and> xs ! k = x" by blast
next
  assume "\<exists>k. i \<le> k \<and> k < length xs \<and> xs ! k = x"
  then obtain k where k: "i \<le> k" "k < length xs" "xs ! k = x" by blast
  then have "k - i < length (drop i xs)" "drop i xs ! (k - i) = x" by simp_all
  then show "x \<in> set (drop i xs)" by (metis nth_mem)
qed

lemma mset_drop_eq: "mset xs = mset ys \<Longrightarrow> take i xs = take i ys \<Longrightarrow> mset (drop i xs) = mset (drop i ys)"
  by (metis add_left_cancel append_take_drop_id mset_append)

definition sortedUpto :: "scored list \<Rightarrow> nat \<Rightarrow> bool" where
  "sortedUpto xs i = (\<forall>p k. p < i \<and> p < k \<and> k < length xs \<longrightarrow> \<not> snd (xs ! k) < snd (xs ! p))"

lemma sortedUpto_step:
  assumes "sortedUpto xs i" and "i < length xs"
  shows "sortedUpto (sortInner xs i (Suc i)) (Suc i)"
  unfolding sortedUpto_def
proof (intro allI impI, elim conjE)
  fix p k
  define ys where "ys = sortInner xs i (Suc i)"
  assume a: "p < Suc i" "p < k" "k < length (sortInner xs i (Suc i))"
  have perm: "mset ys = mset xs" "take i ys = take i xs"
    using sortInner_perm [of i "Suc i" xs] by (simp_all add: ys_def)
  have fixed: "ys ! q = xs ! q" if "q < i" for q
    using perm(2) that by (metis nth_take)
  show "\<not> snd (sortInner xs i (Suc i) ! k) < snd (sortInner xs i (Suc i) ! p)"
  proof (cases "p = i")
    case True
    have "minAt ys i (length xs)"
      unfolding ys_def by (rule sortInner_min) (auto simp: minAt_def)
    with True a show ?thesis by (simp add: minAt_def ys_def)
  next
    case False
    with a have p: "p < i" by simp
    show ?thesis
    proof (cases "k < i")
      case True
      with p a assms show ?thesis
        by (simp add: fixed ys_def [symmetric] sortedUpto_def)
    next
      case False
      with a have "ys ! k \<in> set (drop i ys)"
        unfolding in_set_drop ys_def by (intro exI [of _ k]) simp
      also have "set (drop i ys) = set (drop i xs)"
        using mset_drop_eq [OF perm] by (rule mset_eq_setD)
      finally obtain k' where "i \<le> k'" "k' < length xs" "xs ! k' = ys ! k"
        unfolding in_set_drop by blast
      then have "p < k'" "k' < length xs" "ys ! k = xs ! k'"
        using p by simp_all
      with p assms show ?thesis
        by (simp add: fixed ys_def [symmetric] sortedUpto_def)
    qed
  qed
qed

lemma sortOuter_perm: "mset (sortOuter xs i) = mset xs"
proof (induction xs i rule: sortOuter.induct)
  case (1 xs i)
  then show ?case
    by (cases "i < length xs") (simp_all add: sortOuter.simps [of xs i] sortInner_perm)
qed

lemma sortOuter_sorted: "sortedUpto xs i \<Longrightarrow> sortedUpto (sortOuter xs i) (length xs)"
proof (induction xs i rule: sortOuter.induct)
  case (1 xs i)
  show ?case
  proof (cases "i < length xs")
    case True
    with 1(1) [OF True] sortedUpto_step [OF 1(2) True] show ?thesis
      by (simp add: sortOuter.simps [of xs i])
  next
    case False
    with 1(2) show ?thesis
      by (simp add: sortOuter.simps [of xs i] sortedUpto_def)
  qed
qed

lemma length_sortOuter [simp]: "length (sortOuter xs i) = length xs"
  by (metis sortOuter_perm size_mset)

lemma set_sortOuter [simp]: "set (sortOuter xs i) = set xs"
  by (metis sortOuter_perm set_mset_mset)

lemma sortOuter_sorted_wrt: "sorted_wrt (\<lambda>a b. \<not> snd b < snd a) (sortOuter xs 0)"
  using sortOuter_sorted [of xs 0] by (simp add: sortedUpto_def sorted_wrt_iff_nth_less)

section \<open>What the bookkeeping leaves unchanged\<close>

definition ep_key :: "rpcEndpoint \<Rightarrow> int \<times> string \<times> string" where
  "ep_key ep = (ep_id ep, ep_name ep, ep_url ep)"

definition available :: "instant \<Rightarrow> rpcEndpointState \<Rightarrow> bool" where
  "available now s = (\<not> disabled s \<and> (time_IsZero (cooldownUntil s) \<or> cooldownUntil s \<le> now))"

lemma ep_key_setState [simp]: "ep_key (setState s ep) = ep_key ep"
  by (simp add: ep_key_def setState_def)

lemma ep_state_setState [simp]: "ep_state (setState s ep) = s"
  by (simp add: setState_def)

lemma handleOf_key: "ep_key a = ep_key b \<Longrightarrow> handleOf a = handleOf b"
  by (simp add: ep_key_def handleOf_def)

lemma prune_frame [simp]: "disabled (prune now s) = disabled s" "cooldownUntil (prune now s) = cooldownUntil s"
  by (simp_all add: prune_def)

lemma decay_frame [simp]: "disabled (decay now s) = disabled s" "cooldownUntil (decay now s) = cooldownUntil s"
  by (simp_all add: decay_def Let_def)

lemma reserve_disabled [simp]: "disabled (reserve now s) = disabled s"
  by (simp add: reserve_def Let_def prune_def)

lemma successState_disabled [simp]: "disabled (successState now l s) = disabled s"
  by (simp add: successState_def Let_def)

lemma failureState_disabled: "disabled s \<Longrightarrow> disabled (failureState now k s)"
  by (simp add: failureState_def failureCooldown_def Let_def split: rpcFailureKind.splits)

lemma score_available: "snd (score now s) \<noteq> None \<longleftrightarrow> available now s"
  by (auto simp: score_def Let_def available_def)

lemma score_frame [simp]: "disabled (fst (score now s)) = disabled s"
  by (simp add: score_def Let_def)

lemma score_Some: "snd (score now s) = Some v \<Longrightarrow> \<not> disabled s"
  by (auto simp: score_def Let_def split: if_splits)

definition ep_frame :: "rpcEndpoint list \<Rightarrow> rpcEndpoint list \<Rightarrow> bool" where
  "ep_frame eps eps' = list_all2 (\<lambda>a b. ep_key a = ep_key b \<and>
     (disabled (ep_state a) \<longrightarrow> disabled (ep_state b))) eps eps'"

lemma ep_frame_refl [simp]: "ep_frame eps eps"
  by (simp add: ep_frame_def list_all2_refl)

lemma ep_frame_trans: "ep_frame a b \<Longrightarrow> ep_frame b c \<Longrightarrow> ep_frame a c"
  by (auto simp: ep_frame_def list_all2_conv_all_nth)

lemma ep_frame_length: "ep_frame a b \<Longrightarrow> length b = length a"
  by (simp add: ep_frame_def list_all2_lengthD)

lemma ep_frame_nth: "ep_frame a b \<Longrightarrow> n < length a \<Longrightarrow>
  ep_key (b ! n) = ep_key (a ! n) \<and> (disabled (ep_state (a ! n)) \<longrightarrow> disabled (ep_state (b ! n)))"
  by (simp add: ep_frame_def list_all2_conv_all_nth)

lemma ep_frame_update:
  assumes "n < length eps \<Longrightarrow> disabled (ep_state (eps ! n)) \<Longrightarrow> disabled s"
  shows "ep_frame eps (eps[n := setState s (eps ! n)])"
  using assms
  by (cases "n < length eps") (auto simp: ep_frame_def list_all2_conv_all_nth nth_list_update list_update_beyond)

lemma scoreLoop_frame: "ep_frame eps (fst (scoreLoop now i eps))"
proof (induction eps arbitrary: i)
  case Nil
  show ?case by (simp add: ep_frame_def)
next
  case (Cons ep eps)
  from Cons.IH [of "Suc i"] show ?case
    by (auto simp: ep_frame_def Let_def split: prod.splits) (metis fst_conv score_frame)
qed

lemma scoreLoop_disabled:
  "map (\<lambda>e. disabled (ep_state e)) (fst (scoreLoop now i eps)) = map (\<lambda>e. disabled (ep_state e)) eps"
proof (induction eps arbitrary: i)
  case Nil
  show ?case by simp
next
  case (Cons ep eps)
  from Cons.IH [of "Suc i"] show ?case
    by (auto simp: Let_def split: prod.splits) (metis fst_conv score_frame)+
qed

lemma scoreLoop_candidates:
  "set (snd (scoreLoop now i eps)) =
     {(i + n, v) | n v. n < length eps \<and> snd (score now (ep_state (eps ! n))) = Some v}"
proof (induction eps arbitrary: i)
  case Nil
  show ?case by simp
next
  case (Cons ep eps)
  have split: "{(i + n, v) | n v. n < length (ep # eps) \<and> snd (score now (ep_state ((ep # eps) ! n))) = Some v}
    = {(i, v) | v. snd (score now (ep_state ep)) = Some v} \<union>
      {(Suc i + n, v) | n v. n < length eps \<and> snd (score now (ep_state (eps ! n))) = Some v}"
    (is "?L = ?R")
  proof
    show "?L \<subseteq> ?R"
    proof
      fix x assume "x \<in> ?L"
      then obtain n v where x: "x = (i + n, v)" "n < Suc (length eps)"
        "snd (score now (ep_state ((ep # eps) ! n))) = Some v" by auto
      then show "x \<in> ?R" by (cases n) auto
    qed
    show "?R \<subseteq> ?L" by force
  qed
  show ?case
    unfolding split using Cons.IH [of "Suc i"]
    by (auto simp: Let_def split: prod.splits option.splits)
qed

lemma scoreLoop_distinct: "distinct (map fst (snd (scoreLoop now i eps)))"
proof (induction eps arbitrary: i)
  case Nil
  show ?case by simp
next
  case (Cons ep eps)
  have "i \<notin> fst ` set (snd (scoreLoop now (Suc i) eps))"
    by (auto simp: scoreLoop_candidates)
  with Cons.IH [of "Suc i"] show ?case
    by (auto simp: Let_def split: prod.splits option.splits)
qed

lemma clearCooldown_frame: "ep_frame eps (map clearCooldown eps)"
  by (simp add: ep_frame_def list_all2_conv_all_nth clearCooldown_def)

lemma scoreFleet_frame: "ep_frame eps (fst (scoreFleet now eps))"
proof -
  obtain e1 c1 where s1: "scoreLoop now 0 eps = (e1, c1)" by fastforce
  then have "ep_frame eps e1" using scoreLoop_frame [of eps now 0] by simp
  moreover have "ep_frame e1 (fst (scoreLoop now 0 (map clearCooldown e1)))"
    by (rule ep_frame_trans [OF clearCooldown_frame scoreLoop_frame])
  ultimately show ?thesis
    by (auto simp: scoreFleet_def s1 intro: ep_frame_trans)
qed

lemma scoreFleet_candidate:
  assumes "(n, v) \<in> set (snd (scoreFleet now eps))"
  shows "n < length eps \<and> \<not> disabled (ep_state (eps ! n))"
proof -
  obtain e1 c1 where s1: "scoreLoop now 0 eps = (e1, c1)" by fastforce
  have fr: "ep_frame eps (map clearCooldown e1)"
    using ep_frame_trans [OF scoreLoop_frame [of eps now 0] clearCooldown_frame] s1 by simp
  have sel: "n < length es \<and> \<not> disabled (ep_state (es ! n))"
    if "(n, v) \<in> set (snd (scoreLoop now 0 es))" for es
    using that score_Some by (auto simp: scoreLoop_candidates)
  show ?thesis
  proof (cases "c1 = []")
    case True
    with assms s1 have "n < length (map clearCooldown e1) \<and> \<not> disabled (ep_state (map clearCooldown e1 ! n))"
      by (intro sel) (simp add: scoreFleet_def)
    with fr show ?thesis
      using ep_frame_nth [OF fr, of n] ep_frame_length [OF fr] by auto
  next
    case False
    with assms s1 show ?thesis
      by (intro sel) (simp add: scoreFleet_def)
  qed
qed

lemma scoreFleet_distinct: "distinct (map fst (snd (scoreFleet now eps)))"
  by (auto simp: scoreFleet_def Let_def scoreLoop_distinct split: prod.splits)
     (metis scoreLoop_distinct snd_conv)

lemma scoreFleet_live:
  assumes "ep \<in> set eps" and "\<not> disabled (ep_state ep)"
  shows "snd (scoreFleet now eps) \<noteq> []"
proof -
  obtain e1 c1 where s1: "scoreLoop now 0 eps = (e1, c1)" by fastforce
  show ?thesis
  proof (cases "c1 = []")
    case False
    with s1 show ?thesis by (simp add: scoreFleet_def)
  next
    case True
    from assms obtain n where n: "n < length eps" "eps ! n = ep"
      by (auto simp: in_set_conv_nth)
    have len: "length e1 = length eps"
      using ep_frame_length [OF scoreLoop_frame [of eps now 0]] s1 by simp
    let ?e = "map clearCooldown e1"
    have "disabled (ep_state (e1 ! n)) = disabled (ep_state (eps ! n))"
      using scoreLoop_disabled [of now 0 eps] s1 n(1) len by (metis (mono_tags, lifting) fst_conv nth_map)
    with n assms(2) len have "available now (ep_state (?e ! n))"
      by (simp add: available_def clearCooldown_def time_IsZero_def)
    then obtain v where "snd (score now (ep_state (?e ! n))) = Some v"
      using score_available by blast
    with n(1) len have "(0 + n, v) \<in> set (snd (scoreLoop now 0 ?e))"
      unfolding scoreLoop_candidates by auto
    with True s1 show ?thesis
      by (auto simp: scoreFleet_def)
  qed
qed


section \<open>Selection\<close>

lemma go_rem_2_cases: "0 \<le> x \<Longrightarrow> go_rem x 2 = x mod 2"
  by (auto simp: go_rem_def go_quot_def sgn_if minus_mod_eq_mult_div [symmetric])

lemma rotateTop_Some:
  assumes "rotateTop rot cs = (Some ds, rot')"
  shows "set ds \<subseteq> set cs \<and> length ds = min 2 (length cs) \<and> (distinct (map fst cs) \<longrightarrow> distinct (map fst ds))"
proof (cases "length cs > 1")
  case False
  with assms show ?thesis by (auto simp: rotateTop_def Let_def split: if_splits)
next
  case True
  then obtain a b r where cs: "cs = a # b # r"
    by (cases cs; cases "tl cs") auto
  let ?s = "go_rem (sint rot) 2"
  from assms True have s: "\<not> ?s < 0" "ds = drop (nat ?s) [a, b] @ take (nat ?s) cs"
    by (auto simp: rotateTop_def Let_def cs numeral_2_eq_2 split: if_splits)
  have "?s < 2"
    by (auto simp: go_rem_def go_quot_def sgn_if)
  with s(1) have "nat ?s = 0 \<or> nat ?s = 1" by linarith
  with s(2) cs show ?thesis by (auto simp: min_def)
qed

lemma rotateTop_total: "0 \<le> sint rot \<Longrightarrow> \<exists>ds rot'. rotateTop rot cs = (Some ds, rot')"
proof -
  assume r: "0 \<le> sint rot"
  have "(if length cs > 2 then 2 else length cs) = 2" if "length cs > 1"
    using that by simp
  with r show ?thesis
    by (cases "length cs > 1") (simp_all add: rotateTop_def Let_def go_rem_2_cases not_less)
qed

lemma reserveLoop_frame:
  "ep_frame eps (fst (reserveLoop now eps cs))"
proof (induction cs arbitrary: eps)
  case Nil
  show ?case by simp
next
  case (Cons c cs)
  have "ep_frame eps (eps[fst c := setState (reserve now (ep_state (eps ! fst c))) (eps ! fst c)])"
    by (rule ep_frame_update) simp
  with Cons.IH show ?case
    by (auto simp: Let_def split_beta intro: ep_frame_trans)
qed

lemma reserveLoop_handles:
  "\<forall>c \<in> set cs. fst c < length eps \<Longrightarrow> snd (reserveLoop now eps cs) = map (\<lambda>c. handleOf (eps ! fst c)) cs"
proof (induction cs arbitrary: eps)
  case Nil
  show ?case by simp
next
  case (Cons c cs)
  let ?eps = "eps[fst c := setState (reserve now (ep_state (eps ! fst c))) (eps ! fst c)]"
  have "ep_frame eps ?eps"
    by (rule ep_frame_update) simp
  then have "handleOf (?eps ! n) = handleOf (eps ! n)" if "n < length eps" for n
    using that ep_frame_nth handleOf_key by blast
  moreover have "snd (reserveLoop now ?eps cs) = map (\<lambda>c. handleOf (?eps ! fst c)) cs"
    by (rule Cons.IH) (use Cons.prems in simp)
  ultimately show ?case
    using Cons.prems by (simp add: Let_def split_beta)
qed

lemma sendCandidates_frame: "ep_frame (endpoints f) (endpoints (snd (sendCandidates now limit f)))"
proof -
  obtain eps cs where sf: "scoreFleet now (endpoints f) = (eps, cs)" by fastforce
  then have "ep_frame (endpoints f) eps" using scoreFleet_frame [of "endpoints f" now] by simp
  then show ?thesis
    using ep_frame_trans [OF _ reserveLoop_frame]
    by (simp add: sendCandidates_def sf Let_def split_beta split: option.splits)
qed

lemma sendCandidates_handles:
  assumes "sendCandidates now limit f = (Some hs, f')"
  obtains ds :: "scored list" where "hs = map (\<lambda>c. handleOf (endpoints f ! fst c)) ds" "length ds \<le> 2"
    "distinct (map fst ds)"
    "\<forall>c \<in> set ds. c \<in> set (snd (scoreFleet now (endpoints f))) \<and>
      fst c < length (endpoints f) \<and> \<not> disabled (ep_state (endpoints f ! fst c))"
    "0 < limit \<longrightarrow> int (length ds) \<le> limit"
    "length ds = 0 \<longrightarrow> snd (scoreFleet now (endpoints f)) = []"
proof -
  obtain eps cs where sf: "scoreFleet now (endpoints f) = (eps, cs)" by fastforce
  have fr: "ep_frame (endpoints f) eps" using scoreFleet_frame [of "endpoints f" now] sf by simp
  obtain r rot where rt: "rotateTop (rotation f) (sortOuter cs 0) = (r, rot)" by fastforce
  with assms sf obtain es where es: "r = Some es"
    by (cases r) (auto simp: sendCandidates_def)
  define n where "n = (if limit \<le> 0 \<or> limit > int (length es) then int (length es) else limit)"
  define ds where "ds = take (nat n) es"
  have hs: "hs = snd (reserveLoop now eps ds)"
    using assms by (simp add: sendCandidates_def sf rt es Let_def split_beta n_def ds_def)
  have dcs: "distinct (map fst (sortOuter cs 0))"
  proof -
    have "mset (map fst (sortOuter cs 0)) = mset (map fst cs)"
      by (simp add: sortOuter_perm)
    moreover have "distinct (map fst cs)"
      using scoreFleet_distinct [of now "endpoints f"] sf by simp
    ultimately show ?thesis by (metis mset_eq_imp_distinct_iff)
  qed
  note R = rotateTop_Some [OF rt [unfolded es]]
  have cand: "\<forall>c \<in> set ds. c \<in> set (snd (scoreFleet now (endpoints f))) \<and>
      fst c < length (endpoints f) \<and> \<not> disabled (ep_state (endpoints f ! fst c))"
  proof
    fix c assume "c \<in> set ds"
    then have "c \<in> set cs" using R by (auto simp: ds_def dest: in_set_takeD)
    then show "c \<in> set (snd (scoreFleet now (endpoints f))) \<and>
        fst c < length (endpoints f) \<and> \<not> disabled (ep_state (endpoints f ! fst c))"
      using scoreFleet_candidate [of "fst c" "snd c" now "endpoints f"] sf by simp
  qed
  have "hs = map (\<lambda>c. handleOf (eps ! fst c)) ds"
    unfolding hs by (rule reserveLoop_handles) (use cand ep_frame_length [OF fr] in simp)
  also have "\<dots> = map (\<lambda>c. handleOf (endpoints f ! fst c)) ds"
  proof (rule map_cong [OF refl])
    fix c assume "c \<in> set ds"
    with cand have "fst c < length (endpoints f)" by blast
    then show "handleOf (eps ! fst c) = handleOf (endpoints f ! fst c)"
      using ep_frame_nth [OF fr] by (intro handleOf_key) blast
  qed
  finally have hs': "hs = map (\<lambda>c. handleOf (endpoints f ! fst c)) ds" .
  have len: "length ds \<le> 2" and dist: "distinct (map fst ds)"
    using R dcs by (simp_all add: ds_def take_map [symmetric])
  have lim: "int (length ds) \<le> limit" if "0 < limit"
    using that by (auto simp: ds_def n_def min_def)
  have none: "snd (scoreFleet now (endpoints f)) = []" if "length ds = 0"
  proof -
    from that have "length es = 0" by (auto simp: ds_def n_def split: if_splits)
    with R have "length (sortOuter cs 0) = 0" by (simp add: min_def split: if_splits)
    with sf show ?thesis by simp
  qed
  show thesis
    by (rule that [OF hs' len dist cand]) (use lim none in blast)+
qed

lemma sendCandidates_two:
  assumes "sendCandidates now limit f = (Some hs, f')"
  shows "length hs \<le> 2"
  using assms by (rule sendCandidates_handles) simp

section \<open>Cooldowns\<close>

lemma failureCooldown_bounds:
  "400 * millisecond \<le> snd (failureCooldown k s)"
proof -
  have "(1::int) \<le> 5 * 2 ^ n" for n :: nat
    by (induction n) simp_all
  from this [of "unat (minUint32 (rateLimitFailures s + 1) 4)"] show ?thesis
    by (cases k) (simp_all add: failureCooldown_def Let_def second_def millisecond_def hour_def)
qed

lemma failureCooldown_frame [simp]:
  "cooldownUntil (fst (failureCooldown k s)) = cooldownUntil s"
  by (simp add: failureCooldown_def Let_def split: rpcFailureKind.splits)

lemma failureState_cooldown:
  "now + 400 * millisecond \<le> cooldownUntil (failureState now k s)"
  "cooldownUntil (failureState now k s) \<le> max (cooldownUntil s) (now + 45 * second)"
proof -
  obtain s1 c where fc: "failureCooldown k ((decay now (prune now s))\<lparr>failures := failures (decay now (prune now s)) + 1\<rparr>) = (s1, c)"
    by fastforce
  have c: "400 * millisecond \<le> c" "cooldownUntil s1 = cooldownUntil s"
    using failureCooldown_bounds [of k] failureCooldown_frame [of k] fc
    by (metis snd_conv, metis (no_types, lifting) fst_conv decay_frame(2) prune_frame(2) rpcEndpointState.select_convs(6) rpcEndpointState.surjective rpcEndpointState.update_convs(1))
  then show "now + 400 * millisecond \<le> cooldownUntil (failureState now k s)"
    "cooldownUntil (failureState now k s) \<le> max (cooldownUntil s) (now + 45 * second)"
    by (auto simp: failureState_def fc Let_def time_Add_def millisecond_def second_def)
qed

section \<open>Construction\<close>

definition fleet_ok :: "rpcFleet \<Rightarrow> bool" where
  "fleet_ok f = (endpoints f \<noteq> [] \<and> distinct (map ep_url (endpoints f)) \<and>
     [] \<notin> set (map ep_url (endpoints f)) \<and>
     map ep_id (endpoints f) = map int [0..<length (endpoints f)])"

lemma fleetLoop_ok:
  assumes "distinct (map ep_url eps)" and "[] \<notin> set (map ep_url eps)"
    and "map ep_id eps = map int [0..<length eps]"
  shows "distinct (map ep_url (fleetLoop now eps urls)) \<and> [] \<notin> set (map ep_url (fleetLoop now eps urls))
    \<and> map ep_id (fleetLoop now eps urls) = map int [0..<length (fleetLoop now eps urls)]
    \<and> set (map ep_url (fleetLoop now eps urls)) = set (map ep_url eps) \<union> (TrimSpace ` set urls - {[]})"
  using assms
proof (induction urls arbitrary: eps)
  case Nil
  then show ?case by auto
next
  case (Cons raw urls)
  show ?case
  proof (cases "TrimSpace raw = [] \<or> TrimSpace raw \<in> set (map ep_url eps)")
    case True
    with Cons show ?thesis by (auto simp: Let_def)
  next
    case False
    let ?eps = "eps @ [newEndpoint now (length eps) (TrimSpace raw)]"
    have "distinct (map ep_url ?eps) \<and> [] \<notin> set (map ep_url ?eps) \<and> map ep_id ?eps = map int [0..<length ?eps]"
      using False Cons.prems by (auto simp: newEndpoint_def)
    with Cons.IH [of ?eps] False show ?thesis
      by (auto simp: Let_def newEndpoint_def)
  qed
qed

lemma newRPCFleet_fleet_ok: "fleet_ok (newRPCFleet now urls)"
  using fleetLoop_ok [of "[]" now urls]
  by (auto simp: fleet_ok_def newRPCFleet_def Let_def defaultRPCURL_def)

lemma ep_frame_fleet_ok: "ep_frame (endpoints f) (endpoints f') \<Longrightarrow> fleet_ok f \<Longrightarrow> fleet_ok f'"
proof -
  assume fr: "ep_frame (endpoints f) (endpoints f')" and ok: "fleet_ok f"
  have "map ep_key (endpoints f') = map ep_key (endpoints f)"
    using ep_frame_nth [OF fr] ep_frame_length [OF fr] by (intro nth_equalityI) auto
  then have "map (g \<circ> ep_key) (endpoints f') = map (g \<circ> ep_key) (endpoints f)" for g :: "_ \<Rightarrow> 'b"
    by (metis map_map)
  from this [of fst] this [of "snd \<circ> snd"] ok ep_frame_length [OF fr] show ?thesis
    by (auto simp: fleet_ok_def comp_def ep_key_def)
qed

lemma endpointPos_Some: "endpointPos i eps = Some n \<Longrightarrow> n < length eps \<and> ep_id (eps ! n) = i"
  by (induction eps arbitrary: n) (auto split: if_splits)

lemma endpointPos_None: "endpointPos i eps = None \<longleftrightarrow> i \<notin> set (map ep_id eps)"
  by (induction eps) auto

lemma endpointPos_ok: "fleet_ok f \<Longrightarrow> n < length (endpoints f) \<Longrightarrow> endpointPos (int n) (endpoints f) = Some n"
proof -
  assume ok: "fleet_ok f" and n: "n < length (endpoints f)"
  have ids: "ep_id (endpoints f ! m) = int m" if "m < length (endpoints f)" for m
    using ok that by (metis (no_types, lifting) fleet_ok_def length_map nth_map nth_upt add_0 length_upt minus_nat.diff_0)
  then have "int n \<in> set (map ep_id (endpoints f))"
    using n by (metis length_map nth_map nth_mem)
  then obtain m where m: "endpointPos (int n) (endpoints f) = Some m"
    using endpointPos_None [of "int n" "endpoints f"] by auto
  with endpointPos_Some [OF m] ids [of m] show ?thesis by simp
qed

lemma onEndpoint_frame:
  assumes "\<And>s. disabled s \<Longrightarrow> disabled (g s)"
  shows "ep_frame (endpoints f) (endpoints (onEndpoint g i f))"
  using assms by (auto simp: onEndpoint_def intro!: ep_frame_update split: option.splits)

text \<open>One call on the fleet: a selection, a recorded success or a recorded failure.\<close>

inductive fleet_step :: "rpcFleet \<Rightarrow> rpcFleet \<Rightarrow> bool" where
  send: "fleet_step f (snd (sendCandidates now limit f))"
| success: "fleet_step f (recordSuccess now i latency f)"
| failure: "fleet_step f (recordFailure now i kind f)"

lemma fleet_step_frame: "fleet_step f f' \<Longrightarrow> ep_frame (endpoints f) (endpoints f')"
proof (induction rule: fleet_step.induct)
  case (send f now limit)
  show ?case by (rule sendCandidates_frame)
next
  case (success f now i latency)
  show ?case unfolding recordSuccess_def by (rule onEndpoint_frame) simp
next
  case (failure f now i kind)
  show ?case unfolding recordFailure_def by (rule onEndpoint_frame) (rule failureState_disabled)
qed

lemma fleet_steps_frame: "fleet_step\<^sup>*\<^sup>* f f' \<Longrightarrow> ep_frame (endpoints f) (endpoints f')"
  by (induction rule: rtranclp_induct) (auto intro: ep_frame_trans fleet_step_frame)

section \<open>Properties\<close>

lemma scoreFleet_available:
  assumes "(n, v) \<in> set (snd (scoreFleet now eps))" and "ep \<in> set eps" and "available now (ep_state ep)"
  shows "available now (ep_state (eps ! n))"
proof -
  have av: "available now (ep_state (eps ! n))" if "(n, v) \<in> set (snd (scoreLoop now 0 eps))" for n v
    using that score_available by (fastforce simp: scoreLoop_candidates)
  from assms(2) obtain m where m: "m < length eps" "eps ! m = ep" by (auto simp: in_set_conv_nth)
  with assms(3) obtain u where "snd (score now (ep_state (eps ! m))) = Some u"
    using score_available by blast
  with m(1) have "(0 + m, u) \<in> set (snd (scoreLoop now 0 eps))" unfolding scoreLoop_candidates by auto
  then have "snd (scoreLoop now 0 eps) \<noteq> []" by auto
  with assms(1) have "(n, v) \<in> set (snd (scoreLoop now 0 eps))"
    by (auto simp: scoreFleet_def split: prod.splits)
  then show ?thesis by (rule av)
qed

lemma fleet_ok_id: "fleet_ok f \<Longrightarrow> n < length (endpoints f) \<Longrightarrow> ep_id (endpoints f ! n) = int n"
  using endpointPos_Some endpointPos_ok by blast

lemma recordFailure_nth:
  "fleet_ok f \<Longrightarrow> n < length (endpoints f) \<Longrightarrow>
    ep_state (endpoints (recordFailure now (int n) kind f) ! n) = failureState now kind (ep_state (endpoints f ! n))"
  by (simp add: recordFailure_def onEndpoint_def endpointPos_ok)

text \<open>
  C15: \<open>sendCandidates\<close> offers at most two endpoints and at most the limit, never the same URL
  twice and never a disabled endpoint; the endpoints keep their identity and a disabled one stays
  disabled.
\<close>

theorem sendCandidates_safe:
  assumes "fleet_ok f" and "sendCandidates now limit f = (Some hs, f')"
  shows "length hs \<le> 2 \<and> (0 < limit \<longrightarrow> int (length hs) \<le> limit) \<and> distinct (map h_url hs) \<and> fleet_ok f' \<and>
    (\<forall>h \<in> set hs. \<exists>ep \<in> set (endpoints f). h = handleOf ep \<and> \<not> disabled (ep_state ep))"
proof -
  from assms(2) obtain ds :: "scored list" where ds: "hs = map (\<lambda>c. handleOf (endpoints f ! fst c)) ds" "length ds \<le> 2"
    "distinct (map fst ds)"
    "\<forall>c \<in> set ds. c \<in> set (snd (scoreFleet now (endpoints f))) \<and>
      fst c < length (endpoints f) \<and> \<not> disabled (ep_state (endpoints f ! fst c))"
    "0 < limit \<longrightarrow> int (length ds) \<le> limit"
    by (rule sendCandidates_handles)
  have "map h_url hs = map (\<lambda>n. map ep_url (endpoints f) ! n) (map fst ds)"
    using ds(1,4) by (simp add: handleOf_def)
  moreover have "inj_on (\<lambda>n. map ep_url (endpoints f) ! n) (set (map fst ds))"
  proof (rule inj_onI)
    fix a b assume "a \<in> set (map fst ds)" "b \<in> set (map fst ds)"
    with ds(4) have "a < length (map ep_url (endpoints f))" "b < length (map ep_url (endpoints f))" by auto
    moreover assume "map ep_url (endpoints f) ! a = map ep_url (endpoints f) ! b"
    ultimately show "a = b" using assms(1) nth_eq_iff_index_eq unfolding fleet_ok_def by blast
  qed
  ultimately have "distinct (map h_url hs)" using ds(3) by (simp only: distinct_map)
  moreover have "fleet_ok f'"
    using ep_frame_fleet_ok [OF sendCandidates_frame assms(1), of now limit] assms(2) by simp
  moreover have "\<forall>h \<in> set hs. \<exists>ep \<in> set (endpoints f). h = handleOf ep \<and> \<not> disabled (ep_state ep)"
    using ds(1,4) by (fastforce intro: nth_mem)
  ultimately show ?thesis using ds(1,2,5) by simp
qed

definition demoFleet :: rpcFleet where
  "demoFleet = newRPCFleet 0 [''https://a'', '' https://b'', ''https://a'']"

lemma selection_Some: "map_option g (fst p) = Some y \<Longrightarrow> \<exists>hs f'. p = (Some hs, f') \<and> g hs = y"
  by (cases p) auto

lemma demo_length: "length (endpoints demoFleet) = 2"
  by code_simp

lemma demo_sendCandidates:
  "map_option (map h_url) (fst (sendCandidates 1000 5 demoFleet)) = Some [''https://a'', ''https://b'']"
  by code_simp

lemma demo_sendCandidates2:
  "map_option (map h_url) (fst (sendCandidates 1000 5
     (recordSuccess 900 0 50 (recordFailure 800 0 rpcFailureCapacityExhausted demoFleet)))) = Some [''https://b'']"
  by code_simp

theorem sendCandidates_safe_witness:
  "\<exists>hs f'. sendCandidates 1000 5 demoFleet = (Some hs, f') \<and> map h_url hs = [''https://a'', ''https://b''] \<and>
     distinct (map h_url hs) \<and> fleet_ok f'"
proof -
  from selection_Some [OF demo_sendCandidates]
  obtain hs f' where s: "sendCandidates 1000 5 demoFleet = (Some hs, f')"
      and u: "map h_url hs = [''https://a'', ''https://b'']"
    by (elim exE conjE)
  have "fleet_ok demoFleet" unfolding demoFleet_def by (rule newRPCFleet_fleet_ok)
  from sendCandidates_safe [OF this s] have "distinct (map h_url hs)" "fleet_ok f'" by simp_all
  with s u show ?thesis by (intro exI conjI)
qed

text \<open>
  While some endpoint is neither disabled nor cooling down, \<open>sendCandidates\<close> offers only such
  endpoints; the cooldowns are dropped only when every endpoint is out.
\<close>

theorem sendCandidates_respects_cooldown:
  assumes "sendCandidates now limit f = (Some hs, f')"
    and "ep \<in> set (endpoints f)" and "available now (ep_state ep)"
  shows "\<forall>h \<in> set hs. \<exists>e \<in> set (endpoints f). h = handleOf e \<and> available now (ep_state e)"
proof -
  from assms(1) obtain ds :: "scored list" where ds: "hs = map (\<lambda>c. handleOf (endpoints f ! fst c)) ds"
      "\<forall>c \<in> set ds. c \<in> set (snd (scoreFleet now (endpoints f))) \<and>
        fst c < length (endpoints f) \<and> \<not> disabled (ep_state (endpoints f ! fst c))"
    by (rule sendCandidates_handles)
  show ?thesis
  proof
    fix h assume "h \<in> set hs"
    then obtain c where c: "c \<in> set ds" "h = handleOf (endpoints f ! fst c)" using ds(1) by auto
    then have "available now (ep_state (endpoints f ! fst c))"
      using scoreFleet_available [OF _ assms(2,3), of "fst c" "snd c"] ds(2) by simp
    then show "\<exists>e \<in> set (endpoints f). h = handleOf e \<and> available now (ep_state e)"
      using c ds(2) by auto
  qed
qed

theorem sendCandidates_respects_cooldown_witness:
  "\<exists>hs f'. sendCandidates 1000 5 demoFleet = (Some hs, f') \<and>
    (\<forall>h \<in> set hs. \<exists>e \<in> set (endpoints demoFleet). h = handleOf e \<and> available 1000 (ep_state e))"
proof -
  from selection_Some [OF demo_sendCandidates]
  obtain hs f' where s: "sendCandidates 1000 5 demoFleet = (Some hs, f')" by (elim exE conjE)
  have "endpoints demoFleet ! 0 \<in> set (endpoints demoFleet)" "available 1000 (ep_state (endpoints demoFleet ! 0))"
    by code_simp+
  note sendCandidates_respects_cooldown [OF s this]
  with s show ?thesis by (intro exI conjI)
qed

text \<open>
  C32: \<open>sendCandidates\<close> always has an endpoint to offer as long as one is not disabled (the rotation
  counter read as a signed number being non-negative): cooldowns never leave the signer without an RPC.
\<close>

theorem sendCandidates_live:
  assumes "ep \<in> set (endpoints f)" and "\<not> disabled (ep_state ep)" and "0 \<le> sint (rotation f)"
  shows "\<exists>hs f'. sendCandidates now limit f = (Some hs, f') \<and> hs \<noteq> []"
proof -
  obtain eps cs where sf: "scoreFleet now (endpoints f) = (eps, cs)" by fastforce
  obtain es rot where "rotateTop (rotation f) (sortOuter cs 0) = (Some es, rot)"
    using rotateTop_total [OF assms(3)] by blast
  then obtain hs f' where s: "sendCandidates now limit f = (Some hs, f')"
    by (simp add: sendCandidates_def sf Let_def split_beta)
  from s obtain ds :: "scored list" where "hs = map (\<lambda>c. handleOf (endpoints f ! fst c)) ds"
      "length ds = 0 \<longrightarrow> snd (scoreFleet now (endpoints f)) = []"
    by (rule sendCandidates_handles)
  with scoreFleet_live [OF assms(1,2)] have "hs \<noteq> []" by auto
  with s show ?thesis by blast
qed

theorem sendCandidates_live_witness:
  "\<exists>hs f'. sendCandidates 1000 5 (recordFailure 900 0 rpcFailureTimeout
      (recordFailure 900 1 rpcFailureRateLimited demoFleet)) = (Some hs, f') \<and> hs \<noteq> []"
proof -
  let ?f = "recordFailure 900 0 rpcFailureTimeout (recordFailure 900 1 rpcFailureRateLimited demoFleet)"
  have "endpoints ?f ! 0 \<in> set (endpoints ?f) \<and> \<not> disabled (ep_state (endpoints ?f ! 0)) \<and> 0 \<le> sint (rotation ?f)
      \<and> \<not> available 1000 (ep_state (endpoints ?f ! 0)) \<and> \<not> available 1000 (ep_state (endpoints ?f ! 1))"
    by code_simp
  with sendCandidates_live [of "endpoints ?f ! 0" ?f 1000 5] show ?thesis by blast
qed

text \<open>
  After a failure is recorded, the endpoint is not offered as available for the next 400
  milliseconds, and the failure itself never keeps it back for more than 45 seconds.
\<close>

theorem failed_endpoint_cools_down:
  assumes "fleet_ok f" and "n < length (endpoints f)" and "zeroTime < t" and "t < now + 400 * millisecond"
  shows "\<not> available t (ep_state (endpoints (recordFailure now (int n) kind f) ! n)) \<and>
    cooldownUntil (ep_state (endpoints (recordFailure now (int n) kind f) ! n))
      \<le> max (cooldownUntil (ep_state (endpoints f ! n))) (now + 45 * second)"
  using failureState_cooldown [of now kind "ep_state (endpoints f ! n)"] assms
  by (auto simp: recordFailure_nth available_def time_IsZero_def)

theorem failed_endpoint_cools_down_witness:
  "\<not> available 399000000 (ep_state (endpoints (recordFailure 0 1 rpcFailureRemote demoFleet) ! 1))"
  using failed_endpoint_cools_down [of demoFleet 1 399000000 0 rpcFailureRemote] newRPCFleet_fleet_ok
  by (simp add: demoFleet_def zeroTime_def millisecond_def demo_length [unfolded demoFleet_def])

text \<open>
  C33: An endpoint whose provider reported exhausted capacity is out for good: after any further
  calls on the fleet it is still disabled and no selection returns it.
\<close>

theorem exhausted_endpoint_never_selected:
  assumes "fleet_ok f" and "n < length (endpoints f)"
    and "fleet_step\<^sup>*\<^sup>* (recordFailure now (int n) rpcFailureCapacityExhausted f) f'"
    and "sendCandidates t limit f' = (Some hs, f'')"
  shows "int n \<notin> set (map h_id hs)"
proof -
  let ?f = "recordFailure now (int n) rpcFailureCapacityExhausted f"
  have fr: "ep_frame (endpoints f) (endpoints ?f)"
    by (rule fleet_step_frame) (rule fleet_step.failure)
  then have len: "n < length (endpoints ?f)" using assms(2) ep_frame_length by force
  have "disabled (ep_state (endpoints ?f ! n))"
    using assms(1,2) by (simp add: recordFailure_nth failureState_def failureCooldown_def Let_def)
  moreover note fr' = fleet_steps_frame [OF assms(3)]
  ultimately have dis: "disabled (ep_state (endpoints f' ! n))" using ep_frame_nth [OF fr' len] by simp
  have ok: "fleet_ok f'" using ep_frame_fleet_ok fr fr' assms(1) by blast
  show ?thesis
  proof
    assume "int n \<in> set (map h_id hs)"
    then obtain h where h: "h \<in> set hs" "h_id h = int n" by auto
    from assms(4) obtain ds :: "scored list" where "hs = map (\<lambda>c. handleOf (endpoints f' ! fst c)) ds"
        "\<forall>c \<in> set ds. c \<in> set (snd (scoreFleet t (endpoints f'))) \<and>
          fst c < length (endpoints f') \<and> \<not> disabled (ep_state (endpoints f' ! fst c))"
      by (rule sendCandidates_handles)
    with h obtain m where m: "m < length (endpoints f')"
        "ep_id (endpoints f' ! m) = int n" "\<not> disabled (ep_state (endpoints f' ! m))"
      by (auto simp: handleOf_def)
    with fleet_ok_id [OF ok m(1)] dis show False by simp
  qed
qed

theorem exhausted_endpoint_never_selected_witness:
  "\<exists>hs f''. sendCandidates 1000 5 (recordSuccess 900 0 50 (recordFailure 800 0 rpcFailureCapacityExhausted demoFleet))
      = (Some hs, f'') \<and> 0 \<notin> set (map h_id hs)"
proof -
  let ?f = "recordFailure 800 0 rpcFailureCapacityExhausted demoFleet"
  obtain hs f'' where s: "sendCandidates 1000 5 (recordSuccess 900 0 50 ?f) = (Some hs, f'')"
    using selection_Some [OF demo_sendCandidates2] by (elim exE conjE)
  have "fleet_step\<^sup>*\<^sup>* (recordFailure 800 (int 0) rpcFailureCapacityExhausted demoFleet) (recordSuccess 900 0 50 ?f)"
    by (simp add: r_into_rtranclp fleet_step.success)
  moreover have "fleet_ok demoFleet" unfolding demoFleet_def by (rule newRPCFleet_fleet_ok)
  ultimately have "int 0 \<notin> set (map h_id hs)"
    by (intro exhausted_endpoint_never_selected [OF _ _ _ s]) (simp_all only: demo_length pos2)
  then have "0 \<notin> set (map h_id hs)" by simp
  with s show ?thesis by (intro exI conjI)
qed

text \<open>
  C34: The exchange sort of \<open>sendCandidates\<close> returns a permutation of the candidates, ordered so that
  no later candidate has a smaller score than an earlier one.
\<close>

theorem sortOuter_correct:
  "mset (sortOuter xs 0) = mset xs \<and> sorted_wrt (\<lambda>a b. \<not> snd b < snd a) (sortOuter xs 0)"
  by (simp add: sortOuter_perm sortOuter_sorted_wrt)

text \<open>
  A new fleet has at least one endpoint; its URLs are exactly the distinct non-empty trimmed URLs
  given (or the public default when there is none), and the id of an endpoint is its position,
  which is how \<open>recordSuccess\<close> and \<open>recordFailure\<close> find it.
\<close>

theorem newRPCFleet_correct:
  "fleet_ok (newRPCFleet now urls) \<and>
   set (map ep_url (endpoints (newRPCFleet now urls))) =
     (if TrimSpace ` set urls - {[]} = {} then {defaultRPCURL} else TrimSpace ` set urls - {[]})"
proof -
  have "set (map ep_url (fleetLoop now [] urls)) = TrimSpace ` set urls - {[]}"
    using fleetLoop_ok [of "[]" now urls] by simp
  moreover from this have "fleetLoop now [] urls = [] \<longleftrightarrow> TrimSpace ` set urls - {[]} = {}"
    by (metis list.map_disc_iff set_empty2)
  ultimately show ?thesis
    using newRPCFleet_fleet_ok [of now urls] by (simp add: newRPCFleet_def Let_def)
qed

end
