(* ===== verification/Config.thy ===== *)
theory Config
  imports Rpc_Fleet
begin

text \<open>
  Model of \<open>src/config.go\<close>: the signer's configuration, how it is read from the environment, and
  the production guard. The process environment (after \<open>godotenv.Load\<close>) is a map from variable
  names to values. The sets of the configuration (\<open>map[string]bool\<close> holding only \<open>true\<close>) are HOL
  sets; the fleet the configuration points to is state and lives beside it.
\<close>

section \<open>Data\<close>

record SecurityConfig =
  HMACSecret :: string
  HMACMaxSkewSec :: int
  HMACOldSecret :: string
  NonceTTLSeconds :: int
  NonceStoreType :: string
  RateLimitPerMin :: int
  RateLimitBurst :: int
  RateLimiterType :: string
  MaxBodySizeMB :: int
  RequireHMAC :: bool
  RequireNonce :: bool
  RequireAPIKey :: bool

record SignerConfig =
  AppEnv :: string
  Port :: string
  DatabaseURL :: string
  RedisURL :: string
  AllowSimulation :: bool
  DefaultNetwork :: string
  AllowedNetworks :: "string set"
  AllowedTokenContracts :: "string set"
  AllowedContractCalls :: "string set"
  MaxTransferAmount :: f64
  TokenDecimals :: int
  EVMPrivateKey :: string
  RPCURL :: string
  RPCURLs :: "string list"
  BSCUSDTContract :: string
  BSCTreasuryContract :: string
  BSCChainID :: int
  Security :: SecurityConfig
  CustodyGuardEnabled :: bool
  CustodyGuardPollMs :: int
  CustodyMode :: string
  CustodyUnlockCooldown :: int
  CustodyProtectedRaw :: string
  CustodyTrustedRaw :: string
  CustodySelectorsRaw :: string
  TreasuryMinUSDT :: f64
  TreasuryTargetUSDT :: f64
  TreasuryMaxUSDT :: f64
  TreasuryMaxDailyOut :: f64
  TreasuryLockThreshold :: f64

type_synonym environment = "string \<rightharpoonup> string"

section \<open>Reading the environment\<close>

definition getEnv :: "environment \<Rightarrow> string \<Rightarrow> string \<Rightarrow> string" where
  "getEnv env key defaultValue = (case env key of Some value \<Rightarrow> value | None \<Rightarrow> defaultValue)"

definition getEnvAsInt :: "environment \<Rightarrow> string \<Rightarrow> int \<Rightarrow> int" where
  "getEnvAsInt env key defaultValue = (case Atoi (getEnv env key []) of
     (value, None) \<Rightarrow> value | (_, Some _) \<Rightarrow> defaultValue)"

definition getEnvAsInt64 :: "environment \<Rightarrow> string \<Rightarrow> int \<Rightarrow> int" where
  "getEnvAsInt64 env key defaultValue = (case ParseInt64 (getEnv env key []) of
     (value, None) \<Rightarrow> value | (_, Some _) \<Rightarrow> defaultValue)"

definition getEnvAsFloat :: "environment \<Rightarrow> string \<Rightarrow> f64 \<Rightarrow> f64" where
  "getEnvAsFloat env key defaultValue = (case ParseFloat (getEnv env key []) of
     Some value \<Rightarrow> value | None \<Rightarrow> defaultValue)"

definition getEnvAsBool :: "environment \<Rightarrow> string \<Rightarrow> bool \<Rightarrow> bool" where
  "getEnvAsBool env key defaultValue = (let valueStr = getEnv env key [] in
     if valueStr = [] then defaultValue
     else case ParseBool valueStr of None \<Rightarrow> defaultValue | Some value \<Rightarrow> value)"

fun firstNonEmptyEnv :: "environment \<Rightarrow> string list \<Rightarrow> string" where
  "firstNonEmptyEnv env [] = []"
| "firstNonEmptyEnv env (key # keys) = (let value = TrimSpace (getEnv env key []) in
     if value \<noteq> [] then value else firstNonEmptyEnv env keys)"

definition parseSet :: "string \<Rightarrow> string set" where
  "parseSet raw = set (filter (\<lambda>item. item \<noteq> []) (map (\<lambda>part. ToUpper (TrimSpace part)) (Split raw CHR '','')))"

definition parseRPCURLs :: "environment \<Rightarrow> string list" where
  "parseRPCURLs env = (let
     raw = firstNonEmptyEnv env [''BSC_RPC_URLS'', ''RPC_URLS'', ''RPC_URL''];
     urls = filter (\<lambda>url. url \<noteq> []) (map TrimSpace (Split raw CHR '',''));
     extra = filter (\<lambda>url. url \<noteq> []) (map (\<lambda>key. TrimSpace (getEnv env key []))
       [''ALCHEMY_BSC_RPC_URL_1'', ''ALCHEMY_BSC_RPC_URL_2'', ''ALCHEMY_BSC_RPC_URL'', ''ALCHEMY_BSC_FALLBACK_RPC_URL''])
     in if urls @ extra = [] then [''https://bsc-dataseed.binance.org/''] else urls @ extra)"

definition normalizeCustodyMode :: "string \<Rightarrow> string" where
  "normalizeCustodyMode value = (let m = ToLower (TrimSpace value) in
     if m \<in> {''shadow'', ''paper'', ''live''} then m else ''paper'')"

definition LoadSecurityConfig :: "environment \<Rightarrow> SecurityConfig" where
  "LoadSecurityConfig env = \<lparr>
     HMACSecret = firstNonEmptyEnv env [''HMAC_SECRET'', ''SIGNER_HMAC_SECRET''],
     HMACMaxSkewSec = getEnvAsInt64 env ''HMAC_MAX_SKEW_SEC'' 300,
     HMACOldSecret = getEnv env ''HMAC_OLD_SECRET'' [],
     NonceTTLSeconds = getEnvAsInt64 env ''NONCE_TTL_SECONDS'' 300,
     NonceStoreType = ToLower (TrimSpace (getEnv env ''NONCE_STORE_TYPE'' ''memory'')),
     RateLimitPerMin = getEnvAsInt env ''RATE_LIMIT_PER_MIN'' 100,
     RateLimitBurst = getEnvAsInt env ''RATE_LIMIT_BURST'' 20,
     RateLimiterType = getEnv env ''RATE_LIMITER_TYPE'' ''token_bucket'',
     MaxBodySizeMB = getEnvAsInt64 env ''MAX_BODY_SIZE_MB'' 1,
     RequireHMAC = getEnvAsBool env ''REQUIRE_HMAC'' True,
     RequireNonce = getEnvAsBool env ''REQUIRE_NONCE'' True,
     RequireAPIKey = getEnvAsBool env ''REQUIRE_API_KEY'' False\<rparr>"

definition LoadSignerConfig :: "environment \<Rightarrow> SignerConfig" where
  "LoadSignerConfig env = \<lparr>
     AppEnv = ToLower (getEnv env ''APP_ENV'' (getEnv env ''ENV'' ''development'')),
     Port = getEnv env ''PORT_SIGNER'' (getEnv env ''PORT'' ''4010''),
     DatabaseURL = getEnv env ''SIGNER_DATABASE_URL'' (getEnv env ''DATABASE_URL'' []),
     RedisURL = getEnv env ''REDIS_URL'' [],
     AllowSimulation = getEnvAsBool env ''SIGNER_ALLOW_SIMULATION'' False,
     DefaultNetwork = ToUpper (getEnv env ''SIGNER_NETWORK'' ''BSC''),
     AllowedNetworks = parseSet (getEnv env ''SIGNER_ALLOWED_NETWORKS'' ''BSC,EVM''),
     AllowedTokenContracts = parseSet (getEnv env ''SIGNER_ALLOWED_TOKEN_CONTRACTS'' []),
     AllowedContractCalls = parseSet (getEnv env ''SIGNER_ALLOWED_CONTRACT_CALL_TARGETS''
       ''0xcA11bde05977b3631167028862bE2a173976CA11''),
     MaxTransferAmount = getEnvAsFloat env ''SIGNER_MAX_TRANSFER_AMOUNT'' (Fin 10000),
     TokenDecimals = getEnvAsInt env ''SIGNER_TOKEN_DECIMALS'' 18,
     EVMPrivateKey = getEnv env ''EVM_PRIVATE_KEY'' [],
     RPCURL = getEnv env ''RPC_URL'' ''https://bsc-dataseed.binance.org/'',
     RPCURLs = parseRPCURLs env,
     BSCUSDTContract = getEnv env ''BSC_USDT_CONTRACT'' (getEnv env ''BSC_TOKEN_CONTRACT'' []),
     BSCTreasuryContract = getEnv env ''BSC_TREASURY_CONTRACT'' [],
     BSCChainID = getEnvAsInt64 env ''BSC_CHAIN_ID'' 56,
     Security = LoadSecurityConfig env,
     CustodyGuardEnabled = getEnvAsBool env ''CUSTODY_GUARD_ENABLED'' False,
     CustodyGuardPollMs = getEnvAsInt env ''CUSTODY_GUARD_POLL_MS'' 1500,
     CustodyMode = normalizeCustodyMode (getEnv env ''CUSTODY_MODE'' ''paper''),
     CustodyUnlockCooldown = getEnvAsInt env ''CUSTODY_UNLOCK_COOLDOWN_SEC'' 900,
     CustodyProtectedRaw = getEnv env ''CUSTODY_PROTECTED_WALLETS'' [],
     CustodyTrustedRaw = getEnv env ''CUSTODY_TRUSTED_DELEGATES'' [],
     CustodySelectorsRaw = getEnv env ''CUSTODY_ALLOWED_SELECTORS'' [],
     TreasuryMinUSDT = getEnvAsFloat env ''TREASURY_MIN_USDT'' (Fin 0),
     TreasuryTargetUSDT = getEnvAsFloat env ''TREASURY_TARGET_USDT'' (Fin 0),
     TreasuryMaxUSDT = getEnvAsFloat env ''TREASURY_MAX_USDT'' (Fin 0),
     TreasuryMaxDailyOut = getEnvAsFloat env ''TREASURY_MAX_DAILY_OUTFLOW'' (Fin 0),
     TreasuryLockThreshold = getEnvAsFloat env ''TREASURY_LOCKDOWN_THRESHOLD'' (Fin 0)\<rparr>"

section \<open>The production guard\<close>

definition IsProduction :: "SignerConfig \<Rightarrow> bool" where
  "IsProduction c = (let env = ToLower (TrimSpace (AppEnv c)) in env = ''production'' \<or> env = ''prod'')"

text \<open>\<open>None\<close> is a nil error.\<close>

definition ValidateProduction :: "SignerConfig \<Rightarrow> error option" where
  "ValidateProduction c =
     (if \<not> IsProduction c then None
      else if AllowSimulation c then Some (Err ''SIGNER_ALLOW_SIMULATION deve ser false em producao'')
      else if TrimSpace (DatabaseURL c) = []
      then Some (Err ''SIGNER_DATABASE_URL ou DATABASE_URL obrigatorio em producao'')
      else if AllowedTokenContracts c = {}
      then Some (Err ''SIGNER_ALLOWED_TOKEN_CONTRACTS deve fixar contratos permitidos em producao'')
      else if length (TrimSpace (HMACSecret (Security c))) < 32
      then Some (Err ''HMAC_SECRET deve ter pelo menos 32 caracteres em producao'')
      else if RequireHMAC (Security c) \<and> HMACSecret (Security c) = []
      then Some (Err ''HMAC_SECRET obrigatorio quando RequireHMAC=true'')
      else if RequireNonce (Security c) \<and> NonceTTLSeconds (Security c) \<le> 0
      then Some (Err ''NONCE_TTL_SECONDS deve ser > 0 quando RequireNonce=true'')
      else if RequireNonce (Security c) \<and> EqualFold (TrimSpace (NonceStoreType (Security c))) ''redis''
              \<and> TrimSpace (RedisURL c) = []
      then Some (Err ''REDIS_URL obrigatorio quando NONCE_STORE_TYPE=redis'')
      else None)"

section \<open>Derived settings\<close>

definition GetNonceTTL :: "SignerConfig \<Rightarrow> duration" where
  "GetNonceTTL c = (if NonceTTLSeconds (Security c) \<le> 0 then 5 * minute
     else wrap64 (NonceTTLSeconds (Security c) * second))"

definition GetRateWindow :: "SignerConfig \<Rightarrow> duration" where
  "GetRateWindow c = minute"

definition GetRateLimit :: "SignerConfig \<Rightarrow> int" where
  "GetRateLimit c = (if RateLimitPerMin (Security c) \<le> 0 then 100 else RateLimitPerMin (Security c))"

definition GetMaxBodySize :: "SignerConfig \<Rightarrow> int" where
  "GetMaxBodySize c = (if MaxBodySizeMB (Security c) \<le> 0 then 1024 * 1024
     else wrap64 (wrap64 (MaxBodySizeMB (Security c) * 1024) * 1024))"

definition GetRateLimiterType :: "SignerConfig \<Rightarrow> string" where
  "GetRateLimiterType c = (let t = ToLower (RateLimiterType (Security c)) in
     if t = ''sliding_window'' \<or> t = ''sliding'' then ''sliding_window'' else ''token_bucket'')"

section \<open>Lemmas\<close>

lemma normalizeCustodyMode_range: "normalizeCustodyMode v \<in> {''shadow'', ''paper'', ''live''}"
  by (simp add: normalizeCustodyMode_def Let_def)

lemma normalizeCustodyMode_fixed:
  "m \<in> {''shadow'', ''paper'', ''live''} \<Longrightarrow> normalizeCustodyMode m = m"
  by (elim insertE emptyE; hypsubst; code_simp)

lemma normalizeCustodyMode_idem: "normalizeCustodyMode (normalizeCustodyMode v) = normalizeCustodyMode v"
  by (rule normalizeCustodyMode_fixed [OF normalizeCustodyMode_range])

lemma parseSet_iff:
  "x \<in> parseSet raw \<longleftrightarrow> x \<noteq> [] \<and> (\<exists>part \<in> set (Split raw CHR '',''). x = ToUpper (TrimSpace part))"
  by (auto simp: parseSet_def)

lemma parseRPCURLs_nonempty: "parseRPCURLs env \<noteq> []"
  by (simp add: parseRPCURLs_def Let_def)

lemma GetNonceTTL_pos:
  "NonceTTLSeconds (Security c) \<le> 9223372036 \<Longrightarrow> 0 < GetNonceTTL c"
  by (auto simp: GetNonceTTL_def minute_def second_def int64_def)

lemma GetRateLimit_pos: "0 < GetRateLimit c"
  by (simp add: GetRateLimit_def)

end
