(* ===== verification/Signer_Types.thy ===== *)
theory Signer_Types
  imports Config
begin

text \<open>
  The data the components exchange: the requests and the response of \<open>src/main.go\<close> (lines 29-75)
  and the audit and transaction records of \<open>src/store.go\<close>. The library go-ethereum is not part of
  the repository: the functions the signer calls are the fields of the record \<open>geth\<close>, an argument
  of every definition that uses them. An address or a hash is the list of its bytes.
\<close>

section \<open>go-ethereum as a parameter\<close>

type_synonym address = "byte list"
type_synonym hash = "byte list"
type_synonym privateKey = "byte list"
type_synonym signedTx = "byte list"

definition zeroAddress :: address where "zeroAddress = replicate 20 0"
definition zeroHash :: hash where "zeroHash = replicate 32 0"

record ethTx =
  tx_nonce :: "64 word"
  tx_to :: address
  tx_value :: int
  tx_gas :: "64 word"
  tx_gasPrice :: int
  tx_data :: "byte list"

text \<open>The argument values of \<open>abi.Arguments.Pack\<close>.\<close>

datatype abiValue = AbiUint256 int | AbiAddress address | AbiBytes32 hash

record setCodeAuth =
  auth_chainID :: int
  auth_address :: address
  auth_nonce :: "64 word"
  auth_signature :: "byte list"

record geth =
  IsHexAddress :: "string \<Rightarrow> bool"
  HexToAddress :: "string \<Rightarrow> address"
  AddressHex :: "address \<Rightarrow> string"
  HexToHash :: "string \<Rightarrow> hash"
  HashHex :: "hash \<Rightarrow> string"
  Keccak256 :: "byte list \<Rightarrow> hash"
  HexToECDSA :: "string \<Rightarrow> privateKey result"
  PubkeyToAddress :: "privateKey \<Rightarrow> address"
  SignTx :: "ethTx \<Rightarrow> int \<Rightarrow> privateKey \<Rightarrow> signedTx result"
  SignedHash :: "signedTx \<Rightarrow> hash"
  AbiPack :: "abiValue list \<Rightarrow> byte list result"
  HexutilEncode :: "byte list \<Rightarrow> string"
  HexutilDecode :: "string \<Rightarrow> byte list result"
  Authority :: "setCodeAuth \<Rightarrow> address result"
  SignSetCode :: "privateKey \<Rightarrow> setCodeAuth \<Rightarrow> setCodeAuth result"
  BytesToAddress :: "byte list \<Rightarrow> address"
  Uint256FromBig :: "int \<Rightarrow> int \<times> bool"

section \<open>Requests and responses\<close>

record TransferRequest =
  tr_To :: string
  tr_Amount :: string
  tr_TokenContract :: string
  tr_Network :: string
  tr_IdempotencyKey :: string
  tr_DerivationIndex :: "int option"

record ContractCallRequest =
  cc_To :: string
  cc_Data :: string
  cc_Network :: string
  cc_IdempotencyKey :: string
  cc_Amount :: string
  cc_TokenContract :: string
  cc_DerivationIndex :: "int option"

record SettlementExecuteRequest =
  se_OperationID :: string
  se_SettlementIntentID :: string
  se_OrderID :: string
  se_Side :: string
  se_Network :: string
  se_ChainID :: "64 word"
  se_Vault :: string
  se_Token :: string
  se_Recipient :: string
  se_AmountRaw :: string
  se_SourceChannel :: string
  se_PolicyVersion :: string
  se_NetworkPolicy :: string
  se_RiskPolicy :: string
  se_ContractVersion :: string
  se_AuthorizedAt :: string
  se_ExpiresAt :: string
  se_IdempotencyKey :: string

definition settlementPolicyVersion :: string where
  "settlementPolicyVersion = ''settlement-policy-v1.0.0''"

record TransferResponse =
  resp_TxHash :: string
  resp_From :: string
  resp_Network :: string

definition emptyResponse :: TransferResponse where
  "emptyResponse = \<lparr>resp_TxHash = [], resp_From = [], resp_Network = []\<rparr>"

section \<open>Records of the store\<close>

text \<open>The values the signer puts into the \<open>Data\<close> map of an event.\<close>

datatype eventValue = EvNum "64 word" | EvText string | EvFloat f64

record CustodyEvent =
  ev_Kind :: string
  ev_Reason :: string
  ev_Mode :: string
  ev_TxHash :: string
  ev_Wallet :: string
  ev_Data :: "(string \<times> eventValue) list"

record CustodyIncident =
  inc_ID :: int
  inc_Reason :: string
  inc_Mode :: string
  inc_CreatedAt :: instant

record SignerTransaction =
  stx_IdempotencyKey :: string
  stx_WalletFrom :: string
  stx_WalletTo :: string
  stx_Token :: string
  stx_Amount :: string
  stx_Network :: string
  stx_Nonce :: "64 word"
  stx_TxHash :: string
  stx_Status :: string
  stx_Reason :: string
  stx_Confirmations :: "64 word"

section \<open>A concrete instance\<close>

text \<open>
  Properties whose hypotheses state documented behaviour of go-ethereum are exercised on this
  instance, in which addresses, hashes and byte strings are written in hexadecimal as the library does
  and the cryptographic functions are simple stand-ins.
\<close>

definition hexDigitsOf :: "string \<Rightarrow> string" where
  "hexDigitsOf s = (if HasPrefix s ''0x'' \<or> HasPrefix s ''0X'' then drop 2 s else s)"

definition padTo :: "nat \<Rightarrow> byte list \<Rightarrow> byte list" where
  "padTo n bs = (if length bs > n then drop (length bs - n) bs else replicate (n - length bs) 0 @ bs)"

definition fromHex :: "nat \<Rightarrow> string \<Rightarrow> byte list" where
  "fromHex n s = (case hexDecodeString (hexDigitsOf s) of Some bs \<Rightarrow> padTo n bs | None \<Rightarrow> replicate n 0)"

definition abiEncode :: "abiValue \<Rightarrow> byte list" where
  "abiEncode v = (case v of AbiUint256 n \<Rightarrow> padTo 32 (bigBytes n) | AbiAddress a \<Rightarrow> padTo 32 a | AbiBytes32 h \<Rightarrow> padTo 32 h)"

definition demoGeth :: geth where
  "demoGeth = \<lparr>
     IsHexAddress = (\<lambda>s. length (hexDigitsOf s) = 40 \<and> list_all isHexDigit (hexDigitsOf s)),
     HexToAddress = fromHex 20,
     AddressHex = (\<lambda>a. ''0x'' @ hexEncodeToString a),
     HexToHash = fromHex 32,
     HashHex = (\<lambda>h. ''0x'' @ hexEncodeToString h),
     Keccak256 = (\<lambda>bs. take 32 (bs @ replicate 32 0)),
     HexToECDSA = (\<lambda>s. case hexDecodeString s of Some bs \<Rightarrow> Inr bs | None \<Rightarrow> Inl (Err ''invalid hex'')),
     PubkeyToAddress = (\<lambda>k. padTo 20 k),
     SignTx = (\<lambda>tx chain key. Inr (padTo 8 (bigBytes (uint (tx_nonce tx))) @ tx_to tx @ tx_data tx)),
     SignedHash = (\<lambda>t. take 32 (t @ replicate 32 0)),
     AbiPack = (\<lambda>vs. Inr (concat (map abiEncode vs))),
     HexutilEncode = (\<lambda>bs. ''0x'' @ hexEncodeToString bs),
     HexutilDecode = (\<lambda>s. case hexDecodeString (hexDigitsOf s) of Some bs \<Rightarrow> Inr bs | None \<Rightarrow> Inl (Err ''invalid hex'')),
     Authority = (\<lambda>a. Inr (padTo 20 (auth_signature a))),
     SignSetCode = (\<lambda>k a. Inr (a\<lparr>auth_signature := k\<rparr>)),
     BytesToAddress = padTo 20,
     Uint256FromBig = (\<lambda>v. (v mod 2 ^ 256, \<bar>v\<bar> \<ge> 2 ^ 256))\<rparr>"

end
