(* ===== verification/Policy.thy ===== *)
theory Policy
  imports Signer_Types
begin

text \<open>
  Model of \<open>src/policy.go\<close>: network normalisation and the checks a transfer and a contract call
  pass before anything is signed. \<open>None\<close> is a nil error.
\<close>

section \<open>Definitions\<close>

definition multicall3Aggregate3Selector :: string where
  "multicall3Aggregate3Selector = ''82ad56cb''"

definition requestedNetwork :: "SignerConfig \<Rightarrow> TransferRequest \<Rightarrow> string" where
  "requestedNetwork cfg req = (let
     trimmed = ToUpper (TrimSpace (tr_Network req));
     network = (if trimmed = [] then DefaultNetwork cfg else trimmed)
     in if network = ''BINANCE'' \<or> network = ''BEP20'' then ''BSC''
        else if network = ''ETHEREUM'' then ''EVM'' else network)"

definition normalizedTokenContract :: "SignerConfig \<Rightarrow> TransferRequest \<Rightarrow> string \<Rightarrow> string" where
  "normalizedTokenContract cfg req network = (let token = TrimSpace (tr_TokenContract req) in
     if (network = ''BSC'' \<or> network = ''EVM'') \<and> token = [] then BSCUSDTContract cfg else token)"

definition amountAboveLimit :: "f64 \<Rightarrow> f64 \<Rightarrow> error" where
  "amountAboveLimit amount limit =
     Err (''amount acima do limite: '' @ fmtF8 amount @ '' > '' @ fmtF8 limit)"

definition validateTransferPolicy ::
    "geth \<Rightarrow> SignerConfig \<Rightarrow> TransferRequest \<Rightarrow> string \<Rightarrow> error option" where
  "validateTransferPolicy eth cfg req network =
     (if network \<notin> AllowedNetworks cfg then Some (Err (''rede nao permitida: '' @ network))
      else case ParseFloat (TrimSpace (tr_Amount req)) of
        None \<Rightarrow> Some (Err ''amount invalido'')
      | Some amount \<Rightarrow>
          if amount \<le> Fin 0 then Some (Err ''amount invalido'')
          else if MaxTransferAmount cfg > Fin 0 \<and> amount > MaxTransferAmount cfg
          then Some (amountAboveLimit amount (MaxTransferAmount cfg))
          else let token = normalizedTokenContract cfg req network in
            if AllowedTokenContracts cfg \<noteq> {} \<and> token \<noteq> [] \<and> ToUpper token \<notin> AllowedTokenContracts cfg
            then Some (Err ''token contract nao permitido'')
            else if network = ''BSC'' \<or> network = ''EVM'' then
              (if \<not> IsHexAddress eth (tr_To req) then Some (Err ''destinatario EVM invalido'')
               else if token \<noteq> [] \<and> \<not> IsHexAddress eth token then Some (Err ''token contract EVM invalido'')
               else None)
            else Some (Err (''rede nao suportada: '' @ network)))"

definition validateContractCallPolicy ::
    "geth \<Rightarrow> SignerConfig \<Rightarrow> ContractCallRequest \<Rightarrow> string \<Rightarrow> error option" where
  "validateContractCallPolicy eth cfg req network = (let
     to = ToUpper (TrimSpace (cc_To req));
     data = TrimPrefix (TrimSpace (cc_Data req)) ''0x'';
     amountStr = TrimSpace (cc_Amount req);
     amountError = (if amountStr = [] then None
       else case ParseFloat amountStr of
         None \<Rightarrow> Some (Err ''amount invalido'')
       | Some amount \<Rightarrow>
           if amount \<le> Fin 0 then Some (Err ''amount invalido'')
           else if MaxTransferAmount cfg > Fin 0 \<and> amount > MaxTransferAmount cfg
           then Some (amountAboveLimit amount (MaxTransferAmount cfg)) else None);
     token = TrimSpace (cc_TokenContract req)
     in if network \<notin> AllowedNetworks cfg then Some (Err (''rede nao permitida: '' @ network))
        else if \<not> IsHexAddress eth (cc_To req) then Some (Err ''contrato EVM invalido'')
        else if AllowedContractCalls cfg \<noteq> {} \<and> to \<notin> AllowedContractCalls cfg
        then Some (Err ''contract-call target nao permitido'')
        else if length data < 8 then Some (Err ''data hex invalido'')
        else if ToLower (take 8 data) \<noteq> multicall3Aggregate3Selector
        then Some (Err ''contract-call permitido apenas para Multicall3 aggregate3'')
        else if amountError \<noteq> None then amountError
        else if AllowedTokenContracts cfg \<noteq> {} \<and> token \<noteq> [] \<and> ToUpper token \<notin> AllowedTokenContracts cfg
        then Some (Err ''token contract nao permitido'')
        else if token \<noteq> [] \<and> \<not> IsHexAddress eth token then Some (Err ''token contract EVM invalido'')
        else if network = ''BSC'' \<or> network = ''EVM'' then None
        else Some (Err (''rede nao suportada: '' @ network)))"

section \<open>What acceptance means\<close>

lemma validateTransferPolicy_None_iff:
  "validateTransferPolicy eth cfg req network = None \<longleftrightarrow>
     network \<in> AllowedNetworks cfg \<and> (network = ''BSC'' \<or> network = ''EVM'') \<and>
     (\<exists>amount. ParseFloat (TrimSpace (tr_Amount req)) = Some amount \<and> \<not> amount \<le> Fin 0 \<and>
        \<not> (MaxTransferAmount cfg > Fin 0 \<and> amount > MaxTransferAmount cfg)) \<and>
     IsHexAddress eth (tr_To req) \<and>
     (let token = normalizedTokenContract cfg req network in
        token \<noteq> [] \<longrightarrow> IsHexAddress eth token \<and>
          (AllowedTokenContracts cfg \<noteq> {} \<longrightarrow> ToUpper token \<in> AllowedTokenContracts cfg))"
  unfolding validateTransferPolicy_def Let_def
  by (cases "ParseFloat (TrimSpace (tr_Amount req))") auto

lemma validateContractCallPolicy_None_iff:
  "validateContractCallPolicy eth cfg req network = None \<longleftrightarrow>
     network \<in> AllowedNetworks cfg \<and> (network = ''BSC'' \<or> network = ''EVM'') \<and>
     IsHexAddress eth (cc_To req) \<and>
     (AllowedContractCalls cfg \<noteq> {} \<longrightarrow> ToUpper (TrimSpace (cc_To req)) \<in> AllowedContractCalls cfg) \<and>
     8 \<le> length (TrimPrefix (TrimSpace (cc_Data req)) ''0x'') \<and>
     ToLower (take 8 (TrimPrefix (TrimSpace (cc_Data req)) ''0x'')) = multicall3Aggregate3Selector \<and>
     (TrimSpace (cc_Amount req) \<noteq> [] \<longrightarrow>
       (\<exists>amount. ParseFloat (TrimSpace (cc_Amount req)) = Some amount \<and> \<not> amount \<le> Fin 0 \<and>
          \<not> (MaxTransferAmount cfg > Fin 0 \<and> amount > MaxTransferAmount cfg))) \<and>
     (let token = TrimSpace (cc_TokenContract req) in
        token \<noteq> [] \<longrightarrow> IsHexAddress eth token \<and>
          (AllowedTokenContracts cfg \<noteq> {} \<longrightarrow> ToUpper token \<in> AllowedTokenContracts cfg))"
  unfolding validateContractCallPolicy_def Let_def
  by (cases "ParseFloat (TrimSpace (cc_Amount req))") auto

lemma requestedNetwork_canonical:
  "requestedNetwork cfg req \<notin> {''BINANCE'', ''BEP20'', ''ETHEREUM''}"
  by (simp add: requestedNetwork_def Let_def)

end
