(* ===== verification/Go_Time.thy ===== *)
theory Go_Time
  imports Go_Strings
begin

text \<open>
  \<open>time.Parse\<close> of Go's standard library for the layouts \<open>RFC3339\<close> and \<open>RFC3339Nano\<close>, which accept the
  same texts: a date, the letter T, a time with an optional fraction of a second, and Z or an
  offset from UTC. The result is the instant in nanoseconds since the Unix epoch.
\<close>

section \<open>Calendar\<close>

definition isLeap :: "int \<Rightarrow> bool" where
  "isLeap y = (y mod 4 = 0 \<and> (y mod 100 \<noteq> 0 \<or> y mod 400 = 0))"

definition daysIn :: "int \<Rightarrow> int \<Rightarrow> int" where
  "daysIn m y = (if m = 2 then (if isLeap y then 29 else 28) else if m \<in> {4, 6, 9, 11} then 30 else 31)"

text \<open>Days before the first of January of a year, and before a month within its year.\<close>

definition daysBeforeYear :: "int \<Rightarrow> int" where
  "daysBeforeYear y = (let z = y - 1 in 365 * z + z div 4 - z div 100 + z div 400)"

definition daysBeforeMonth :: "int \<Rightarrow> int \<Rightarrow> int" where
  "daysBeforeMonth m y = sum_list (map (\<lambda>k. daysIn (int k) y) [1..<nat m])"

definition unixDays :: "int \<Rightarrow> int \<Rightarrow> int \<Rightarrow> int" where
  "unixDays y m d = daysBeforeYear y + daysBeforeMonth m y + (d - 1) - daysBeforeYear 1970"

section \<open>Parsing\<close>

text \<open>A fixed number of digits; for the hour one digit is enough.\<close>

definition takeDigits :: "nat \<Rightarrow> string \<Rightarrow> (int \<times> string) option" where
  "takeDigits n s = (if length s \<ge> n \<and> list_all isDigit (take n s) then Some (digitsVal (take n s), drop n s) else None)"

definition takeHour :: "string \<Rightarrow> (int \<times> string) option" where
  "takeHour s = (case takeDigits 2 s of Some r \<Rightarrow> Some r | None \<Rightarrow> takeDigits 1 s)"

definition expectChar :: "char \<Rightarrow> string \<Rightarrow> string option" where
  "expectChar c s = (case s of [] \<Rightarrow> None | d # t \<Rightarrow> if d = c then Some t else None)"

text \<open>The fraction of a second: nine digits count, more are dropped.\<close>

definition takeFraction :: "string \<Rightarrow> int \<times> string" where
  "takeFraction s = (case s of
     c # d # t \<Rightarrow> if (c = CHR ''.'' \<or> c = CHR '','') \<and> isDigit d
       then (let ds = takeWhile isDigit (d # t) in
             (digitsVal (take 9 ds) * 10 ^ (9 - length (take 9 ds)), dropWhile isDigit (d # t)))
       else (0, s)
   | _ \<Rightarrow> (0, s))"

definition takeZone :: "string \<Rightarrow> (int \<times> string) option" where
  "takeZone s = (case s of
     [] \<Rightarrow> None
   | c # t \<Rightarrow>
       if c = CHR ''Z'' then Some (0, t)
       else if c \<noteq> CHR ''+'' \<and> c \<noteq> CHR ''-'' then None
       else Option.bind (takeDigits 2 t) (\<lambda>(hh, t1).
         Option.bind (expectChar CHR '':'' t1) (\<lambda>t2.
         Option.bind (takeDigits 2 t2) (\<lambda>(mm, t3).
           if hh > 24 \<or> mm > 60 then None
           else Some ((if c = CHR ''-'' then - 1 else 1) * (hh * 3600 + mm * 60), t3)))))"

definition parseDate :: "string \<Rightarrow> (int \<times> string) option" where
  "parseDate s =
     Option.bind (takeDigits 4 s) (\<lambda>(y, s1).
     Option.bind (expectChar CHR ''-'' s1) (\<lambda>s2.
     Option.bind (takeDigits 2 s2) (\<lambda>(m, s3).
     Option.bind (expectChar CHR ''-'' s3) (\<lambda>s4.
     Option.bind (takeDigits 2 s4) (\<lambda>(d, s5).
       if m < 1 \<or> m > 12 \<or> d < 1 \<or> d > daysIn m y then None else Some (unixDays y m d, s5))))))"

definition parseClock :: "string \<Rightarrow> (int \<times> string) option" where
  "parseClock s =
     Option.bind (takeHour s) (\<lambda>(hh, s1).
     Option.bind (expectChar CHR '':'' s1) (\<lambda>s2.
     Option.bind (takeDigits 2 s2) (\<lambda>(mm, s3).
     Option.bind (expectChar CHR '':'' s3) (\<lambda>s4.
     Option.bind (takeDigits 2 s4) (\<lambda>(ss, s5).
       if hh > 23 \<or> mm > 59 \<or> ss > 59 then None else Some (hh * 3600 + mm * 60 + ss, s5))))))"

definition parseRFC3339 :: "string \<Rightarrow> instant option" where
  "parseRFC3339 s =
     Option.bind (parseDate s) (\<lambda>(days, s1).
     Option.bind (expectChar CHR ''T'' s1) (\<lambda>s2.
     Option.bind (parseClock s2) (\<lambda>(secs, s3). (let (frac, s4) = takeFraction s3 in
     Option.bind (takeZone s4) (\<lambda>(offset, s5).
       if s5 = [] then Some ((days * 86400 + secs - offset) * second + frac) else None)))))"

lemma unixDays_epoch: "unixDays 1970 1 1 = 0"
  by (simp add: unixDays_def daysBeforeMonth_def)

end
