(* ===== verification/Amounts.thy ===== *)
theory Amounts
  imports Policy Go_Time
begin

text \<open>
  Model of the pure helpers of \<open>src/main.go\<close> (lines 1074-1089 and 1137-1300): amounts in base units,
  the call data of an ERC-20 transfer and of a vault payout, the settlement operation id, and the
  decoding of call data. A panic of the source is \<open>None\<close>.
\<close>

section \<open>Definitions\<close>

definition parseFloatAmount :: "string \<Rightarrow> f64 result" where
  "parseFloatAmount value = (let trimmed = TrimSpace value in
     if trimmed = [] then Inl (Err ''amount invalido'')
     else case ParseFloat trimmed of
       None \<Rightarrow> Inl (Err ''amount invalido'')
     | Some out \<Rightarrow> if out \<le> Fin 0 then Inl (Err ''amount invalido'') else Inr out)"

definition padRight0 :: "nat \<Rightarrow> string \<Rightarrow> string" where
  "padRight0 n s = s @ replicate (n - length s) CHR ''0''"

definition parseUnits :: "string \<Rightarrow> int \<Rightarrow> int result" where
  "parseUnits value decimals =
     (if decimals < 0 \<or> decimals > 30 then Inl (Err ''decimais invalidos'')
      else let parts = Split (TrimSpace value) CHR ''.'' in
        if length parts > 2 \<or> parts ! 0 = [] then Inl (Err ''amount invalido'')
        else case SetString10 (parts ! 0) of
          None \<Rightarrow> Inl (Err ''amount invalido'')
        | Some w \<Rightarrow> (let whole = w * 10 ^ nat decimals in
            if length parts = 1 then Inr whole
            else let
              cut = (if int (length (parts ! 1)) > decimals then take (nat decimals) (parts ! 1) else parts ! 1);
              fraction = padRight0 (nat decimals) cut
              in if fraction = [] then Inr whole
                 else case SetString10 fraction of
                   None \<Rightarrow> Inl (Err ''amount invalido'')
                 | Some fracUnits \<Rightarrow> Inr (whole + fracUnits)))"

text \<open>\<open>copy(dst[i:], src)\<close> on a slice: the bytes of \<open>src\<close> that fit, from position \<open>i\<close> on.\<close>

definition copyAt :: "nat \<Rightarrow> byte list \<Rightarrow> byte list \<Rightarrow> byte list" where
  "copyAt i src dst = take i dst @ take (length dst - i) src @ drop (i + length src) dst"

definition erc20Selector :: "byte list" where
  "erc20Selector = [0xa9, 0x05, 0x9c, 0xbb]"

definition erc20TransferData :: "address \<Rightarrow> int \<Rightarrow> byte list option" where
  "erc20TransferData to amount = (let
     data = copyAt 16 (take 20 to) (copyAt 0 erc20Selector (replicate 68 0));
     amountBytes = bigBytes amount
     in if length amountBytes > 68 then None else Some (copyAt (68 - length amountBytes) amountBytes data))"

definition settlementOperationID ::
    "geth \<Rightarrow> int \<Rightarrow> string \<Rightarrow> string \<Rightarrow> string \<Rightarrow> string \<Rightarrow> int \<Rightarrow> hash result" where
  "settlementOperationID eth chainID vaultAddress settlementIntentID tokenAddress recipientAddress amountRaw =
     (if chainID \<le> 0 then Inl (Err ''chainId invalido'')
      else if \<not> IsHexAddress eth vaultAddress then Inl (Err ''vault EVM invalido'')
      else if \<not> IsHexAddress eth tokenAddress then Inl (Err ''token EVM invalido'')
      else if \<not> IsHexAddress eth recipientAddress then Inl (Err ''recipient EVM invalido'')
      else if amountRaw \<le> 0 then Inl (Err ''amountRaw invalido'')
      else case AbiPack eth [AbiUint256 chainID, AbiAddress (HexToAddress eth vaultAddress),
          AbiBytes32 (Keccak256 eth (stringBytes settlementIntentID)), AbiAddress (HexToAddress eth tokenAddress),
          AbiAddress (HexToAddress eth recipientAddress), AbiUint256 amountRaw] of
        Inl e \<Rightarrow> Inl e
      | Inr encoded \<Rightarrow> Inr (Keccak256 eth encoded))"

definition vaultPayoutData :: "geth \<Rightarrow> hash \<Rightarrow> address \<Rightarrow> address \<Rightarrow> int \<Rightarrow> byte list result" where
  "vaultPayoutData eth operationID token recipient amount =
     (case AbiPack eth [AbiBytes32 operationID, AbiAddress token, AbiAddress recipient, AbiUint256 amount] of
        Inl e \<Rightarrow> Inl e
      | Inr encoded \<Rightarrow> Inr (take 4 (Keccak256 eth (stringBytes ''payout(bytes32,address,address,uint256)'')) @ encoded))"

definition decodeHexData :: "string \<Rightarrow> byte list result" where
  "decodeHexData value = (let trimmed = TrimPrefix (TrimSpace value) ''0x'' in
     if trimmed = [] \<or> length trimmed mod 2 \<noteq> 0 then Inl (Err ''data hex invalido'')
     else case hexDecodeString trimmed of
       None \<Rightarrow> Inl (Err ''data hex invalido'')
     | Some data \<Rightarrow> Inr data)"

definition requestedContractNetwork :: "SignerConfig \<Rightarrow> ContractCallRequest \<Rightarrow> string" where
  "requestedContractNetwork cfg req = requestedNetwork cfg \<lparr>tr_To = [], tr_Amount = [], tr_TokenContract = [],
     tr_Network = cc_Network req, tr_IdempotencyKey = [], tr_DerivationIndex = None\<rparr>"

fun firstNonEmptySigner :: "string list \<Rightarrow> string" where
  "firstNonEmptySigner [] = []"
| "firstNonEmptySigner (value # values) =
     (if TrimSpace value \<noteq> [] then value else firstNonEmptySigner values)"

definition shortValue :: "string \<Rightarrow> string" where
  "shortValue value = (if length value \<le> 12 then value
     else take 6 value @ ''...'' @ drop (length value - 4) value)"

section \<open>Lemmas\<close>

lemma SetString10_digits:
  assumes "ds \<noteq> []" and "list_all isDigit ds"
  shows "SetString10 ds = Some (digitsVal ds)"
proof -
  obtain c t where c: "ds = c # t" using assms(1) by (cases ds) auto
  with assms(2) have "isDigit c" by simp
  then have "c \<noteq> CHR ''+''" "c \<noteq> CHR ''-''" by (auto simp: isDigit_def)
  then have "takeSign ds = (False, ds)" by (simp add: takeSign_def c)
  with assms show ?thesis by (simp add: SetString10_def)
qed

lemma digit_not_space: "isDigit c \<Longrightarrow> \<not> isSpace c" "isDigit c \<Longrightarrow> c \<noteq> CHR ''.''"
  by (auto simp: isDigit_def isSpace_def)

lemma digitsVal_padRight0:
  "length s \<le> n \<Longrightarrow> digitsVal (padRight0 n s) = digitsVal s * 10 ^ (n - length s)"
  by (simp add: padRight0_def digitsVal_append digitsVal_replicate_0)

lemma isDigit_zero: "isDigit CHR ''0''"
  by (simp add: isDigit_def)

lemma padRight0_digits: "list_all isDigit s \<Longrightarrow> list_all isDigit (padRight0 n s)"
  by (simp add: padRight0_def list_all_iff set_replicate_conv_if isDigit_zero)

lemma TrimSpace_decimal:
  "list_all isDigit a \<Longrightarrow> list_all isDigit b \<Longrightarrow> TrimSpace (a @ CHR ''.'' # b) = a @ CHR ''.'' # b"
proof (rule TrimSpace_no_space)
  assume "list_all isDigit a" "list_all isDigit b"
  moreover have "\<not> isSpace CHR ''.''" by (simp add: isSpace_def)
  ultimately show "list_all (\<lambda>c. \<not> isSpace c) (a @ CHR ''.'' # b)"
    using digit_not_space(1) by (auto simp: list_all_iff)
qed

lemma no_dot: "list_all isDigit a \<Longrightarrow> CHR ''.'' \<notin> set a"
  using digit_not_space(2) by (auto simp: list_all_iff)

lemma Split_decimal:
  assumes "list_all isDigit a" and "list_all isDigit b"
  shows "Split (a @ CHR ''.'' # b) CHR ''.'' = [a, b]"
  using Split_append [OF no_dot [OF assms(1)]] Split_no_sep [OF no_dot [OF assms(2)]] by simp

lemma length_copyAt: "i + length src \<le> length dst \<Longrightarrow> length (copyAt i src dst) = length dst"
  by (simp add: copyAt_def)

lemma copyAt_tail:
  assumes "length p = 36" and "length src \<le> 32"
  shows "copyAt (68 - length src) src (p @ replicate 32 0) = p @ replicate (32 - length src) 0 @ src"
proof -
  have "68 - length src - 36 = 32 - length src" using assms(2) by simp
  with assms show ?thesis by (simp add: copyAt_def min_def)
qed

text \<open>The call data in its three parts.\<close>

lemma erc20TransferData_parts:
  assumes "length to = 20" and "0 \<le> amount" and "amount < 2 ^ 256"
  shows "\<exists>pad. erc20TransferData to amount = Some (erc20Selector @ replicate 12 0 @ to @ replicate pad 0 @ bigBytes amount) \<and>
    pad + length (bigBytes amount) = 32"
proof -
  have "(256 :: int) ^ 32 = 2 ^ 256" by simp
  then have l: "length (bigBytes amount) \<le> 32" using assms(2,3) length_bigBytes [of amount 32] by simp
  have d: "copyAt 16 (take 20 to) (copyAt 0 erc20Selector (replicate 68 0)) =
      (erc20Selector @ replicate 12 0 @ to) @ replicate 32 0"
    using assms(1) by (simp add: copyAt_def erc20Selector_def numeral_eq_Suc)
  have len: "length (erc20Selector @ replicate 12 0 @ to) = 36" using assms(1) by (simp add: erc20Selector_def)
  with l d copyAt_tail [OF len l] show ?thesis
    by (intro exI [of _ "32 - length (bigBytes amount)"]) (simp add: erc20TransferData_def Let_def)
qed

section \<open>Properties\<close>

text \<open>
  C26: \<open>parseUnits\<close> is exact on plain decimals: a whole part and a fraction of digits, the fraction no
  longer than the decimals, give whole part times the scale plus the fraction scaled up.
\<close>

theorem parseUnits_exact:
  assumes "a \<noteq> []" and "list_all isDigit a" and "list_all isDigit b"
    and "int (length b) \<le> decimals" and "decimals \<le> 30"
  shows "parseUnits (a @ ''.'' @ b) decimals =
    Inr (digitsVal a * 10 ^ nat decimals + digitsVal b * 10 ^ (nat decimals - length b))"
proof -
  have len: "length b \<le> nat decimals" using assms(4) by simp
  have split: "Split (TrimSpace (a @ CHR ''.'' # b)) CHR ''.'' = [a, b]"
    using assms(2,3) by (simp add: TrimSpace_decimal Split_decimal)
  have frac: "SetString10 (padRight0 (nat decimals) b) = Some (digitsVal b * 10 ^ (nat decimals - length b))"
    if "padRight0 (nat decimals) b \<noteq> []"
    using that SetString10_digits [OF that padRight0_digits [OF assms(3)]] digitsVal_padRight0 [OF len] by simp
  have none: "digitsVal b = 0" if "padRight0 (nat decimals) b = []"
    using that by (simp add: padRight0_def)
  show ?thesis
    using assms(1,4,5) split frac none SetString10_digits [OF assms(1,2)]
    by (auto simp: parseUnits_def Let_def not_less)
qed

theorem parseUnits_exact_witness: "parseUnits (''12'' @ ''.'' @ ''5'') 6 = Inr 12500000"
  using parseUnits_exact [of "''12''" "''5''" 6] by (simp add: isDigit_def digitsVal_def digitVal_def)

text \<open>
  A longer fraction is cut, never rounded up: the result is the whole number of base units not
  above the exact value, so the signer never sends more than the decimal says.
\<close>

theorem parseUnits_truncates:
  assumes "a \<noteq> []" and "list_all isDigit a" and "list_all isDigit b"
    and "0 < decimals" and "decimals < int (length b)" and "decimals \<le> 30"
  shows "\<exists>v. parseUnits (a @ ''.'' @ b) decimals = Inr v \<and>
    v * 10 ^ (length b - nat decimals) \<le> digitsVal a * 10 ^ length b + digitsVal b \<and>
    digitsVal a * 10 ^ length b + digitsVal b < (v + 1) * 10 ^ (length b - nat decimals)"
proof -
  define n where "n = nat decimals"
  have n: "0 < n" "n < length b" using assms(4,5) by (simp_all add: n_def)
  have split: "Split (TrimSpace (a @ CHR ''.'' # b)) CHR ''.'' = [a, b]"
    using assms(2,3) by (simp add: TrimSpace_decimal Split_decimal)
  have t: "take n b \<noteq> []" "list_all isDigit (take n b)" "list_all isDigit (drop n b)" "padRight0 n (take n b) = take n b"
    using n assms(3) by (auto simp: list_all_iff padRight0_def dest: in_set_takeD in_set_dropD)
  have "parseUnits (a @ ''.'' @ b) decimals = Inr (digitsVal a * 10 ^ n + digitsVal (take n b))"
    using assms split t SetString10_digits [OF assms(1,2)] SetString10_digits [OF t(1,2)]
    by (simp add: parseUnits_def Let_def n_def)
  moreover have "digitsVal b = digitsVal (take n b) * 10 ^ (length b - n) + digitsVal (drop n b)"
    using digitsVal_append [of "take n b" "drop n b"] by simp
  moreover have "(10 :: int) ^ length b = 10 ^ n * 10 ^ (length b - n)"
    using n(2) by (simp flip: power_add)
  moreover have "0 \<le> digitsVal (drop n b)" "digitsVal (drop n b) < 10 ^ (length b - n)"
    using digitsVal_bounds [OF t(3)] by simp_all
  ultimately show ?thesis by (simp add: n_def algebra_simps)
qed

theorem parseUnits_truncates_witness: "\<exists>v. parseUnits (''1'' @ ''.'' @ ''239'') 2 = Inr v \<and> v * 10 \<le> 1239 \<and> 1239 < (v + 1) * 10"
  using parseUnits_truncates [of "''1''" "''239''" 2] by (simp add: isDigit_def digitsVal_def digitVal_def)

text \<open>
  C25: The call data of an ERC-20 transfer carries what was asked: with an address of twenty bytes and an
  amount below \<open>2^256\<close>, the data is 68 bytes long, starts with the selector of \<open>transfer\<close>, and its two
  words read back as the recipient and the amount.
\<close>

theorem erc20TransferData_roundtrip:
  assumes "length to = 20" and "0 \<le> amount" and "amount < 2 ^ 256"
  shows "\<exists>data. erc20TransferData to amount = Some data \<and> length data = 68 \<and> take 4 data = erc20Selector \<and>
    take 20 (drop 16 data) = to \<and> bytesVal (drop 36 data) = amount"
proof -
  from erc20TransferData_parts [OF assms] obtain pad where
    d: "erc20TransferData to amount = Some (erc20Selector @ replicate 12 0 @ to @ replicate pad 0 @ bigBytes amount)"
    and p: "pad + length (bigBytes amount) = 32" by blast
  moreover have "bytesVal (replicate pad 0 @ bigBytes amount) = amount"
    using assms(2) by (simp add: bytesVal_append bytesVal_bigBytes)
  ultimately show ?thesis using assms(1) by (simp add: erc20Selector_def)
qed

theorem erc20TransferData_roundtrip_witness:
  "\<exists>data. erc20TransferData (replicate 20 7) 1000 = Some data \<and> length data = 68 \<and> take 4 data = erc20Selector \<and>
    take 20 (drop 16 data) = replicate 20 7 \<and> bytesVal (drop 36 data) = 1000"
  by (rule erc20TransferData_roundtrip) simp_all

text \<open>
  \<open>parseUnits\<close> cuts the fraction before it checks it, so an exponent after the kept digits is ignored:
  the text reads as one token for the transfer policy, whose limit here is ten, and as a thousand tokens
  for the transaction.
\<close>

theorem parseUnits_ignores_exponent:
  "ParseFloat ''1000.000000000000000000e-3'' = Some (Fin 1) \<and>
   parseUnits ''1000.000000000000000000e-3'' 18 = Inr (1000 * 10 ^ 18)"
  by code_simp

end
