(* ===== verification/Store_Contracts.thy ===== *)
theory Store_Contracts
  imports Signer_Types
begin

text \<open>
  What the signer relies on from its stores, as interfaces: a store of request nonces
  (\<open>nonce_acceptor\<close>), an idempotency store (\<open>claim_store\<close>) and a dispenser of chain nonces
  (\<open>nonce_reserver\<close>). The clients' arguments are proved once inside the locales: no replay while a
  nonce lives, at most one execution per idempotency key under any interleaving of requests, and
  no chain nonce handed out twice. The stores interpret them in \<open>Signer_Store\<close>.
\<close>

section \<open>Interleaved requests on an idempotency store\<close>

text \<open>
  The handlers of \<open>src/main.go\<close> claim the request's idempotency key, execute, and then save the
  response or release the claim. Requests run concurrently, and a call on the store is one step here. That is exact for
  the store in memory, whose lock covers a call; on the database it is an assumption, because \<open>ClaimResult\<close> is a SELECT
  followed by an INSERT, each its own transaction (\<open>pg_claim_statements_race\<close> in \<open>Signer_Store\<close> shows what that admits). A
  request is a small automaton: \<open>Running\<close> holds a claim, \<open>Sent\<close> has executed
  successfully. \<open>pay_log\<close> lists the successful executions in order. In between the store may change by \<open>other\<close>
  steps: what executions, the custody guard, the monitor and readiness probes do to it.
\<close>

datatype phase = Idle | Running string | Sent string TransferResponse | Finished

record 's payState =
  pay_store :: 's
  pay_phase :: "nat \<Rightarrow> phase"
  pay_log :: "(string \<times> TransferResponse) list"

type_synonym 's claim_op = "string \<Rightarrow> 's \<Rightarrow> (TransferResponse \<times> bool \<times> bool) result \<times> 's"
type_synonym 's save_op = "string \<Rightarrow> TransferResponse \<Rightarrow> 's \<Rightarrow> error option \<times> 's"
type_synonym 's release_op = "string \<Rightarrow> 's \<Rightarrow> error option \<times> 's"

inductive pay_step ::
    "'s claim_op \<Rightarrow> 's save_op \<Rightarrow> 's release_op \<Rightarrow> ('s \<Rightarrow> 's \<Rightarrow> bool) \<Rightarrow> 's payState \<Rightarrow> 's payState \<Rightarrow> bool"
  for claim :: "'s claim_op" and save :: "'s save_op" and release :: "'s release_op" and other :: "'s \<Rightarrow> 's \<Rightarrow> bool" where
  claimed: "pay_phase p i = Idle \<Longrightarrow> claim k (pay_store p) = (Inr (r, False, True), s) \<Longrightarrow>
     pay_step claim save release other p (p\<lparr>pay_store := s, pay_phase := (pay_phase p)(i := Running k)\<rparr>)"
| replayed: "pay_phase p i = Idle \<Longrightarrow> claim k (pay_store p) = (Inr (r, True, c), s) \<Longrightarrow>
     pay_step claim save release other p (p\<lparr>pay_store := s, pay_phase := (pay_phase p)(i := Finished)\<rparr>)"
| busy: "pay_phase p i = Idle \<Longrightarrow> claim k (pay_store p) = (Inr (r, False, False), s) \<Longrightarrow>
     pay_step claim save release other p (p\<lparr>pay_store := s, pay_phase := (pay_phase p)(i := Finished)\<rparr>)"
| claim_error: "pay_phase p i = Idle \<Longrightarrow> claim k (pay_store p) = (Inl e, s) \<Longrightarrow>
     pay_step claim save release other p (p\<lparr>pay_store := s, pay_phase := (pay_phase p)(i := Finished)\<rparr>)"
| executed: "pay_phase p i = Running k \<Longrightarrow>
     pay_step claim save release other p
       (p\<lparr>pay_phase := (pay_phase p)(i := Sent k r), pay_log := pay_log p @ [(k, r)]\<rparr>)"
| exec_failed: "pay_phase p i = Running k \<Longrightarrow> release k (pay_store p) = (e, s) \<Longrightarrow>
     pay_step claim save release other p (p\<lparr>pay_store := s, pay_phase := (pay_phase p)(i := Finished)\<rparr>)"
| saved: "pay_phase p i = Sent k r \<Longrightarrow> save k r (pay_store p) = (e, s) \<Longrightarrow>
     pay_step claim save release other p (p\<lparr>pay_store := s, pay_phase := (pay_phase p)(i := Finished)\<rparr>)"
| elsewhere: "other (pay_store p) s \<Longrightarrow> pay_step claim save release other p (p\<lparr>pay_store := s\<rparr>)"

definition pay_init :: "'s \<Rightarrow> 's payState" where
  "pay_init s = \<lparr>pay_store = s, pay_phase = (\<lambda>_. Idle), pay_log = []\<rparr>"

definition executions :: "string \<Rightarrow> 's payState \<Rightarrow> TransferResponse list" where
  "executions k p = map snd (filter (\<lambda>x. fst x = k) (pay_log p))"

definition holds_key :: "'s payState \<Rightarrow> nat \<Rightarrow> string \<Rightarrow> bool" where
  "holds_key p i k = (pay_phase p i = Running k \<or> (\<exists>r. pay_phase p i = Sent k r))"

datatype keyState = Free | Claimed | Done TransferResponse

locale claim_store =
  fixes claim :: "'s claim_op"
    and save :: "'s save_op"
    and release :: "'s release_op"
    and other :: "'s \<Rightarrow> 's \<Rightarrow> bool"
    and view :: "'s \<Rightarrow> string \<Rightarrow> keyState"
  assumes claim_won: "k \<noteq> [] \<Longrightarrow> claim k s = (Inr (r, False, True), s') \<Longrightarrow> view s k = Free \<and> view s' k = Claimed"
    and claim_done: "k \<noteq> [] \<Longrightarrow> claim k s = (Inr (r, True, c), s') \<Longrightarrow> view s k = Done r \<and> view s' k = Done r"
    and claim_busy: "k \<noteq> [] \<Longrightarrow> claim k s = (Inr (r, False, False), s') \<Longrightarrow> view s' k = view s k"
    and claim_err: "k \<noteq> [] \<Longrightarrow> claim k s = (Inl err, s') \<Longrightarrow>
      view s' k = view s k \<or> view s k = Free \<and> view s' k = Claimed"
    and save_claimed: "k \<noteq> [] \<Longrightarrow> view s k = Claimed \<Longrightarrow> save k r s = (e, s') \<Longrightarrow>
      view s' k = Done r \<or> e \<noteq> None \<and> view s' k = Claimed"
    and release_claimed: "k \<noteq> [] \<Longrightarrow> view s k = Claimed \<Longrightarrow> release k s = (e, s') \<Longrightarrow>
      view s' k = Free \<or> e \<noteq> None \<and> view s' k = Claimed"
    and claim_frame: "k' \<noteq> k \<Longrightarrow> k' \<noteq> [] \<Longrightarrow> claim k s = (x, s') \<Longrightarrow> view s' k' = view s k'"
    and save_frame: "k' \<noteq> k \<Longrightarrow> k' \<noteq> [] \<Longrightarrow> save k r s = (e, s') \<Longrightarrow> view s' k' = view s k'"
    and release_frame: "k' \<noteq> k \<Longrightarrow> k' \<noteq> [] \<Longrightarrow> release k s = (e, s') \<Longrightarrow> view s' k' = view s k'"
    and other_frame: "k \<noteq> [] \<Longrightarrow> other s s' \<Longrightarrow> view s' k = view s k"
begin

text \<open>
  The invariant for one key: at most one request holds it and then the store says \<open>Claimed\<close>; a key
  that has been executed is never free again and no request is about to execute it a second
  time; a stored response is the response of that execution.
\<close>

definition key_inv :: "'s payState \<Rightarrow> string \<Rightarrow> bool" where
  "key_inv p k = (
     (\<forall>i j. holds_key p i k \<longrightarrow> holds_key p j k \<longrightarrow> i = j) \<and>
     (\<forall>i. holds_key p i k \<longrightarrow> view (pay_store p) k = Claimed) \<and>
     length (executions k p) \<le> 1 \<and>
     (executions k p \<noteq> [] \<longrightarrow> view (pay_store p) k \<noteq> Free \<and> (\<forall>i. pay_phase p i \<noteq> Running k)) \<and>
     (\<forall>i r. pay_phase p i = Sent k r \<longrightarrow> executions k p = [r]) \<and>
     (\<forall>r. view (pay_store p) k = Done r \<longrightarrow> executions k p = [r]))"

lemmas claim_laws = claim_won claim_done claim_busy claim_err claim_frame
lemmas write_laws = save_claimed release_claimed save_frame release_frame

lemma key_inv_init: "view s k = Free \<Longrightarrow> key_inv (pay_init s) k"
  by (simp add: key_inv_def pay_init_def executions_def holds_key_def)

text \<open>A step of one request whose phase no longer holds the key, on a store whose view of it is unchanged.\<close>

lemma key_inv_other:
  assumes "key_inv p k" and "view s k = view (pay_store p) k"
    and "ph \<noteq> Running k" and "\<And>r. ph \<noteq> Sent k r"
  shows "key_inv (p\<lparr>pay_store := s, pay_phase := (pay_phase p)(i := ph)\<rparr>) k"
  using assms unfolding key_inv_def holds_key_def executions_def by auto

lemma key_inv_idle_claim:
  assumes "key_inv p k" and "\<And>i. \<not> holds_key p i k" and "view s k = Claimed" and "view (pay_store p) k = Free"
  shows "key_inv (p\<lparr>pay_store := s, pay_phase := (pay_phase p)(i := Running k)\<rparr>) k"
    and "key_inv (p\<lparr>pay_store := s, pay_phase := (pay_phase p)(i := Finished)\<rparr>) k"
  using assms unfolding key_inv_def holds_key_def executions_def by auto

lemma free_not_held: "key_inv p k \<Longrightarrow> view (pay_store p) k = Free \<Longrightarrow> \<not> holds_key p i k"
  by (auto simp: key_inv_def)

lemma key_inv_step:
  assumes "pay_step claim save release other p p'" and "k \<noteq> []" and "key_inv p k"
  shows "key_inv p' k"
  using assms(1)
proof (cases rule: pay_step.cases)
  case (claimed i k' r s)
  show ?thesis
  proof (cases "k' = k")
    case True
    with claimed assms(2) have "view (pay_store p) k = Free" "view s k = Claimed"
      using claim_won by auto
    with claimed True assms(3) show ?thesis
      by (simp add: key_inv_idle_claim free_not_held)
  next
    case False
    with claimed assms(2) have "view s k = view (pay_store p) k"
      using claim_frame by metis
    with claimed False assms(3) show ?thesis
      by (simp add: key_inv_other)
  qed
next
  case (replayed i k' r c s)
  have "view s k = view (pay_store p) k"
    using replayed assms(2) claim_done [of k] claim_frame [of k k'] by (cases "k' = k") auto
  with replayed assms(3) show ?thesis by (simp add: key_inv_other)
next
  case (busy i k' r s)
  have "view s k = view (pay_store p) k"
    using busy assms(2) claim_busy [of k] claim_frame [of k k'] by (cases "k' = k") auto
  with busy assms(3) show ?thesis by (simp add: key_inv_other)
next
  case (claim_error i k' e s)
  have "view s k = view (pay_store p) k \<or> view (pay_store p) k = Free \<and> view s k = Claimed"
    using claim_error assms(2) claim_err [of k] claim_frame [of k k'] by (cases "k' = k") auto
  with claim_error assms(3) show ?thesis
    by (auto simp: key_inv_other key_inv_idle_claim free_not_held)
next
  case (executed i k' r)
  show ?thesis
  proof (cases "k' = k")
    case True
    have "executions k p = []"
      using assms(3) executed True by (auto simp: key_inv_def)
    with executed True assms(3) show ?thesis
      unfolding key_inv_def holds_key_def executions_def by auto
  next
    case False
    with executed assms(3) show ?thesis
      unfolding key_inv_def holds_key_def executions_def by auto
  qed
next
  case (exec_failed i k' e s)
  show ?thesis
  proof (cases "k' = k")
    case True
    then have held: "holds_key p i k" using exec_failed by (simp add: holds_key_def)
    with assms(3) have "view (pay_store p) k = Claimed" by (auto simp: key_inv_def)
    with exec_failed True assms(2) have "view s k = Free \<or> view s k = Claimed"
      using release_claimed by blast
    with held exec_failed True assms(3) show ?thesis
      unfolding key_inv_def holds_key_def executions_def by auto
  next
    case False
    with exec_failed assms(2) have "view s k = view (pay_store p) k"
      using release_frame by metis
    with exec_failed assms(3) show ?thesis by (simp add: key_inv_other)
  qed
next
  case (saved i k' r e s)
  show ?thesis
  proof (cases "k' = k")
    case True
    then have held: "holds_key p i k" using saved by (simp add: holds_key_def)
    with assms(3) have "view (pay_store p) k = Claimed" by (auto simp: key_inv_def)
    with saved True assms(2) have "view s k = Done r \<or> view s k = Claimed"
      using save_claimed by blast
    with held saved True assms(3) show ?thesis
      unfolding key_inv_def holds_key_def executions_def by auto
  next
    case False
    with saved assms(2) have "view s k = view (pay_store p) k"
      using save_frame by metis
    with saved assms(3) show ?thesis by (simp add: key_inv_other)
  qed
next
  case (elsewhere s)
  with other_frame [OF assms(2)] assms(3) show ?thesis
    by (simp add: key_inv_def holds_key_def executions_def)
qed

lemma key_inv_reachable:
  assumes "(pay_step claim save release other)\<^sup>*\<^sup>* (pay_init s) p" and "k \<noteq> []" and "view s k = Free"
  shows "key_inv p k"
  using assms(1)
proof (induction rule: rtranclp_induct)
  case base
  show ?case using assms(3) by (rule key_inv_init)
next
  case (step q r)
  then show ?case using assms(2) key_inv_step by blast
qed

lemma at_most_one_execution:
  assumes "(pay_step claim save release other)\<^sup>*\<^sup>* (pay_init s) p" and "k \<noteq> []" and "view s k = Free"
  shows "length (executions k p) \<le> 1"
  using key_inv_reachable [OF assms] by (simp add: key_inv_def)

text \<open>A key that is settled is not executed at all.\<close>

definition settled_inv :: "'s payState \<Rightarrow> string \<Rightarrow> TransferResponse \<Rightarrow> bool" where
  "settled_inv p k r = (view (pay_store p) k = Done r \<and> (\<forall>i. \<not> holds_key p i k) \<and> executions k p = [])"

lemma settled_inv_step:
  assumes "pay_step claim save release other p p'" and "k \<noteq> []" and "settled_inv p k r"
  shows "settled_inv p' k r"
proof -
  have s: "view (pay_store p) k = Done r" and h: "\<And>i. pay_phase p i \<noteq> Running k" "\<And>i x. pay_phase p i \<noteq> Sent k x"
    using assms(3) by (auto simp: settled_inv_def holds_key_def)
  have claims: "view s' k = Done r \<and> (k' = k \<longrightarrow> x \<noteq> Inr (y, False, True))"
    if "claim k' (pay_store p) = (x, s')" for k' x s' y
  proof (cases "k' = k")
    case True
    note c = that [unfolded True]
    show ?thesis
    proof (cases x)
      case (Inl e)
      with c claim_err [OF assms(2)] s show ?thesis by fastforce
    next
      case (Inr z)
      obtain y' d cl where "z = (y', d, cl)" by (metis prod_cases3)
      with c Inr s claim_won [OF assms(2)] claim_done [OF assms(2)] claim_busy [OF assms(2)] show ?thesis
        by (cases d; cases cl) auto
    qed
  qed (use that s claim_frame assms(2) in metis)
  have lost: False if "claim k (pay_store p) = (Inr (y, False, True), s')" for y s'
    using claims [OF that] by blast
  have released: "view s' k = Done r" if "pay_phase p i = Running k'" "release k' (pay_store p) = (e, s')" for i k' e s'
    using that s h release_frame [of k k'] assms(2) by metis
  have saved: "view s' k = Done r" if "pay_phase p i = Sent k' y" "save k' y (pay_store p) = (e, s')" for i k' y e s'
    using that s h save_frame [of k k'] assms(2) by metis
  from assms(1) show ?thesis
    by (cases rule: pay_step.cases)
      (use assms(3) s h claims lost released saved other_frame [OF assms(2)] in
        \<open>auto simp: settled_inv_def holds_key_def executions_def\<close>)
qed

lemma settled_not_executed:
  assumes "(pay_step claim save release other)\<^sup>*\<^sup>* (pay_init s) p" and "k \<noteq> []" and "view s k = Done r"
  shows "executions k p = []"
proof -
  have "settled_inv p k r"
    using assms(1)
  proof (induction rule: rtranclp_induct)
    case base
    show ?case using assms(3) by (simp add: settled_inv_def pay_init_def holds_key_def executions_def)
  qed (use assms(2) settled_inv_step in blast)
  then show ?thesis by (simp add: settled_inv_def)
qed

lemma replay_returns_execution:
  assumes "(pay_step claim save release other)\<^sup>*\<^sup>* (pay_init s) p" and "k \<noteq> []" and "view s k = Free"
    and "claim k (pay_store p) = (Inr (r, True, c), s')"
  shows "executions k p = [r]"
  using key_inv_reachable [OF assms(1-3)] claim_done [OF assms(2,4)] by (simp add: key_inv_def)

end

section \<open>Request nonces\<close>

type_synonym 's accept_op = "instant \<Rightarrow> string \<Rightarrow> duration \<Rightarrow> 's \<Rightarrow> bool result \<times> 's"

text \<open>A sequence of calls, each with its time, nonce and lifetime.\<close>

definition accept_all :: "'s accept_op \<Rightarrow> (instant \<times> string \<times> duration) list \<Rightarrow> 's \<Rightarrow> 's" where
  "accept_all accept calls s = foldl (\<lambda>s (now, nonce, ttl). snd (accept now nonce ttl s)) s calls"

locale nonce_acceptor =
  fixes accept :: "'s accept_op"
    and seen :: "'s \<Rightarrow> string \<rightharpoonup> instant"
    and life :: "duration \<Rightarrow> duration"
  assumes accept_fresh: "accept now n ttl s = (Inr True, s') \<Longrightarrow> seen s' n = Some (now + life ttl)"
    and accept_seen: "seen s n = Some e \<Longrightarrow> now \<le> e \<Longrightarrow> accept now n ttl s = (r, s') \<Longrightarrow> r \<noteq> Inr True"
    and accept_keeps: "seen s n = Some e \<Longrightarrow> now \<le> e \<Longrightarrow> accept now m ttl s = (r, s') \<Longrightarrow> seen s' n = Some e"
begin

lemma accept_all_keeps:
  "seen s n = Some e \<Longrightarrow> \<forall>(now, m, ttl) \<in> set calls. now \<le> e \<Longrightarrow> seen (accept_all accept calls s) n = Some e"
proof (induction calls arbitrary: s)
  case Nil
  then show ?case by (simp add: accept_all_def)
next
  case (Cons c calls)
  obtain now m ttl where c: "c = (now, m, ttl)" by (cases c)
  have "seen (snd (accept now m ttl s)) n = Some e"
    using accept_keeps [of s n e now m ttl "fst (accept now m ttl s)" "snd (accept now m ttl s)"] Cons.prems c
    by simp
  with Cons.IH [of "snd (accept now m ttl s)"] Cons.prems(2) show ?case
    by (simp add: accept_all_def c)
qed

lemma no_replay:
  assumes "accept t n ttl s = (Inr True, s1)"
    and "\<forall>(now, m, d) \<in> set calls. now \<le> t + life ttl" and "t2 \<le> t + life ttl"
  shows "fst (accept t2 n ttl2 (accept_all accept calls s1)) \<noteq> Inr True"
  using accept_all_keeps [OF accept_fresh [OF assms(1)] assms(2)] accept_seen assms(3)
  by (metis prod.collapse)

end

section \<open>Chain nonces\<close>

type_synonym 's reserve_op = "string \<Rightarrow> string \<Rightarrow> 64 word \<Rightarrow> 's \<Rightarrow> 64 word result \<times> 's"

text \<open>
  The nonces handed out by a sequence of reservations for one wallet on one network, with
  the pending nonce the chain reported for each; a failed reservation hands out nothing.
\<close>

fun reserve_all :: "'s reserve_op \<Rightarrow> string \<Rightarrow> string \<Rightarrow> 64 word list \<Rightarrow> 's \<Rightarrow> 64 word list" where
  "reserve_all resv w n [] s = []"
| "reserve_all resv w n (p # ps) s = (case resv w n p s of
     (Inl e, s') \<Rightarrow> reserve_all resv w n ps s'
   | (Inr x, s') \<Rightarrow> x # reserve_all resv w n ps s')"

locale nonce_reserver =
  fixes resv :: "'s reserve_op"
    and used :: "'s \<Rightarrow> string \<Rightarrow> string \<Rightarrow> 64 word set"
    and ok :: "'s \<Rightarrow> bool"
  assumes reserve_new: "ok s \<Longrightarrow> resv w n p s = (Inr x, s') \<Longrightarrow> x \<notin> used s w n \<and> p \<le> x"
    and reserve_used: "ok s \<Longrightarrow> resv w n p s = (Inr x, s') \<Longrightarrow> insert x (used s w n) \<subseteq> used s' w n"
    and reserve_error: "ok s \<Longrightarrow> resv w n p s = (Inl e, s') \<Longrightarrow> used s w n \<subseteq> used s' w n \<and> ok s'"
    and reserve_ok: "ok s \<Longrightarrow> resv w n p s = (Inr x, s') \<Longrightarrow> x \<noteq> - 1 \<Longrightarrow> ok s'"
begin

lemma reserve_all_fresh:
  "ok s \<Longrightarrow> - 1 \<notin> set (reserve_all resv w n ps s) \<Longrightarrow>
    distinct (reserve_all resv w n ps s) \<and> set (reserve_all resv w n ps s) \<inter> used s w n = {}"
proof (induction ps arbitrary: s)
  case Nil
  then show ?case by simp
next
  case (Cons p ps)
  obtain r s' where r: "resv w n p s = (r, s')" by fastforce
  show ?case
  proof (cases r)
    case (Inl e)
    with r reserve_error [OF Cons.prems(1)] have "used s w n \<subseteq> used s' w n" "ok s'" by auto
    with Cons.IH [of s'] Cons.prems(2) r Inl show ?thesis by auto
  next
    case (Inr x)
    with r Cons.prems have x: "x \<notin> used s w n" "insert x (used s w n) \<subseteq> used s' w n" "x \<noteq> - 1"
      using reserve_new reserve_used by auto
    with r Inr Cons.prems(1) have "ok s'" using reserve_ok by blast
    with Cons.IH [of s'] Cons.prems(2) r Inr x show ?thesis by auto
  qed
qed

lemma reserve_all_distinct:
  "ok s \<Longrightarrow> - 1 \<notin> set (reserve_all resv w n ps s) \<Longrightarrow> distinct (reserve_all resv w n ps s)"
  using reserve_all_fresh by blast

end

end
