(* ===== verification/Memory_Store.thy ===== *)
theory Memory_Store
  imports Signer_Types "HOL-Library.AList"
begin

text \<open>
  Model of \<open>memorySignerStore\<close> (\<open>src/store.go\<close>, lines 419-606), the signer's store without a
  database. Its mutex makes every method atomic, so a method is a function from the store to its
  result and the next store; \<open>time.Now()\<close> is the argument \<open>now\<close>. The field \<open>ms_iter\<close> is the order in
  which a \<open>range\<close> over the transactions visits them, which Go leaves open.
\<close>

section \<open>State\<close>

record memorySignerStore =
  ms_nonces :: "string \<rightharpoonup> instant"
  ms_results :: "string \<rightharpoonup> TransferResponse"
  ms_locks :: "string set"
  ms_chainNonces :: "string \<rightharpoonup> 64 word"
  ms_transactions :: "(string \<times> SignerTransaction) list"
  ms_activeIncident :: "CustodyIncident option"
  ms_events :: "CustodyEvent list"
  ms_iter :: "SignerTransaction list \<Rightarrow> SignerTransaction list"

definition newMemorySignerStore ::
    "(SignerTransaction list \<Rightarrow> SignerTransaction list) \<Rightarrow> memorySignerStore" where
  "newMemorySignerStore iter = \<lparr>ms_nonces = Map.empty, ms_results = Map.empty, ms_locks = {},
     ms_chainNonces = Map.empty, ms_transactions = [], ms_activeIncident = None, ms_events = [],
     ms_iter = iter\<rparr>"

section \<open>Request nonces\<close>

definition mem_AcceptNonce ::
    "instant \<Rightarrow> string \<Rightarrow> duration \<Rightarrow> memorySignerStore \<Rightarrow> bool result \<times> memorySignerStore" where
  [step_defs]: "mem_AcceptNonce now nonce ttl s = (let nonces = map_drop (\<lambda>expires. now > expires) (ms_nonces s) in
     if nonces nonce \<noteq> None then (Inr False, s\<lparr>ms_nonces := nonces\<rparr>)
     else (Inr True, s\<lparr>ms_nonces := nonces(nonce \<mapsto> time_Add now ttl)\<rparr>))"

section \<open>Idempotency\<close>

definition mem_GetResult ::
    "string \<Rightarrow> memorySignerStore \<Rightarrow> (TransferResponse \<times> bool) result \<times> memorySignerStore" where
  "mem_GetResult key s = (case ms_results s key of
     Some resp \<Rightarrow> (Inr (resp, True), s) | None \<Rightarrow> (Inr (emptyResponse, False), s))"

definition mem_ClaimResult ::
    "string \<Rightarrow> memorySignerStore \<Rightarrow> (TransferResponse \<times> bool \<times> bool) result \<times> memorySignerStore" where
  [step_defs]: "mem_ClaimResult key s =
     (if key = [] then (Inr (emptyResponse, False, True), s)
      else case ms_results s key of
        Some resp \<Rightarrow> (Inr (resp, True, False), s)
      | None \<Rightarrow>
          if key \<in> ms_locks s then (Inr (emptyResponse, False, False), s)
          else (Inr (emptyResponse, False, True), s\<lparr>ms_locks := insert key (ms_locks s)\<rparr>))"

definition mem_SaveResult ::
    "string \<Rightarrow> TransferResponse \<Rightarrow> memorySignerStore \<Rightarrow> error option \<times> memorySignerStore" where
  [step_defs]: "mem_SaveResult key resp s =
     (if key = [] then (None, s)
      else (None, s\<lparr>ms_results := (ms_results s)(key \<mapsto> resp), ms_locks := ms_locks s - {key}\<rparr>))"

definition mem_ReleaseClaim :: "string \<Rightarrow> memorySignerStore \<Rightarrow> error option \<times> memorySignerStore" where
  [step_defs]: "mem_ReleaseClaim key s =
     (if key = [] then (None, s) else (None, s\<lparr>ms_locks := ms_locks s - {key}\<rparr>))"

section \<open>Custody events and incidents\<close>

definition mem_RecordCustodyEvent ::
    "CustodyEvent \<Rightarrow> memorySignerStore \<Rightarrow> error option \<times> memorySignerStore" where
  [step_defs]: "mem_RecordCustodyEvent event s = (None, s\<lparr>ms_events := ms_events s @ [event]\<rparr>)"

definition mem_OpenCustodyIncident ::
    "instant \<Rightarrow> string \<Rightarrow> string \<Rightarrow> memorySignerStore \<Rightarrow> error option \<times> memorySignerStore" where
  [step_defs]: "mem_OpenCustodyIncident now reason mode s = (None,
     if ms_activeIncident s = None
     then s\<lparr>ms_activeIncident := Some \<lparr>inc_ID = 1, inc_Reason = reason, inc_Mode = mode, inc_CreatedAt = now\<rparr>\<rparr>
     else s)"

definition mem_ActiveCustodyIncident ::
    "memorySignerStore \<Rightarrow> CustodyIncident option result \<times> memorySignerStore" where
  [step_defs]: "mem_ActiveCustodyIncident s = (Inr (ms_activeIncident s), s)"

definition mem_ResolveCustodyIncident ::
    "string \<Rightarrow> memorySignerStore \<Rightarrow> error option \<times> memorySignerStore" where
  [step_defs]: "mem_ResolveCustodyIncident note s = (None, s\<lparr>ms_activeIncident := None\<rparr>)"

section \<open>Chain nonces\<close>

definition chainNonceKey :: "string \<Rightarrow> string \<Rightarrow> string" where
  "chainNonceKey wallet network = wallet @ ''|'' @ network"

definition mem_ReserveChainNonce ::
    "string \<Rightarrow> string \<Rightarrow> 64 word \<Rightarrow> memorySignerStore \<Rightarrow> 64 word result \<times> memorySignerStore" where
  [step_defs]: "mem_ReserveChainNonce wallet network chainPending s = (let
     key = chainNonceKey wallet network;
     nxt = (case ms_chainNonces s key of
       Some current \<Rightarrow> if current + 1 > chainPending then current + 1 else chainPending
     | None \<Rightarrow> chainPending)
     in (Inr nxt, s\<lparr>ms_chainNonces := (ms_chainNonces s)(key \<mapsto> nxt)\<rparr>))"

definition mem_MarkChainNonceSubmitted ::
    "string \<Rightarrow> string \<Rightarrow> 64 word \<Rightarrow> string \<Rightarrow> memorySignerStore \<Rightarrow> error option \<times> memorySignerStore" where
  [step_defs]: "mem_MarkChainNonceSubmitted wallet network nonce txHash s = (None, s)"

definition mem_MarkChainNonceFailed ::
    "string \<Rightarrow> string \<Rightarrow> 64 word \<Rightarrow> string \<Rightarrow> memorySignerStore \<Rightarrow> error option \<times> memorySignerStore" where
  [step_defs]: "mem_MarkChainNonceFailed wallet network nonce reason s = (None, s)"

section \<open>Transactions\<close>

definition mem_CreateSignerTransaction ::
    "SignerTransaction \<Rightarrow> memorySignerStore \<Rightarrow> error option \<times> memorySignerStore" where
  [step_defs]: "mem_CreateSignerTransaction item s =
     (None, s\<lparr>ms_transactions := AList.update (stx_TxHash item) item (ms_transactions s)\<rparr>)"

definition mem_MarkSignerTransactionStatus ::
    "string \<Rightarrow> string \<Rightarrow> string \<Rightarrow> 64 word \<Rightarrow> memorySignerStore \<Rightarrow> error option \<times> memorySignerStore" where
  [step_defs]: "mem_MarkSignerTransactionStatus txHash status reason confirmations s =
     (case map_of (ms_transactions s) txHash of
        None \<Rightarrow> (None, s)
      | Some item \<Rightarrow> (None, s\<lparr>ms_transactions := AList.update txHash
          (item\<lparr>stx_Status := status, stx_Reason := reason, stx_Confirmations := confirmations\<rparr>)
          (ms_transactions s)\<rparr>))"

text \<open>
  The loop of \<open>ListOpenSignerTransactions\<close>: \<open>out\<close> is the slice collected so far; the loop breaks
  once a positive limit is reached.
\<close>

fun listOpenLoop :: "int \<Rightarrow> SignerTransaction list \<Rightarrow> SignerTransaction list \<Rightarrow> SignerTransaction list" where
  "listOpenLoop limit out [] = out"
| "listOpenLoop limit out (item # items) =
     (if stx_Status item = ''submitted'' \<or> stx_Status item = ''signed''
      then (if limit > 0 \<and> int (length (out @ [item])) \<ge> limit then out @ [item]
            else listOpenLoop limit (out @ [item]) items)
      else listOpenLoop limit out items)"

definition mem_ListOpenSignerTransactions ::
    "int \<Rightarrow> memorySignerStore \<Rightarrow> SignerTransaction list result \<times> memorySignerStore" where
  [step_defs]: "mem_ListOpenSignerTransactions limit s =
     (Inr (listOpenLoop limit [] (ms_iter s (map snd (ms_transactions s)))), s)"

text \<open>Adding the parsed amounts of a list of transactions; an amount that does not parse is skipped.\<close>

definition addAmount :: "f64 \<Rightarrow> string \<Rightarrow> f64" where
  "addAmount acc raw = (case ParseFloat raw of Some value \<Rightarrow> acc + value | None \<Rightarrow> acc)"

definition sumAmounts :: "string list \<Rightarrow> f64" where
  "sumAmounts raws = foldl addAmount (Fin 0) raws"

definition countsAsOutflow :: "string \<Rightarrow> string \<Rightarrow> SignerTransaction \<Rightarrow> bool" where
  "countsAsOutflow token network item = (\<not> (stx_Token item \<noteq> token \<or> stx_Network item \<noteq> network \<or>
     (stx_Status item \<noteq> ''submitted'' \<and> stx_Status item \<noteq> ''confirmed'')))"

definition mem_DailySubmittedOutflow ::
    "string \<Rightarrow> string \<Rightarrow> memorySignerStore \<Rightarrow> f64 result \<times> memorySignerStore" where
  [step_defs]: "mem_DailySubmittedOutflow token network s =
     (Inr (sumAmounts (map stx_Amount (filter (countsAsOutflow token network)
        (ms_iter s (map snd (ms_transactions s)))))), s)"

definition mem_Ready :: "memorySignerStore \<Rightarrow> error option \<times> memorySignerStore" where
  [step_defs]: "mem_Ready s = (None, s)"

end
