(* ===== verification/Postgres_Store.thy ===== *)
theory Postgres_Store
  imports Memory_Store
begin

text \<open>
  Model of \<open>postgresSignerStore\<close> (\<open>src/store.go\<close>, lines 85-417): the SQL statements of the source run
  against tables. Every statement may fail: \<open>pg_faults\<close> lists the outcome of the statements to
  come, \<open>None\<close> for success and \<open>Some (applied, e)\<close> for an error the client sees, with \<open>applied\<close>
  telling whether the server had already carried the statement out (a connection lost after
  the commit). An empty list means no further fault. \<open>now\<close> is the database clock, whose session time
  zone is UTC, and \<open>pg_iter\<close> is the row order of a query without \<open>ORDER BY\<close>. \<open>pg_relations\<close> are the tables and
  indexes that exist and \<open>pg_incidentSeq\<close> the last value of the sequence behind the ids of incidents.
\<close>

section \<open>Tables\<close>

record pgIncident =
  pi_id :: int
  pi_reason :: string
  pi_mode :: string
  pi_resolvedAt :: "instant option"
  pi_note :: string
  pi_createdAt :: instant

record pgChainNonce =
  pn_wallet :: string
  pn_network :: string
  pn_nonce :: int
  pn_status :: string
  pn_txHash :: string
  pn_reason :: string

record pgTransaction =
  pt_item :: SignerTransaction
  pt_createdAt :: instant

text \<open>The tables and indexes of the schema, by their names.\<close>

datatype pgRelation =
  signer_nonces | signer_idempotency | signer_idempotency_locks | custody_events | custody_incidents
| signer_chain_nonces | signer_transactions | idx_custody_incidents_active | idx_signer_nonces_expires_at
| idx_signer_transactions_status | idx_signer_transactions_daily

type_synonym pgFault = "(bool \<times> error) option"

record pgStore =
  pg_relations :: "pgRelation set"
  pg_nonces :: "string \<rightharpoonup> instant"
  pg_idempotency :: "string \<rightharpoonup> TransferResponse"
  pg_locks :: "string set"
  pg_events :: "CustodyEvent list"
  pg_incidents :: "pgIncident list"
  pg_incidentSeq :: int
  pg_chainNonces :: "pgChainNonce list"
  pg_transactions :: "pgTransaction list"
  pg_faults :: "pgFault list"
  pg_iter :: "SignerTransaction list \<Rightarrow> SignerTransaction list"

definition newPgStore ::
    "pgFault list \<Rightarrow> (SignerTransaction list \<Rightarrow> SignerTransaction list) \<Rightarrow> pgStore" where
  "newPgStore faults iter = \<lparr>pg_relations = {}, pg_nonces = Map.empty, pg_idempotency = Map.empty, pg_locks = {},
     pg_events = [], pg_incidents = [], pg_incidentSeq = 0, pg_chainNonces = [], pg_transactions = [],
     pg_faults = faults, pg_iter = iter\<rparr>"

section \<open>Statements and transactions\<close>

text \<open>A statement is a function of the tables; it may itself answer with an error (a violated constraint).\<close>

definition popFault :: "pgStore \<Rightarrow> pgFault \<times> pgStore" where
  "popFault s = (case pg_faults s of [] \<Rightarrow> (None, s) | f # fs \<Rightarrow> (f, s\<lparr>pg_faults := fs\<rparr>))"

definition pgStmt :: "(pgStore \<Rightarrow> 'a result \<times> pgStore) \<Rightarrow> pgStore \<Rightarrow> 'a result \<times> pgStore" where
  "pgStmt f s0 = (case popFault s0 of
     (None, s) \<Rightarrow> f s
   | (Some (applied, e), s) \<Rightarrow> (Inl e, if applied then snd (f s) else s))"

text \<open>
  \<open>BeginTx\<close>, the body, then \<open>Commit\<close>, with the deferred \<open>Rollback\<close> undoing the body when it
  fails. A rollback restores the tables and leaves the remaining faults.
\<close>

definition rollbackTo :: "pgStore \<Rightarrow> pgStore \<Rightarrow> pgStore" where
  "rollbackTo s0 s = s0\<lparr>pg_faults := pg_faults s\<rparr>"

definition pgTx :: "(pgStore \<Rightarrow> 'a result \<times> pgStore) \<Rightarrow> pgStore \<Rightarrow> 'a result \<times> pgStore" where
  "pgTx body s0 = (case pgStmt (\<lambda>s. (Inr (), s)) s0 of
     (Inl e, s1) \<Rightarrow> (Inl e, s1)
   | (Inr _, s1) \<Rightarrow> (case body s1 of
       (Inl e, s2) \<Rightarrow> (Inl e, rollbackTo s1 s2)
     | (Inr a, s2) \<Rightarrow> (case popFault s2 of
         (None, s3) \<Rightarrow> (Inr a, s3)
       | (Some (applied, e), s3) \<Rightarrow> (Inl e, if applied then s3 else rollbackTo s1 s3))))"

definition errorOf :: "'a result \<Rightarrow> error option" where
  "errorOf r = (case r of Inl e \<Rightarrow> Some e | Inr _ \<Rightarrow> None)"

section \<open>Request nonces\<close>

definition insertNonce :: "instant \<Rightarrow> string \<Rightarrow> duration \<Rightarrow> pgStore \<Rightarrow> int result \<times> pgStore" where
  "insertNonce now nonce ttl s =
     (if pg_nonces s nonce \<noteq> None then (Inr 0, s)
      else (Inr 1, s\<lparr>pg_nonces := (pg_nonces s)(nonce \<mapsto> now + f64ToInt (durationSeconds ttl) * second)\<rparr>))"

definition deleteExpired :: "instant \<Rightarrow> pgStore \<Rightarrow> unit result \<times> pgStore" where
  "deleteExpired now s = (Inr (), s\<lparr>pg_nonces := map_drop (\<lambda>e. e < now) (pg_nonces s)\<rparr>)"

definition pg_AcceptNonce :: "instant \<Rightarrow> string \<Rightarrow> duration \<Rightarrow> pgStore \<Rightarrow> bool result \<times> pgStore" where
  [step_defs]: "pg_AcceptNonce now nonce ttl s0 =
     (if nonce = [] then (Inr False, s0)
      else let s1 = snd (pgStmt (deleteExpired now) s0) in
        case pgStmt (insertNonce now nonce ttl) s1 of
          (Inl e, s2) \<Rightarrow> (Inl e, s2)
        | (Inr rows, s2) \<Rightarrow> (Inr (rows = 1), s2))"

section \<open>Idempotency\<close>

definition pg_GetResult :: "string \<Rightarrow> pgStore \<Rightarrow> (TransferResponse \<times> bool) result \<times> pgStore" where
  "pg_GetResult key s0 =
     (if key = [] then (Inr (emptyResponse, False), s0)
      else pgStmt (\<lambda>s. (Inr (case pg_idempotency s key of
        Some resp \<Rightarrow> (resp, True) | None \<Rightarrow> (emptyResponse, False)), s)) s0)"

definition insertLock :: "string \<Rightarrow> pgStore \<Rightarrow> int result \<times> pgStore" where
  "insertLock key s = (if key \<in> pg_locks s then (Inr 0, s)
     else (Inr 1, s\<lparr>pg_locks := insert key (pg_locks s)\<rparr>))"

definition pg_ClaimResult :: "string \<Rightarrow> pgStore \<Rightarrow> (TransferResponse \<times> bool \<times> bool) result \<times> pgStore" where
  [step_defs]: "pg_ClaimResult key s0 =
     (if key = [] then (Inr (emptyResponse, False, True), s0)
      else case pg_GetResult key s0 of
        (Inl e, s1) \<Rightarrow> (Inl e, s1)
      | (Inr (resp, ok), s1) \<Rightarrow>
          if ok then (Inr (resp, True, False), s1)
          else case pgStmt (insertLock key) s1 of
            (Inl e, s2) \<Rightarrow> (Inl e, s2)
          | (Inr rows, s2) \<Rightarrow> (Inr (emptyResponse, False, rows = 1), s2))"

definition deleteLock :: "string \<Rightarrow> pgStore \<Rightarrow> unit result \<times> pgStore" where
  "deleteLock key s = (Inr (), s\<lparr>pg_locks := pg_locks s - {key}\<rparr>)"

definition insertResult :: "string \<Rightarrow> TransferResponse \<Rightarrow> pgStore \<Rightarrow> unit result \<times> pgStore" where
  "insertResult key resp s = (Inr (), if pg_idempotency s key \<noteq> None then s
     else s\<lparr>pg_idempotency := (pg_idempotency s)(key \<mapsto> resp)\<rparr>)"

definition pg_SaveResult :: "string \<Rightarrow> TransferResponse \<Rightarrow> pgStore \<Rightarrow> error option \<times> pgStore" where
  [step_defs]: "pg_SaveResult key resp s0 =
     (if key = [] then (None, s0)
      else let (r, s) = pgTx (\<lambda>s1. case pgStmt (insertResult key resp) s1 of
             (Inl e, s2) \<Rightarrow> (Inl e, s2) | (Inr _, s2) \<Rightarrow> pgStmt (deleteLock key) s2) s0
           in (errorOf r, s))"

definition pg_ReleaseClaim :: "string \<Rightarrow> pgStore \<Rightarrow> error option \<times> pgStore" where
  [step_defs]: "pg_ReleaseClaim key s0 =
     (if key = [] then (None, s0)
      else let (r, s) = pgStmt (deleteLock key) s0 in (errorOf r, s))"

section \<open>Custody events and incidents\<close>

text \<open>\<open>json.Marshal\<close> of the event data fails on a float that is not finite.\<close>

definition marshalable :: "eventValue \<Rightarrow> bool" where
  "marshalable v = (case v of EvFloat f \<Rightarrow> isFin f | _ \<Rightarrow> True)"

definition insertEvent :: "CustodyEvent \<Rightarrow> pgStore \<Rightarrow> unit result \<times> pgStore" where
  "insertEvent event s = (Inr (), s\<lparr>pg_events := pg_events s @ [event]\<rparr>)"

definition pg_RecordCustodyEvent :: "CustodyEvent \<Rightarrow> pgStore \<Rightarrow> error option \<times> pgStore" where
  [step_defs]: "pg_RecordCustodyEvent event s0 =
     (if \<not> list_all (\<lambda>(k, v). marshalable v) (ev_Data event) then (Some (Err ''json: unsupported value''), s0)
      else let (r, s) = pgStmt (insertEvent event) s0 in (errorOf r, s))"

definition isActive :: "pgIncident \<Rightarrow> bool" where
  "isActive i = (pi_resolvedAt i = None)"

text \<open>The sequence behind the id is advanced even when the insertion meets an active incident.\<close>

definition insertIncident :: "instant \<Rightarrow> string \<Rightarrow> string \<Rightarrow> pgStore \<Rightarrow> unit result \<times> pgStore" where
  "insertIncident now reason mode s = (Inr (), if list_ex isActive (pg_incidents s)
     then s\<lparr>pg_incidentSeq := pg_incidentSeq s + 1\<rparr>
     else s\<lparr>pg_incidentSeq := pg_incidentSeq s + 1, pg_incidents := pg_incidents s @ [\<lparr>pi_id = pg_incidentSeq s + 1,
       pi_reason = reason, pi_mode = mode, pi_resolvedAt = None, pi_note = [], pi_createdAt = now\<rparr>]\<rparr>)"

definition pg_OpenCustodyIncident :: "instant \<Rightarrow> string \<Rightarrow> string \<Rightarrow> pgStore \<Rightarrow> error option \<times> pgStore" where
  [step_defs]: "pg_OpenCustodyIncident now reason mode s0 = (let
     (r, s) = pgStmt (insertIncident now reason mode) s0 in (errorOf r, s))"

definition incidentOf :: "pgIncident \<Rightarrow> CustodyIncident" where
  "incidentOf i = \<lparr>inc_ID = pi_id i, inc_Reason = pi_reason i, inc_Mode = pi_mode i, inc_CreatedAt = pi_createdAt i\<rparr>"

definition pg_ActiveCustodyIncident :: "pgStore \<Rightarrow> CustodyIncident option result \<times> pgStore" where
  [step_defs]: "pg_ActiveCustodyIncident s0 = pgStmt (\<lambda>s. (Inr (
     case sort_key (\<lambda>i. - pi_createdAt i) (filter isActive (pg_incidents s)) of
       [] \<Rightarrow> None | i # _ \<Rightarrow> Some (incidentOf i)), s)) s0"

definition resolveIncidents :: "instant \<Rightarrow> string \<Rightarrow> pgStore \<Rightarrow> unit result \<times> pgStore" where
  "resolveIncidents now note s = (Inr (), s\<lparr>pg_incidents := map (\<lambda>i. if isActive i
     then i\<lparr>pi_resolvedAt := Some now, pi_note := note\<rparr> else i) (pg_incidents s)\<rparr>)"

definition pg_ResolveCustodyIncident :: "instant \<Rightarrow> string \<Rightarrow> pgStore \<Rightarrow> error option \<times> pgStore" where
  [step_defs]: "pg_ResolveCustodyIncident now note s0 = (let
     (r, s) = pgStmt (resolveIncidents now note) s0 in (errorOf r, s))"

section \<open>Chain nonces\<close>

definition reservedNonces :: "string \<Rightarrow> string \<Rightarrow> pgStore \<Rightarrow> int list" where
  "reservedNonces wallet network s = map pn_nonce (filter (\<lambda>r. pn_wallet r = wallet \<and> pn_network r = network
     \<and> (pn_status r = ''reserved'' \<or> pn_status r = ''submitted'')) (pg_chainNonces s))"

text \<open>\<open>SELECT max(nonce)\<close>: no row gives SQL's NULL.\<close>

definition selectMaxNonce :: "string \<Rightarrow> string \<Rightarrow> pgStore \<Rightarrow> int option result \<times> pgStore" where
  "selectMaxNonce wallet network s = (Inr (case reservedNonces wallet network s of
     [] \<Rightarrow> None | n # ns \<Rightarrow> Some (foldl max n ns)), s)"

definition nextNonce :: "int option \<Rightarrow> 64 word \<Rightarrow> 64 word" where
  "nextNonce maxNonce chainPending = (case maxNonce of
     Some m \<Rightarrow> if (word_of_int m :: 64 word) + 1 > chainPending then word_of_int m + 1 else chainPending
   | None \<Rightarrow> chainPending)"

definition hasNonce :: "string \<Rightarrow> string \<Rightarrow> int \<Rightarrow> pgChainNonce \<Rightarrow> bool" where
  "hasNonce wallet network n r = (pn_wallet r = wallet \<and> pn_network r = network \<and> pn_nonce r = n)"

text \<open>
  The insertion of a reservation. The driver refuses an unsigned value with the high bit set, and
  the primary key refuses a second row for the same wallet, network and nonce.
\<close>

definition insertChainNonce :: "string \<Rightarrow> string \<Rightarrow> 64 word \<Rightarrow> pgStore \<Rightarrow> unit result \<times> pgStore" where
  "insertChainNonce wallet network nonce s =
     (if uint nonce \<ge> 9223372036854775808
      then (Inl (Err ''sql: converting argument $3 type: uint64 values with high bit set are not supported''), s)
      else if list_ex (hasNonce wallet network (uint nonce)) (pg_chainNonces s)
      then (Inl (Err ''pq: duplicate key value violates unique constraint signer_chain_nonces_pkey''), s)
      else (Inr (), s\<lparr>pg_chainNonces := pg_chainNonces s @ [\<lparr>pn_wallet = wallet, pn_network = network,
        pn_nonce = uint nonce, pn_status = ''reserved'', pn_txHash = [], pn_reason = []\<rparr>]\<rparr>))"

definition reserveBody :: "string \<Rightarrow> string \<Rightarrow> 64 word \<Rightarrow> pgStore \<Rightarrow> 64 word result \<times> pgStore" where
  "reserveBody wallet network chainPending s0 = (case pgStmt (\<lambda>s. (Inr (), s)) s0 of
     (Inl e, s1) \<Rightarrow> (Inl e, s1)
   | (Inr _, s1) \<Rightarrow> (case pgStmt (selectMaxNonce wallet network) s1 of
       (Inl e, s2) \<Rightarrow> (Inl e, s2)
     | (Inr maxNonce, s2) \<Rightarrow> (let nxt = nextNonce maxNonce chainPending in
         case pgStmt (insertChainNonce wallet network nxt) s2 of
           (Inl e, s3) \<Rightarrow> (Inl e, s3)
         | (Inr _, s3) \<Rightarrow> (Inr nxt, s3))))"

definition pg_ReserveChainNonce ::
    "string \<Rightarrow> string \<Rightarrow> 64 word \<Rightarrow> pgStore \<Rightarrow> 64 word result \<times> pgStore" where
  [step_defs]: "pg_ReserveChainNonce wallet network chainPending s =
     pgTx (reserveBody wallet network chainPending) s"

definition updateChainNonce ::
    "string \<Rightarrow> string \<Rightarrow> 64 word \<Rightarrow> (pgChainNonce \<Rightarrow> pgChainNonce) \<Rightarrow> pgStore \<Rightarrow> unit result \<times> pgStore" where
  "updateChainNonce wallet network nonce g s =
     (if uint nonce \<ge> 9223372036854775808
      then (Inl (Err ''sql: converting argument $3 type: uint64 values with high bit set are not supported''), s)
      else (Inr (), s\<lparr>pg_chainNonces := map (\<lambda>r. if hasNonce wallet network (uint nonce) r then g r else r)
        (pg_chainNonces s)\<rparr>))"

definition setSubmitted :: "string \<Rightarrow> pgChainNonce \<Rightarrow> pgChainNonce" where
  "setSubmitted txHash r = r\<lparr>pn_status := ''submitted'', pn_txHash := txHash\<rparr>"

definition setFailed :: "string \<Rightarrow> pgChainNonce \<Rightarrow> pgChainNonce" where
  "setFailed reason r = r\<lparr>pn_status := ''failed'', pn_reason := reason\<rparr>"

definition pg_MarkChainNonceSubmitted ::
    "string \<Rightarrow> string \<Rightarrow> 64 word \<Rightarrow> string \<Rightarrow> pgStore \<Rightarrow> error option \<times> pgStore" where
  [step_defs]: "pg_MarkChainNonceSubmitted wallet network nonce txHash s0 = (let
     (r, s) = pgStmt (updateChainNonce wallet network nonce (setSubmitted txHash)) s0 in (errorOf r, s))"

definition pg_MarkChainNonceFailed ::
    "string \<Rightarrow> string \<Rightarrow> 64 word \<Rightarrow> string \<Rightarrow> pgStore \<Rightarrow> error option \<times> pgStore" where
  [step_defs]: "pg_MarkChainNonceFailed wallet network nonce reason s0 = (let
     (r, s) = pgStmt (updateChainNonce wallet network nonce (setFailed reason)) s0 in (errorOf r, s))"

section \<open>Transactions\<close>

definition sameTx :: "string \<Rightarrow> pgTransaction \<Rightarrow> bool" where
  "sameTx txHash r = (stx_TxHash (pt_item r) = txHash)"

definition tooBig :: "64 word \<Rightarrow> bool" where
  "tooBig x = (uint x \<ge> 9223372036854775808)"

definition setProgress :: "string \<Rightarrow> string \<Rightarrow> 64 word \<Rightarrow> pgTransaction \<Rightarrow> pgTransaction" where
  "setProgress status reason confirmations r = r\<lparr>pt_item := (pt_item r)\<lparr>stx_Status := status, stx_Reason := reason,
     stx_Confirmations := confirmations\<rparr>\<rparr>"

definition upsertTransaction :: "instant \<Rightarrow> SignerTransaction \<Rightarrow> pgStore \<Rightarrow> unit result \<times> pgStore" where
  "upsertTransaction now item s =
     (if tooBig (stx_Nonce item) \<or> tooBig (stx_Confirmations item)
      then (Inl (Err ''sql: uint64 values with high bit set are not supported''), s)
      else (Inr (), s\<lparr>pg_transactions :=
        (if list_ex (sameTx (stx_TxHash item)) (pg_transactions s)
         then map (\<lambda>r. if sameTx (stx_TxHash item) r
           then setProgress (stx_Status item) (stx_Reason item) (stx_Confirmations item) r else r) (pg_transactions s)
         else pg_transactions s @ [\<lparr>pt_item = item, pt_createdAt = now\<rparr>])\<rparr>))"

definition pg_CreateSignerTransaction ::
    "instant \<Rightarrow> SignerTransaction \<Rightarrow> pgStore \<Rightarrow> error option \<times> pgStore" where
  [step_defs]: "pg_CreateSignerTransaction now item s0 = (let
     (r, s) = pgStmt (upsertTransaction now item) s0 in (errorOf r, s))"

definition updateTransaction :: "string \<Rightarrow> string \<Rightarrow> string \<Rightarrow> 64 word \<Rightarrow> pgStore \<Rightarrow> unit result \<times> pgStore" where
  "updateTransaction txHash status reason confirmations s =
     (if tooBig confirmations
      then (Inl (Err ''sql: uint64 values with high bit set are not supported''), s)
      else (Inr (), s\<lparr>pg_transactions := map (\<lambda>r. if sameTx txHash r
        then setProgress status reason confirmations r else r) (pg_transactions s)\<rparr>))"

definition pg_MarkSignerTransactionStatus ::
    "string \<Rightarrow> string \<Rightarrow> string \<Rightarrow> 64 word \<Rightarrow> pgStore \<Rightarrow> error option \<times> pgStore" where
  [step_defs]: "pg_MarkSignerTransactionStatus txHash status reason confirmations s0 = (let
     (r, s) = pgStmt (updateTransaction txHash status reason confirmations) s0 in (errorOf r, s))"

definition pg_ListOpenSignerTransactions ::
    "int \<Rightarrow> pgStore \<Rightarrow> SignerTransaction list result \<times> pgStore" where
  [step_defs]: "pg_ListOpenSignerTransactions limit s0 = (let
     n = (if limit \<le> 0 \<or> limit > 100 then 50 else limit)
     in pgStmt (\<lambda>s. (Inr (take (nat n) (map pt_item (sort_key pt_createdAt
       (filter (\<lambda>r. stx_Status (pt_item r) = ''submitted'' \<or> stx_Status (pt_item r) = ''signed'')
         (pg_transactions s))))), s)) s0)"

text \<open>\<open>date_trunc('day', now())\<close>\<close>

definition dayStart :: "instant \<Rightarrow> instant" where
  "dayStart now = now - now mod (24 * hour)"

definition pg_DailySubmittedOutflow ::
    "instant \<Rightarrow> string \<Rightarrow> string \<Rightarrow> pgStore \<Rightarrow> f64 result \<times> pgStore" where
  [step_defs]: "pg_DailySubmittedOutflow now token network s0 =
     pgStmt (\<lambda>s. (Inr (sumAmounts (map stx_Amount (pg_iter s (map pt_item
       (filter (\<lambda>r. countsAsOutflow token network (pt_item r) \<and> pt_createdAt r \<ge> dayStart now)
         (pg_transactions s)))))), s)) s0"

text \<open>The statements that change a table, for the proofs that look inside.\<close>

lemmas sql_defs = insertNonce_def deleteExpired_def insertLock_def deleteLock_def insertResult_def insertEvent_def
  insertIncident_def resolveIncidents_def insertChainNonce_def updateChainNonce_def setSubmitted_def setFailed_def
  upsertTransaction_def updateTransaction_def setProgress_def tooBig_def

definition pg_Ready :: "pgStore \<Rightarrow> error option \<times> pgStore" where
  [step_defs]: "pg_Ready s0 = (let (r, s) = pgStmt (\<lambda>s. (Inr (), s)) s0 in (errorOf r, s))"

end
