(* ===== verification/Schema.thy ===== *)
theory Schema
  imports Postgres_Store
begin

text \<open>
  The migration of the database (\<open>migrate\<close>, \<open>src/store.go\<close>, lines 89-158) and the constraints it declares. Which tables and indexes
  exist is part of the state of the database; a table that exists is taken to have the columns of its
  declaration. The statements of \<open>Postgres_Store\<close> are those of a migrated database (\<open>openSignerStore\<close> migrates before
  anything else runs) and check the keys themselves; that these are the keys the script declares is proved here. The script is sent as one query, so the server runs it as one transaction. The locales
  \<open>table_relation\<close>, \<open>table_frame\<close>, \<open>table_reserve\<close> and \<open>table_claims\<close> carry facts about single SQL statements to the operations of the store.
\<close>

section \<open>The script\<close>

text \<open>
  One statement of the script: whether it says \<open>IF NOT EXISTS\<close>, the relation it creates, and, for a table, the columns of its
  primary key or, for an index, its table and columns. The unique index is over the constant \<open>true\<close> for the rows
  with no \<open>resolved_at\<close>.
\<close>

datatype ddl =
  CreateTable bool pgRelation "string list"
| CreateUniqueIndex bool pgRelation pgRelation
| CreateIndex bool pgRelation pgRelation "string list"

definition migration :: "ddl list" where
  "migration = [
     CreateTable True signer_nonces [''nonce''],
     CreateTable True signer_idempotency [''idempotency_key''],
     CreateTable True signer_idempotency_locks [''idempotency_key''],
     CreateTable True custody_events [''id''],
     CreateTable True custody_incidents [''id''],
     CreateUniqueIndex True idx_custody_incidents_active custody_incidents,
     CreateTable True signer_chain_nonces [''wallet'', ''network'', ''nonce''],
     CreateTable True signer_transactions [''tx_hash''],
     CreateIndex True idx_signer_nonces_expires_at signer_nonces [''expires_at''],
     CreateIndex True idx_signer_transactions_status signer_transactions [''status'', ''created_at''],
     CreateIndex True idx_signer_transactions_daily signer_transactions [''network'', ''token'', ''created_at'']]"

text \<open>A table that is created has no rows; the sequence of a new table of incidents starts afresh.\<close>

definition createTable :: "pgRelation \<Rightarrow> pgStore \<Rightarrow> pgStore" where
  "createTable name s = (case name of
     signer_nonces \<Rightarrow> s\<lparr>pg_nonces := Map.empty\<rparr>
   | signer_idempotency \<Rightarrow> s\<lparr>pg_idempotency := Map.empty\<rparr>
   | signer_idempotency_locks \<Rightarrow> s\<lparr>pg_locks := {}\<rparr>
   | custody_events \<Rightarrow> s\<lparr>pg_events := []\<rparr>
   | custody_incidents \<Rightarrow> s\<lparr>pg_incidents := [], pg_incidentSeq := 0\<rparr>
   | signer_chain_nonces \<Rightarrow> s\<lparr>pg_chainNonces := []\<rparr>
   | signer_transactions \<Rightarrow> s\<lparr>pg_transactions := []\<rparr>
   | _ \<Rightarrow> s)"

definition addRelation :: "pgRelation \<Rightarrow> pgStore \<Rightarrow> pgStore" where
  "addRelation name s = s\<lparr>pg_relations := insert name (pg_relations s)\<rparr>"

text \<open>
  A relation that exists is left alone with \<open>IF NOT EXISTS\<close> and an error without it; an index needs its table, and the
  unique index cannot be created over two unresolved incidents.
\<close>

definition alreadyExists :: "bool \<Rightarrow> pgStore \<Rightarrow> unit result \<times> pgStore" where
  "alreadyExists ifNotExists s = (if ifNotExists then Inr () else Inl (Err ''pq: relation already exists''), s)"

definition runDdl :: "ddl \<Rightarrow> pgStore \<Rightarrow> unit result \<times> pgStore" where
  "runDdl d s = (case d of
     CreateTable ifNotExists name _ \<Rightarrow>
       if name \<in> pg_relations s then alreadyExists ifNotExists s
       else (Inr (), addRelation name (createTable name s))
   | CreateUniqueIndex ifNotExists name table \<Rightarrow>
       if name \<in> pg_relations s then alreadyExists ifNotExists s
       else if table \<notin> pg_relations s then (Inl (Err ''pq: relation does not exist''), s)
       else if length (filter isActive (pg_incidents s)) > 1
       then (Inl (Err ''pq: could not create unique index idx_custody_incidents_active''), s)
       else (Inr (), addRelation name s)
   | CreateIndex ifNotExists name table _ \<Rightarrow>
       if name \<in> pg_relations s then alreadyExists ifNotExists s
       else if table \<notin> pg_relations s then (Inl (Err ''pq: relation does not exist''), s)
       else (Inr (), addRelation name s))"

fun runScript :: "ddl list \<Rightarrow> pgStore \<Rightarrow> unit result \<times> pgStore" where
  "runScript [] s = (Inr (), s)"
| "runScript (d # ds) s = (case runDdl d s of (Inl e, s1) \<Rightarrow> (Inl e, s1) | (Inr _, s1) \<Rightarrow> runScript ds s1)"

text \<open>The script as one transaction: an error undoes all of it.\<close>

definition execScript :: "ddl list \<Rightarrow> pgStore \<Rightarrow> unit result \<times> pgStore" where
  "execScript ds s = (case runScript ds s of (Inl e, _) \<Rightarrow> (Inl e, s) | (Inr _, s1) \<Rightarrow> (Inr (), s1))"

definition pg_migrate :: "pgStore \<Rightarrow> error option \<times> pgStore" where
  "pg_migrate s0 = (case pgStmt (\<lambda>s. (Inr (), s)) s0 of
     (Inl e, s1) \<Rightarrow> (Some e, s1)
   | (Inr _, s1) \<Rightarrow> (let (r, s) = pgStmt (execScript migration) s1 in (errorOf r, s)))"

section \<open>Statements of the database\<close>

text \<open>
  What a statement can do, whatever fault befalls it: run on the tables as they are, or fail
  with the tables either untouched or as the statement left them.
\<close>

lemma popFault_tables: "popFault s = (f, s') \<Longrightarrow> s' = s\<lparr>pg_faults := pg_faults s'\<rparr>"
  by (auto simp: popFault_def split: list.splits)

lemma pgStmt_cases:
  assumes "pgStmt f s = (r, s')"
  obtains fs where "f (s\<lparr>pg_faults := fs\<rparr>) = (r, s')"
  | fs e where "r = Inl e" "s' = s\<lparr>pg_faults := fs\<rparr>"
  | fs e where "r = Inl e" "s' = snd (f (s\<lparr>pg_faults := fs\<rparr>))"
proof -
  obtain x t where p: "popFault s = (x, t)" by fastforce
  then have t: "t = s\<lparr>pg_faults := pg_faults t\<rparr>" by (rule popFault_tables)
  show thesis
  proof (cases x)
    case None
    with assms p have "f t = (r, s')" by (simp add: pgStmt_def)
    with t that(1) show ?thesis by metis
  next
    case (Some y)
    obtain applied e where "y = (applied, e)" by fastforce
    with assms p Some have "r = Inl e" "s' = (if applied then snd (f t) else t)"
      by (simp_all add: pgStmt_def)
    with t that(2,3) show ?thesis by (cases applied) metis+
  qed
qed

text \<open>
  A transaction either commits, or fails with the tables as they were or, if the error came
  with the commit itself, as the body left them.
\<close>

lemma pgTx_cases:
  assumes "pgTx body s = (r, s')"
  obtains (committed) fs a t fs' where "body (s\<lparr>pg_faults := fs\<rparr>) = (Inr a, t)" "r = Inr a" "s' = t\<lparr>pg_faults := fs'\<rparr>"
  | (failed) fs e where "r = Inl e" "s' = s\<lparr>pg_faults := fs\<rparr>"
  | (late) fs a t fs' e where "body (s\<lparr>pg_faults := fs\<rparr>) = (Inr a, t)" "r = Inl e" "s' = t\<lparr>pg_faults := fs'\<rparr>"
proof -
  obtain b s1 where b: "pgStmt (\<lambda>s. (Inr (), s)) s = (b, s1)" by fastforce
  then obtain fs where s1: "s1 = s\<lparr>pg_faults := fs\<rparr>"
    by (rule pgStmt_cases) auto
  show thesis
  proof (cases b)
    case (Inl e)
    with assms b s1 have "r = Inl e" "s' = s\<lparr>pg_faults := fs\<rparr>" by (simp_all add: pgTx_def)
    then show ?thesis by (rule failed)
  next
    case (Inr u)
    obtain x s2 where x: "body s1 = (x, s2)" by fastforce
    show ?thesis
    proof (cases x)
      case (Inl e)
      with assms b Inr x s1 have "r = Inl e" "s' = s\<lparr>pg_faults := pg_faults s2\<rparr>"
        by (simp_all add: pgTx_def rollbackTo_def)
      then show ?thesis by (rule failed)
    next
      case x': (Inr a)
      obtain y s3 where y: "popFault s2 = (y, s3)" by fastforce
      then have s3: "s3 = s2\<lparr>pg_faults := pg_faults s3\<rparr>" by (rule popFault_tables)
      have body: "body (s\<lparr>pg_faults := fs\<rparr>) = (Inr a, s2)" using x x' s1 by simp
      show ?thesis
      proof (cases y)
        case None
        with assms b Inr x x' y have "r = Inr a" "s' = s3" by (simp_all add: pgTx_def)
        with committed [OF body] s3 show ?thesis by metis
      next
        case (Some z)
        obtain applied e where z: "z = (applied, e)" by fastforce
        with assms b Inr x x' y Some
        have r: "r = Inl e" and s': "s' = (if applied then s3 else rollbackTo s1 s3)"
          by (simp_all add: pgTx_def)
        show ?thesis
        proof (cases applied)
          case True
          with late [OF body r] s' s3 show ?thesis by metis
        next
          case False
          with failed [OF r] s' s1 show ?thesis by (simp add: rollbackTo_def)
        qed
      qed
    qed
  qed
qed

section \<open>From statements to operations\<close>

text \<open>
  A relation on databases that a change of the remaining faults respects. Statements that respect it make up
  operations that do, whatever faults befall them.
\<close>

locale table_relation =
  fixes Q :: "pgStore \<Rightarrow> pgStore \<Rightarrow> bool"
  assumes refl: "Q s s"
    and trans: "Q a b \<Longrightarrow> Q b c \<Longrightarrow> Q a c"
    and faults: "Q s (s\<lparr>pg_faults := fs\<rparr>)"
begin

lemma stmt_known:
  assumes "\<And>s. Q s (snd (f s))" and "pgStmt f s = (r, s')"
  shows "Q s s'"
proof -
  have f: "Q s (snd (f (s\<lparr>pg_faults := fs\<rparr>)))" for fs using faults assms(1) by (rule trans)
  from assms(2) show ?thesis by (cases rule: pgStmt_cases) (use f faults in \<open>metis snd_conv\<close>)+
qed

lemma stmt: "(\<And>s. Q s (snd (f s))) \<Longrightarrow> Q s (snd (pgStmt f s))"
  using stmt_known by (metis prod.collapse)

lemma tx:
  assumes "\<And>s. Q s (snd (body s))"
  shows "Q s (snd (pgTx body s))"
proof -
  obtain r s' where e: "pgTx body s = (r, s')" by fastforce
  have b: "Q s (t\<lparr>pg_faults := fs'\<rparr>)" if "body (s\<lparr>pg_faults := fs\<rparr>) = (x, t)" for fs fs' x t
    using trans [OF trans [OF faults assms] faults] that by (metis snd_conv)
  from e show ?thesis
    by (cases rule: pgTx_cases) (simp_all add: e b faults)
qed

lemma read_only: "(\<And>s. snd (f s) = s) \<Longrightarrow> Q s (snd (pgStmt f s))"
  by (rule stmt) (simp add: refl)

lemma pg_reads:
  "Q s (snd (pg_GetResult key s))" "Q s (snd (pg_ActiveCustodyIncident s))" "Q s (snd (pg_ListOpenSignerTransactions limit s))"
  "Q s (snd (pg_DailySubmittedOutflow now token network s))" "Q s (snd (pg_Ready s))"
  by (simp_all add: pg_GetResult_def pg_ActiveCustodyIncident_def pg_ListOpenSignerTransactions_def
      pg_DailySubmittedOutflow_def pg_Ready_def Let_def split_beta read_only refl)

end

locale table_frame = table_relation +
  assumes nonces: "Q s (s\<lparr>pg_nonces := m\<rparr>)"
    and events: "Q s (s\<lparr>pg_events := evs\<rparr>)"
    and insertIncident: "Q s (snd (insertIncident now reason mode s))"
    and resolveIncidents: "Q s (snd (resolveIncidents now memo s))"
    and submitted: "Q s (snd (updateChainNonce wallet network x (setSubmitted h) s))"
    and failed: "Q s (snd (updateChainNonce wallet network x (setFailed why) s))"
    and upsert: "Q s (snd (upsertTransaction now item s))"
    and update: "Q s (snd (updateTransaction h status why n s))"
begin

lemma pg_AcceptNonce: "Q s (snd (pg_AcceptNonce now n ttl s))"
proof -
  have "Q s (snd (pgStmt (deleteExpired now) s))" for s
    by (rule stmt) (simp add: deleteExpired_def nonces)
  moreover have "Q s (snd (pgStmt (insertNonce now n ttl) s))" for s
    by (rule stmt) (simp add: insertNonce_def nonces refl)
  ultimately show ?thesis
    by (auto simp: pg_AcceptNonce_def Let_def refl split: sum.splits prod.splits) (metis trans snd_conv)+
qed

lemma pg_writes:
  "Q s (snd (pg_RecordCustodyEvent ev s))"
  "Q s (snd (pg_OpenCustodyIncident now reason mode s))"
  "Q s (snd (pg_ResolveCustodyIncident now memo s))"
  "Q s (snd (pg_MarkChainNonceSubmitted wallet network x h s))"
  "Q s (snd (pg_MarkChainNonceFailed wallet network x why s))"
  "Q s (snd (pg_CreateSignerTransaction now item s))"
  "Q s (snd (pg_MarkSignerTransactionStatus h status why n s))"
  by (simp_all add: pg_RecordCustodyEvent_def pg_OpenCustodyIncident_def pg_ResolveCustodyIncident_def
      pg_MarkChainNonceSubmitted_def pg_MarkChainNonceFailed_def pg_CreateSignerTransaction_def
      pg_MarkSignerTransactionStatus_def split_beta insertEvent_def stmt refl events insertIncident resolveIncidents
      submitted failed upsert update)

end

locale table_reserve = table_frame +
  assumes insertChainNonce: "Q s (snd (insertChainNonce wallet network x s))"
begin

lemma pg_ReserveChainNonce: "Q s (snd (pg_ReserveChainNonce wallet network p s))"
proof -
  have a: "Q s s1" if "pgStmt (\<lambda>s. (Inr (), s)) s = (x, s1)" for s s1 and x :: "unit result"
    by (rule stmt_known [OF _ that]) (simp add: refl)
  have b: "Q s s1" if "pgStmt (selectMaxNonce wallet network) s = (x, s1)" for s s1 x
    by (rule stmt_known [OF _ that]) (simp add: selectMaxNonce_def refl)
  have c: "Q s s1" if "pgStmt (insertChainNonce wallet network n) s = (x, s1)" for s s1 n x
    by (rule stmt_known [OF _ that]) (rule insertChainNonce)
  have "Q s (snd (reserveBody wallet network p s))" for s
    by (auto simp: reserveBody_def Let_def split: sum.split prod.split dest!: a b c intro: trans)
  then show ?thesis unfolding pg_ReserveChainNonce_def by (rule tx)
qed

end

locale table_claims = table_relation +
  assumes locks: "Q s (s\<lparr>pg_locks := L\<rparr>)"
    and results: "Q s (s\<lparr>pg_idempotency := m\<rparr>)"
begin

lemma pg_claims:
  "Q s (snd (pg_ClaimResult key s))" "Q s (snd (pg_SaveResult key resp s))" "Q s (snd (pg_ReleaseClaim key s))"
proof -
  have a: "Q s s1" if "pg_GetResult key s = (x, s1)" for s s1 x using pg_reads(1) [of s key] that by simp
  have b: "Q s s1" if "pgStmt (insertLock key) s = (x, s1)" for s s1 x
    by (rule stmt_known [OF _ that]) (simp add: insertLock_def locks refl)
  have c: "Q s s1" if "pgStmt (deleteLock key) s = (x, s1)" for s s1 x
    by (rule stmt_known [OF _ that]) (simp add: deleteLock_def locks)
  have d: "Q s s1" if "pgStmt (insertResult key resp) s = (x, s1)" for s s1 x
    by (rule stmt_known [OF _ that]) (simp add: insertResult_def results refl)
  show "Q s (snd (pg_ClaimResult key s))"
    by (auto simp: pg_ClaimResult_def refl split: sum.split prod.split dest!: a b intro: trans)
  have "Q s (snd (case pgStmt (insertResult key resp) s of
      (Inl e, s2) \<Rightarrow> (Inl e, s2) | (Inr _, s2) \<Rightarrow> pgStmt (deleteLock key) s2))" for s
    by (auto split: sum.split prod.split dest!: d) (metis c trans prod.collapse)
  then show "Q s (snd (pg_SaveResult key resp s))" by (simp add: pg_SaveResult_def Let_def split_beta tx refl)
  show "Q s (snd (pg_ReleaseClaim key s))"
    by (auto simp: pg_ReleaseClaim_def refl split: prod.split dest!: c)
qed

end

section \<open>The constraints\<close>

definition chainKey :: "pgChainNonce \<Rightarrow> string \<times> string \<times> int" where
  "chainKey r = (pn_wallet r, pn_network r, pn_nonce r)"

definition bigint :: "int \<Rightarrow> bool" where
  "bigint n = (0 \<le> n \<and> n < 9223372036854775808)"

definition chainNoncesOk :: "pgStore \<Rightarrow> bool" where
  "chainNoncesOk s = (distinct (map chainKey (pg_chainNonces s)) \<and>
     list_all (\<lambda>r. bigint (pn_nonce r) \<and> pn_status r \<in> {''reserved'', ''submitted'', ''failed''}) (pg_chainNonces s))"

definition transactionsOk :: "pgStore \<Rightarrow> bool" where
  "transactionsOk s = (distinct (map (stx_TxHash \<circ> pt_item) (pg_transactions s)) \<and>
     list_all (\<lambda>r. \<not> tooBig (stx_Nonce (pt_item r)) \<and> \<not> tooBig (stx_Confirmations (pt_item r))) (pg_transactions s))"

definition incidentIdsOk :: "pgStore \<Rightarrow> bool" where
  "incidentIdsOk s = (distinct (map pi_id (pg_incidents s)) \<and> list_all (\<lambda>i. pi_id i \<le> pg_incidentSeq s) (pg_incidents s))"

definition oneActive :: "pgStore \<Rightarrow> bool" where
  "oneActive s = (length (filter isActive (pg_incidents s)) \<le> 1)"

text \<open>All constraints, and the constraints of those relations that exist.\<close>

definition schemaOk :: "pgStore \<Rightarrow> bool" where
  "schemaOk s = (chainNoncesOk s \<and> transactionsOk s \<and> incidentIdsOk s \<and> oneActive s)"

definition constrained :: "pgStore \<Rightarrow> bool" where
  "constrained s = ((signer_chain_nonces \<in> pg_relations s \<longrightarrow> chainNoncesOk s) \<and>
     (signer_transactions \<in> pg_relations s \<longrightarrow> transactionsOk s) \<and>
     (custody_incidents \<in> pg_relations s \<longrightarrow> incidentIdsOk s) \<and>
     (idx_custody_incidents_active \<in> pg_relations s \<longrightarrow> oneActive s))"

text \<open>Every statement of the store respects the constraints.\<close>

lemma schemaOk_insertIncident: "schemaOk s \<Longrightarrow> schemaOk (snd (insertIncident now reason mode s))"
proof -
  assume ok: "schemaOk s"
  then have "pi_id i \<noteq> pg_incidentSeq s + 1" if "i \<in> set (pg_incidents s)" for i
    using that by (auto simp: schemaOk_def incidentIdsOk_def list_all_iff)
  moreover have "filter isActive (pg_incidents s) = []" if "\<not> list_ex isActive (pg_incidents s)"
    using that by (auto simp: list_ex_iff filter_empty_conv)
  ultimately show ?thesis using ok
    by (auto simp: insertIncident_def schemaOk_def chainNoncesOk_def transactionsOk_def incidentIdsOk_def oneActive_def
        list_all_iff)
qed

lemma schemaOk_resolveIncidents: "schemaOk s \<Longrightarrow> schemaOk (snd (resolveIncidents now memo s))"
proof -
  have "pi_id \<circ> (\<lambda>i. if isActive i then i\<lparr>pi_resolvedAt := Some now, pi_note := memo\<rparr> else i) = pi_id" by auto
  then show "schemaOk s \<Longrightarrow> ?thesis"
    by (auto simp: resolveIncidents_def schemaOk_def chainNoncesOk_def transactionsOk_def incidentIdsOk_def oneActive_def
        list_all_iff isActive_def filter_empty_conv filter_map comp_def if_distrib cong: if_cong)
qed

lemma schemaOk_updateChainNonce:
  assumes "schemaOk s" and "\<And>r. chainKey (g r) = chainKey r \<and> pn_status (g r) \<in> {''reserved'', ''submitted'', ''failed''}"
  shows "schemaOk (snd (updateChainNonce wallet network x g s))"
proof -
  have "chainKey \<circ> (\<lambda>r. if hasNonce wallet network (uint x) r then g r else r) = chainKey" using assms(2) by auto
  moreover have "pn_nonce (g r) = pn_nonce r" for r using assms(2) [of r] by (simp add: chainKey_def)
  ultimately show ?thesis
    using assms by (auto simp: updateChainNonce_def schemaOk_def chainNoncesOk_def transactionsOk_def incidentIdsOk_def
        oneActive_def list_all_iff)
qed

lemma schemaOk_insertChainNonce: "schemaOk s \<Longrightarrow> schemaOk (snd (insertChainNonce wallet network x s))"
  by (auto simp: insertChainNonce_def schemaOk_def chainNoncesOk_def transactionsOk_def incidentIdsOk_def
      oneActive_def list_all_iff list_ex_iff hasNonce_def chainKey_def bigint_def)

lemma setProgress_item [simp]:
  "stx_TxHash (pt_item (setProgress status why n r)) = stx_TxHash (pt_item r)"
  "stx_Nonce (pt_item (setProgress status why n r)) = stx_Nonce (pt_item r)"
  "stx_Confirmations (pt_item (setProgress status why n r)) = n"
  by (simp_all add: setProgress_def)

lemma setProgress_hashes:
  "stx_TxHash \<circ> pt_item \<circ> (\<lambda>r. if sameTx h r then setProgress status why n r else r) = stx_TxHash \<circ> pt_item"
  by auto

lemma schemaOk_transactions:
  "schemaOk s \<Longrightarrow> schemaOk (snd (upsertTransaction now item s))"
  "schemaOk s \<Longrightarrow> schemaOk (snd (updateTransaction h status why n s))"
  using setProgress_hashes
  by (auto simp: upsertTransaction_def updateTransaction_def schemaOk_def chainNoncesOk_def transactionsOk_def
      incidentIdsOk_def oneActive_def list_all_iff list_ex_iff sameTx_def comp_assoc)

interpretation schema: table_reserve "\<lambda>s s'. schemaOk s \<longrightarrow> schemaOk s'"
  by unfold_locales
    (auto simp: schemaOk_insertIncident schemaOk_resolveIncidents schemaOk_insertChainNonce schemaOk_transactions
      setSubmitted_def setFailed_def chainKey_def intro!: schemaOk_updateChainNonce,
     auto simp: schemaOk_def chainNoncesOk_def transactionsOk_def incidentIdsOk_def oneActive_def)

interpretation schema_claims: table_claims "\<lambda>s s'. schemaOk s \<longrightarrow> schemaOk s'"
  by unfold_locales (auto simp: schemaOk_def chainNoncesOk_def transactionsOk_def incidentIdsOk_def oneActive_def)

section \<open>What the migration does\<close>

fun relationOf :: "ddl \<Rightarrow> pgRelation" where
  "relationOf (CreateTable _ name _) = name"
| "relationOf (CreateUniqueIndex _ name _) = name"
| "relationOf (CreateIndex _ name _ _) = name"

text \<open>
  What \<open>PRIMARY KEY\<close> with these columns says of the rows of a table. The rows of the first three tables are a map or a set
  over their key column, and the events are a list without their ids.
\<close>

datatype pgValue = PText string | PInt int

fun chainColumn :: "pgChainNonce \<Rightarrow> string \<Rightarrow> pgValue option" where
  "chainColumn r name = (if name = ''wallet'' then Some (PText (pn_wallet r))
     else if name = ''network'' then Some (PText (pn_network r))
     else if name = ''nonce'' then Some (PInt (pn_nonce r))
     else if name = ''status'' then Some (PText (pn_status r))
     else if name = ''tx_hash'' then Some (PText (pn_txHash r))
     else if name = ''reason'' then Some (PText (pn_reason r)) else None)"

fun transactionColumn :: "pgTransaction \<Rightarrow> string \<Rightarrow> pgValue option" where
  "transactionColumn r name = (if name = ''tx_hash'' then Some (PText (stx_TxHash (pt_item r)))
     else if name = ''idempotency_key'' then Some (PText (stx_IdempotencyKey (pt_item r)))
     else if name = ''wallet_from'' then Some (PText (stx_WalletFrom (pt_item r)))
     else if name = ''wallet_to'' then Some (PText (stx_WalletTo (pt_item r)))
     else if name = ''nonce'' then Some (PInt (uint (stx_Nonce (pt_item r)))) else None)"

fun incidentColumn :: "pgIncident \<Rightarrow> string \<Rightarrow> pgValue option" where
  "incidentColumn i name = (if name = ''id'' then Some (PInt (pi_id i))
     else if name = ''reason'' then Some (PText (pi_reason i))
     else if name = ''mode'' then Some (PText (pi_mode i)) else None)"

definition keyHolds :: "pgRelation \<Rightarrow> string list \<Rightarrow> pgStore \<Rightarrow> bool" where
  "keyHolds table cols s = (case table of
     signer_nonces \<Rightarrow> cols = [''nonce'']
   | signer_idempotency \<Rightarrow> cols = [''idempotency_key'']
   | signer_idempotency_locks \<Rightarrow> cols = [''idempotency_key'']
   | custody_events \<Rightarrow> cols = [''id'']
   | custody_incidents \<Rightarrow> distinct (map (\<lambda>i. map (incidentColumn i) cols) (pg_incidents s))
   | signer_chain_nonces \<Rightarrow> distinct (map (\<lambda>r. map (chainColumn r) cols) (pg_chainNonces s))
   | signer_transactions \<Rightarrow> distinct (map (\<lambda>r. map (transactionColumn r) cols) (pg_transactions s))
   | _ \<Rightarrow> False)"

text \<open>The tables and indexes the store has, and those that its statements name or rely on for \<open>ON CONFLICT\<close>.\<close>

definition storeTables :: "pgRelation set" where
  "storeTables = {signer_nonces, signer_idempotency, signer_idempotency_locks, custody_events, custody_incidents,
     signer_chain_nonces, signer_transactions}"

definition storeIndexes :: "pgRelation set" where
  "storeIndexes = {idx_custody_incidents_active, idx_signer_nonces_expires_at, idx_signer_transactions_status,
     idx_signer_transactions_daily}"

text \<open>The tables that exist keep their rows.\<close>

definition rowsKept :: "pgStore \<Rightarrow> pgStore \<Rightarrow> bool" where
  "rowsKept s s' = (pg_relations s \<subseteq> pg_relations s' \<and>
     (signer_nonces \<in> pg_relations s \<longrightarrow> pg_nonces s' = pg_nonces s) \<and>
     (signer_idempotency \<in> pg_relations s \<longrightarrow> pg_idempotency s' = pg_idempotency s) \<and>
     (signer_idempotency_locks \<in> pg_relations s \<longrightarrow> pg_locks s' = pg_locks s) \<and>
     (custody_events \<in> pg_relations s \<longrightarrow> pg_events s' = pg_events s) \<and>
     (custody_incidents \<in> pg_relations s \<longrightarrow> pg_incidents s' = pg_incidents s) \<and>
     (signer_chain_nonces \<in> pg_relations s \<longrightarrow> pg_chainNonces s' = pg_chainNonces s) \<and>
     (signer_transactions \<in> pg_relations s \<longrightarrow> pg_transactions s' = pg_transactions s))"

interpretation kept: table_relation rowsKept
proof unfold_locales
  fix a b c
  assume "rowsKept a b" "rowsKept b c"
  then show "rowsKept a c" unfolding rowsKept_def by (intro conjI impI; elim conjE; simp add: subset_iff)
qed (simp_all add: rowsKept_def)

lemma createTable_relations [simp]: "pg_relations (createTable name s) = pg_relations s"
  by (simp add: createTable_def split: pgRelation.split)

lemma createTable_kept: "name \<notin> pg_relations s \<Longrightarrow> rowsKept s (addRelation name (createTable name s))"
  by (cases name) (simp_all add: rowsKept_def addRelation_def createTable_def subset_insertI)

lemma addRelation_kept: "rowsKept s (addRelation name s)"
  by (simp add: rowsKept_def addRelation_def subset_insertI)

lemma runDdl_kept: "rowsKept s (snd (runDdl d s))"
  by (cases d) (simp_all add: runDdl_def alreadyExists_def createTable_kept addRelation_kept kept.refl)

lemma runScript_kept: "rowsKept s (snd (runScript ds s))"
proof (induction ds arbitrary: s)
  case Nil
  show ?case by (simp add: kept.refl)
next
  case (Cons d ds)
  show ?case
    using runDdl_kept [of s d] Cons.IH
    by (auto split: prod.split sum.split) (metis kept.trans snd_conv)
qed

lemmas constraint_defs = chainNoncesOk_def transactionsOk_def incidentIdsOk_def oneActive_def

lemma createTable_constrained:
  "constrained s \<Longrightarrow> name \<noteq> idx_custody_incidents_active \<Longrightarrow> constrained (addRelation name (createTable name s))"
  by (cases name) (simp_all add: constrained_def addRelation_def createTable_def constraint_defs)

lemma runDdl_constrained:
  assumes "constrained s" and "d \<in> set migration"
  shows "constrained (snd (runDdl d s))"
proof (cases d)
  case (CreateTable ifNotExists name key)
  with assms(2) have "name \<noteq> idx_custody_incidents_active" by (auto simp: migration_def)
  with assms(1) CreateTable show ?thesis by (simp add: runDdl_def alreadyExists_def createTable_constrained)
next
  case (CreateUniqueIndex ifNotExists name table)
  with assms(2) have "name = idx_custody_incidents_active" by (auto simp: migration_def)
  with assms(1) CreateUniqueIndex show ?thesis
    by (simp add: runDdl_def alreadyExists_def constrained_def addRelation_def constraint_defs)
next
  case (CreateIndex ifNotExists name table cols)
  with assms(2) have "name \<noteq> idx_custody_incidents_active" "createTable name s = s"
    by (auto simp: migration_def createTable_def)
  with createTable_constrained [OF assms(1), of name] assms(1) CreateIndex show ?thesis
    by (simp add: runDdl_def alreadyExists_def)
qed

lemma runScript_append:
  "runScript (ds @ es) s = (case runScript ds s of (Inl e, s1) \<Rightarrow> (Inl e, s1) | (Inr _, s1) \<Rightarrow> runScript es s1)"
  by (induction ds arbitrary: s) (simp_all split: prod.split sum.split)

lemma runScript_tables:
  "\<exists>s'. runScript (map (\<lambda>(name, key). CreateTable True name key) tables) s = (Inr (), s') \<and>
     pg_relations s' = pg_relations s \<union> fst ` set tables"
proof (induction tables arbitrary: s)
  case (Cons table tables)
  obtain name key where n: "table = (name, key)" by fastforce
  from Cons.IH [of "if name \<in> pg_relations s then s else addRelation name (createTable name s)"]
  show ?case by (auto simp: n runDdl_def alreadyExists_def addRelation_def insert_absorb)
qed simp

text \<open>
  A script whose statements all say \<open>IF NOT EXISTS\<close> and create each index after its table succeeds whichever relations
  exist already, as long as the unique index finds at most one unresolved incident; over relations that all exist
  it does nothing.
\<close>

fun repeatable :: "pgRelation set \<Rightarrow> ddl list \<Rightarrow> bool" where
  "repeatable R [] = True"
| "repeatable R (CreateTable ifNotExists name _ # ds) = (ifNotExists \<and> repeatable (insert name R) ds)"
| "repeatable R (CreateUniqueIndex ifNotExists name table # ds) =
     (ifNotExists \<and> table \<in> R \<and> custody_incidents \<in> R \<and> name = idx_custody_incidents_active \<and> repeatable (insert name R) ds)"
| "repeatable R (CreateIndex ifNotExists name table _ # ds) =
     (ifNotExists \<and> table \<in> R \<and> name \<notin> storeTables \<and> repeatable (insert name R) ds)"

definition indexable :: "pgStore \<Rightarrow> bool" where
  "indexable s = (custody_incidents \<in> pg_relations s \<longrightarrow> idx_custody_incidents_active \<in> pg_relations s \<or> oneActive s)"

lemma indexable_add:
  "indexable s \<Longrightarrow> indexable (addRelation name (createTable name s))"
  "indexable s \<Longrightarrow> name \<notin> storeTables \<Longrightarrow> indexable (addRelation name s)"
  by (cases name; simp add: indexable_def addRelation_def createTable_def oneActive_def storeTables_def)+

lemma migration_repeatable: "repeatable {} migration"
  by (simp add: migration_def storeTables_def)

lemma repeatable_step:
  assumes "repeatable R (d # ds)" and "R \<subseteq> pg_relations s" and "indexable s"
  shows "\<exists>s'. runDdl d s = (Inr (), s') \<and> indexable s' \<and> insert (relationOf d) R \<subseteq> pg_relations s' \<and>
    repeatable (insert (relationOf d) R) ds"
proof (cases d)
  case (CreateTable f name key)
  with assms show ?thesis
    by (auto simp: runDdl_def alreadyExists_def indexable_add) (auto simp: addRelation_def)
next
  case (CreateUniqueIndex f name table)
  with assms have "table \<in> pg_relations s" "name \<notin> pg_relations s \<longrightarrow> oneActive s" "name \<notin> storeTables"
    by (auto simp: indexable_def storeTables_def)
  with CreateUniqueIndex assms show ?thesis
    by (auto simp: runDdl_def alreadyExists_def oneActive_def indexable_add) (auto simp: addRelation_def)
next
  case (CreateIndex f name table cols)
  with assms show ?thesis
    by (auto simp: runDdl_def alreadyExists_def indexable_add) (auto simp: addRelation_def)
qed

lemma repeatable_succeeds:
  assumes "repeatable R ds" and "R \<subseteq> pg_relations s" and "indexable s"
  shows "\<exists>s'. runScript ds s = (Inr (), s')"
  using assms
proof (induction ds arbitrary: R s)
  case (Cons d ds)
  from repeatable_step [OF Cons.prems] obtain s' where
    "runDdl d s = (Inr (), s')" "indexable s'" "insert (relationOf d) R \<subseteq> pg_relations s'"
    "repeatable (insert (relationOf d) R) ds" by auto
  with Cons.IH [of "insert (relationOf d) R" s'] show ?case by auto
qed simp

lemma repeatable_again:
  assumes "repeatable R ds" and "relationOf ` set ds \<subseteq> pg_relations s"
  shows "runScript ds s = (Inr (), s)"
  using assms
proof (induction ds arbitrary: R)
  case (Cons d ds)
  then show ?case by (cases d) (auto simp: runDdl_def alreadyExists_def)
qed simp

lemma runDdl_adds: "runDdl d s = (Inr u, s') \<Longrightarrow> relationOf d \<in> pg_relations s'"
  by (cases d) (auto simp: runDdl_def alreadyExists_def addRelation_def split: if_splits)

lemma runScript_adds:
  assumes "runScript ds s = (Inr u, s')"
  shows "relationOf ` set ds \<subseteq> pg_relations s'"
  using assms
proof (induction ds arbitrary: s)
  case (Cons d ds)
  obtain x s1 where d: "runDdl d s = (Inr x, s1)" "runScript ds s1 = (Inr u, s')"
    using Cons.prems by (auto split: prod.splits sum.splits)
  have "relationOf d \<in> pg_relations s'"
    using runDdl_adds [OF d(1)] runScript_kept [of s1 ds] d(2) by (auto simp: rowsKept_def)
  with Cons.IH [OF d(2)] show ?case by simp
qed simp

lemma runScript_constrained:
  assumes "runScript ds s = (Inr u, s')" and "constrained s" and "set ds \<subseteq> set migration"
  shows "constrained s'"
  using assms
proof (induction ds arbitrary: s)
  case (Cons d ds)
  obtain x s1 where d: "runDdl d s = (Inr x, s1)" "runScript ds s1 = (Inr u, s')"
    using Cons.prems(1) by (auto split: prod.splits sum.splits)
  have "constrained s1" using runDdl_constrained [of s d] Cons.prems(2,3) d(1) by simp
  with Cons.IH [OF d(2)] Cons.prems(3) show ?case by simp
qed simp

lemma constrained_faults [simp]: "constrained (s\<lparr>pg_faults := fs\<rparr>) = constrained s"
  by (simp add: constrained_def chainNoncesOk_def transactionsOk_def incidentIdsOk_def oneActive_def)

lemma constrained_schemaOk: "constrained s \<Longrightarrow> storeTables \<union> storeIndexes \<subseteq> pg_relations s \<Longrightarrow> schemaOk s"
  by (simp add: constrained_def schemaOk_def storeTables_def storeIndexes_def)

lemma migration_creates: "relationOf ` set migration = storeTables \<union> storeIndexes"
  by (auto simp: migration_def storeTables_def storeIndexes_def)

text \<open>The keys that the statements keep are those the script declares.\<close>

lemma schemaOk_declared:
  assumes "schemaOk s" and "CreateTable ifNotExists table key \<in> set migration"
  shows "keyHolds table key s"
proof -
  have *: "distinct (map f xs) \<longleftrightarrow> distinct (map g xs)" if "\<And>x y. f x = f y \<longleftrightarrow> g x = g y" for f :: "'a \<Rightarrow> 'b" and g :: "'a \<Rightarrow> 'c" and xs
    using that by (simp add: distinct_map inj_on_def)
  have "distinct (map (\<lambda>r. map (chainColumn r) [''wallet'', ''network'', ''nonce'']) (pg_chainNonces s)) \<longleftrightarrow>
      distinct (map chainKey (pg_chainNonces s))"
    by (rule *) (simp add: chainKey_def)
  moreover have "distinct (map (\<lambda>r. map (transactionColumn r) [''tx_hash'']) (pg_transactions s)) \<longleftrightarrow>
      distinct (map (stx_TxHash \<circ> pt_item) (pg_transactions s))"
    by (rule *) simp
  moreover have "distinct (map (\<lambda>i. map (incidentColumn i) [''id'']) (pg_incidents s)) \<longleftrightarrow> distinct (map pi_id (pg_incidents s))"
    by (rule *) simp
  ultimately show ?thesis
    using assms
    by (auto simp: migration_def keyHolds_def schemaOk_def chainNoncesOk_def transactionsOk_def incidentIdsOk_def simp del: list.map)
qed

lemma execScript_kept: "rowsKept s (snd (execScript ds s))"
  using runScript_kept [of s ds] by (auto simp: execScript_def kept.refl split: prod.split sum.split)

lemma pg_migrate_kept: "rowsKept s (snd (pg_migrate s))"
proof -
  obtain x s1 where p: "pgStmt (\<lambda>s. (Inr (), s)) s = (x :: unit result, s1)" by fastforce
  then have a: "rowsKept s s1" by (rule kept.stmt_known [rotated]) (simp add: kept.refl)
  have "rowsKept s1 (snd (pgStmt (execScript migration) s1))"
    by (rule kept.stmt) (rule execScript_kept)
  with a have "rowsKept s (snd (pgStmt (execScript migration) s1))" by (rule kept.trans)
  with a p show ?thesis by (simp add: pg_migrate_def split_beta split: sum.split)
qed

lemma pg_migrate_ran:
  assumes "pg_migrate s = (None, s')"
  shows "\<exists>fs. runScript migration (s\<lparr>pg_faults := fs\<rparr>) = (Inr (), s')"
proof -
  obtain u s1 where a: "pgStmt (\<lambda>s. (Inr (), s)) s = (Inr u, s1)"
      and b: "pgStmt (execScript migration) s1 = (Inr (), s')"
    using assms by (auto simp: pg_migrate_def errorOf_def split: prod.splits sum.splits)
  from a obtain fs1 where s1: "s1 = s\<lparr>pg_faults := fs1\<rparr>" by (cases rule: pgStmt_cases) auto
  from b obtain fs where "execScript migration (s1\<lparr>pg_faults := fs\<rparr>) = (Inr (), s')" by (cases rule: pgStmt_cases) auto
  then have "runScript migration (s\<lparr>pg_faults := fs\<rparr>) = (Inr (), s')"
    by (auto simp: execScript_def s1 split: prod.splits sum.splits)
  then show ?thesis ..
qed

lemma pg_migrate_ok:
  assumes "pg_migrate s = (None, s')"
  shows "storeTables \<union> storeIndexes \<subseteq> pg_relations s'" and "constrained s \<Longrightarrow> schemaOk s'"
proof -
  from pg_migrate_ran [OF assms] obtain fs where ran: "runScript migration (s\<lparr>pg_faults := fs\<rparr>) = (Inr (), s')" ..
  from runScript_adds [OF ran] show r: "storeTables \<union> storeIndexes \<subseteq> pg_relations s'" by (simp only: migration_creates)
  show "schemaOk s'" if "constrained s"
    using runScript_constrained [OF ran] that r constrained_schemaOk by simp
qed

lemma pg_migrate_no_fault:
  assumes "pg_faults s = []"
  shows "pg_migrate s = (case runScript migration s of (Inl e, _) \<Rightarrow> (Some e, s) | (Inr _, s1) \<Rightarrow> (None, s1))"
  using assms by (simp add: pg_migrate_def pgStmt_def popFault_def execScript_def errorOf_def split: prod.split sum.split)

section \<open>Properties of the migration\<close>

text \<open>
  C13: Migrating the database is safe to do at every start. Whatever fault occurs, every table that exists keeps its
  rows, and the relations that exist stay. A migration that succeeds leaves every table and index the store uses; on
  a database whose existing tables keep their constraints, then every primary key the script declares holds, and at most one
  incident is unresolved. Without a fault it does succeed, whichever of the relations already exist, unless the unique
  index meets two unresolved incidents; and a second migration changes nothing.
\<close>

theorem migration_safe:
  assumes "pg_migrate s = (e, s')"
  shows "rowsKept s s' \<and>
    (e = None \<longrightarrow> storeTables \<union> storeIndexes \<subseteq> pg_relations s' \<and> (pg_faults s' = [] \<longrightarrow> pg_migrate s' = (None, s'))) \<and>
    (e = None \<and> constrained s \<longrightarrow> oneActive s' \<and>
      (\<forall>ifNotExists table key. CreateTable ifNotExists table key \<in> set migration \<longrightarrow> keyHolds table key s')) \<and>
    (pg_faults s = [] \<and>
      (custody_incidents \<in> pg_relations s \<longrightarrow> idx_custody_incidents_active \<in> pg_relations s \<or> oneActive s) \<longrightarrow> e = None)"
proof (intro conjI impI; (elim conjE)?)
  show "rowsKept s s'" using pg_migrate_kept [of s] assms by simp
next
  assume "e = None"
  with assms show r: "storeTables \<union> storeIndexes \<subseteq> pg_relations s'" using pg_migrate_ok(1) by blast
  assume "pg_faults s' = []"
  with r show "pg_migrate s' = (None, s')"
    using repeatable_again [OF migration_repeatable, of s'] by (simp add: pg_migrate_no_fault migration_creates)
next
  assume "e = None" "constrained s"
  with assms have "schemaOk s'" using pg_migrate_ok(2) by blast
  then show "oneActive s'" "\<forall>ifNotExists table key. CreateTable ifNotExists table key \<in> set migration \<longrightarrow> keyHolds table key s'"
    using schemaOk_declared by (simp_all add: schemaOk_def)
next
  assume f: "pg_faults s = []" and i: "custody_incidents \<in> pg_relations s \<longrightarrow> idx_custody_incidents_active \<in> pg_relations s \<or> oneActive s"
  have "\<exists>s1. runScript migration s = (Inr (), s1)"
    by (rule repeatable_succeeds [OF migration_repeatable]) (use i in \<open>simp_all add: indexable_def\<close>)
  with f assms show "e = None" by (auto simp: pg_migrate_no_fault)
qed

definition oldTables :: "pgFault list \<Rightarrow> pgStore" where
  "oldTables faults = (newPgStore faults id)\<lparr>pg_relations := {signer_chain_nonces}, pg_chainNonces :=
     [\<lparr>pn_wallet = ''0xaa'', pn_network = ''BSC'', pn_nonce = 7, pn_status = ''submitted'', pn_txHash = ''0x01'', pn_reason = []\<rparr>]\<rparr>"

theorem migration_safe_witness:
  "fst (pg_migrate (oldTables [])) = None \<and> pg_chainNonces (snd (pg_migrate (oldTables []))) = pg_chainNonces (oldTables []) \<and>
   signer_idempotency_locks \<in> pg_relations (snd (pg_migrate (oldTables []))) \<and>
   keyHolds signer_chain_nonces [''wallet'', ''network'', ''nonce''] (snd (pg_migrate (oldTables [])))"
proof -
  let ?s' = "snd (pg_migrate (oldTables []))"
  note safe = migration_safe [of "oldTables []" "fst (pg_migrate (oldTables []))" ?s', OF prod.collapse [symmetric]]
  have s: "pg_faults (oldTables []) = []" "custody_incidents \<notin> pg_relations (oldTables [])" "signer_chain_nonces \<in> pg_relations (oldTables [])"
    by (simp_all add: oldTables_def newPgStore_def)
  have c: "constrained (oldTables [])" by code_simp
  have m: "CreateTable True signer_chain_nonces [''wallet'', ''network'', ''nonce''] \<in> set migration" by (simp add: migration_def)
  have e: "fst (pg_migrate (oldTables [])) = None" using safe s by blast
  moreover have "pg_chainNonces ?s' = pg_chainNonces (oldTables [])" using safe s(3) by (simp add: rowsKept_def)
  moreover have "signer_idempotency_locks \<in> pg_relations ?s'" using safe e by (auto simp: storeTables_def)
  moreover have "keyHolds signer_chain_nonces [''wallet'', ''network'', ''nonce''] ?s'" using safe e c m by blast
  ultimately show ?thesis by blast
qed

text \<open>
  A database with two unresolved incidents and without the unique index is never migrated: the script fails and leaves
  everything as it was.
\<close>

theorem migration_refuses_two_incidents:
  assumes "\<not> oneActive s" and "custody_incidents \<in> pg_relations s"
    and "idx_custody_incidents_active \<notin> pg_relations s" and "pg_faults s = []"
  shows "pg_migrate s = (Some (Err ''pq: could not create unique index idx_custody_incidents_active''), s)"
proof -
  let ?tables = "[(signer_nonces, [''nonce'']), (signer_idempotency, [''idempotency_key'']),
    (signer_idempotency_locks, [''idempotency_key'']), (custody_events, [''id'']), (custody_incidents, [''id''])]"
  let ?create = "map (\<lambda>(name, key). CreateTable True name key) ?tables"
  obtain rest where m: "migration = ?create @ CreateUniqueIndex True idx_custody_incidents_active custody_incidents # rest"
    by (simp add: migration_def)
  from runScript_tables [of ?tables s] obtain s1 where
    s1: "runScript ?create s = (Inr (), s1)" "pg_relations s1 = pg_relations s \<union> fst ` set ?tables" by blast
  moreover from runScript_kept [of s ?create] s1(1) assms(2) have "pg_incidents s1 = pg_incidents s"
    by (simp add: rowsKept_def)
  ultimately have "runScript migration s = (Inl (Err ''pq: could not create unique index idx_custody_incidents_active''), s1)"
    unfolding m runScript_append using assms(1,3) by (simp add: runDdl_def oneActive_def del: list.map)
  then show ?thesis using assms(4) by (simp add: pg_migrate_no_fault)
qed

end
