(* ===== verification/Signer_Store.thy ===== *)
theory Signer_Store
  imports Store_Contracts Schema
begin

text \<open>
  The interface \<open>signerStore\<close> of \<open>src/store.go\<close> (lines 15-34) and its two implementations as one type
  with dispatching operations, the choice of the implementation (\<open>openSignerStore\<close>), and the
  interpretation of the contracts of \<open>Store_Contracts\<close> on both stores.
\<close>

section \<open>The interface\<close>

datatype signerStore = MemStore memorySignerStore | PgStore pgStore

definition onStore ::
    "(memorySignerStore \<Rightarrow> 'a \<times> memorySignerStore) \<Rightarrow> (pgStore \<Rightarrow> 'a \<times> pgStore) \<Rightarrow> signerStore \<Rightarrow> 'a \<times> signerStore" where
  "onStore f g st = (case st of
     MemStore s \<Rightarrow> (let (a, s') = f s in (a, MemStore s'))
   | PgStore s \<Rightarrow> (let (a, s') = g s in (a, PgStore s')))"

definition AcceptNonce where
  "AcceptNonce now nonce ttl = onStore (mem_AcceptNonce now nonce ttl) (pg_AcceptNonce now nonce ttl)"

definition ClaimResult where
  "ClaimResult key = onStore (mem_ClaimResult key) (pg_ClaimResult key)"

definition GetResult where
  "GetResult key = onStore (mem_GetResult key) (pg_GetResult key)"

definition SaveResult where
  "SaveResult key resp = onStore (mem_SaveResult key resp) (pg_SaveResult key resp)"

definition ReleaseClaim where
  "ReleaseClaim key = onStore (mem_ReleaseClaim key) (pg_ReleaseClaim key)"

definition RecordCustodyEvent where
  "RecordCustodyEvent event = onStore (mem_RecordCustodyEvent event) (pg_RecordCustodyEvent event)"

definition OpenCustodyIncident where
  "OpenCustodyIncident now reason mode =
     onStore (mem_OpenCustodyIncident now reason mode) (pg_OpenCustodyIncident now reason mode)"

definition ActiveCustodyIncident where
  "ActiveCustodyIncident = onStore mem_ActiveCustodyIncident pg_ActiveCustodyIncident"

definition ResolveCustodyIncident where
  "ResolveCustodyIncident now note =
     onStore (mem_ResolveCustodyIncident note) (pg_ResolveCustodyIncident now note)"

definition ReserveChainNonce where
  "ReserveChainNonce wallet network chainPending =
     onStore (mem_ReserveChainNonce wallet network chainPending) (pg_ReserveChainNonce wallet network chainPending)"

definition MarkChainNonceSubmitted where
  "MarkChainNonceSubmitted wallet network nonce txHash =
     onStore (mem_MarkChainNonceSubmitted wallet network nonce txHash)
       (pg_MarkChainNonceSubmitted wallet network nonce txHash)"

definition MarkChainNonceFailed where
  "MarkChainNonceFailed wallet network nonce reason =
     onStore (mem_MarkChainNonceFailed wallet network nonce reason)
       (pg_MarkChainNonceFailed wallet network nonce reason)"

definition CreateSignerTransaction where
  "CreateSignerTransaction now item =
     onStore (mem_CreateSignerTransaction item) (pg_CreateSignerTransaction now item)"

definition MarkSignerTransactionStatus where
  "MarkSignerTransactionStatus txHash status reason confirmations =
     onStore (mem_MarkSignerTransactionStatus txHash status reason confirmations)
       (pg_MarkSignerTransactionStatus txHash status reason confirmations)"

definition ListOpenSignerTransactions where
  "ListOpenSignerTransactions limit =
     onStore (mem_ListOpenSignerTransactions limit) (pg_ListOpenSignerTransactions limit)"

definition DailySubmittedOutflow where
  "DailySubmittedOutflow now token network =
     onStore (mem_DailySubmittedOutflow token network) (pg_DailySubmittedOutflow now token network)"

definition Ready where
  "Ready = onStore mem_Ready pg_Ready"

text \<open>
  \<open>openSignerStore\<close>. The database behind a URL is the argument \<open>connect\<close>: the error of \<open>sql.Open\<close> or the database
  as it is before the migration.
\<close>

definition openSignerStore ::
    "(SignerTransaction list \<Rightarrow> SignerTransaction list) \<Rightarrow> (string \<Rightarrow> pgStore result) \<Rightarrow> SignerConfig \<Rightarrow> signerStore result" where
  "openSignerStore iter connect cfg =
     (if DatabaseURL cfg = [] then
        (if AppEnv cfg = ''production''
         then Inl (Err ''SIGNER_DATABASE_URL ou DATABASE_URL obrigatorio em producao'')
         else Inr (MemStore (newMemorySignerStore iter)))
      else (case connect (DatabaseURL cfg) of
          Inl e \<Rightarrow> Inl e
        | Inr s \<Rightarrow> (case pg_migrate s of (Some e, _) \<Rightarrow> Inl e | (None, s1) \<Rightarrow> Inr (PgStore s1))))"

section \<open>The memory store keeps the contracts\<close>

definition mem_view :: "memorySignerStore \<Rightarrow> string \<Rightarrow> keyState" where
  "mem_view s k = (case ms_results s k of Some r \<Rightarrow> Done r
     | None \<Rightarrow> if k \<in> ms_locks s then Claimed else Free)"

definition mem_keysKept :: "memorySignerStore \<Rightarrow> memorySignerStore \<Rightarrow> bool" where
  "mem_keysKept s s' = (ms_results s' = ms_results s \<and> ms_locks s' = ms_locks s)"

interpretation mem: claim_store mem_ClaimResult mem_SaveResult mem_ReleaseClaim mem_keysKept mem_view
  by unfold_locales (auto simp: step_defs mem_view_def mem_keysKept_def split: option.splits if_splits)

interpretation mem_nonce: nonce_acceptor mem_AcceptNonce ms_nonces "\<lambda>d. d"
  by unfold_locales (auto simp: step_defs Let_def time_Add_def split: if_splits)

definition mem_used :: "memorySignerStore \<Rightarrow> string \<Rightarrow> string \<Rightarrow> 64 word set" where
  "mem_used s w n = (case ms_chainNonces s (chainNonceKey w n) of None \<Rightarrow> {} | Some c \<Rightarrow> {x. x \<le> c})"

definition mem_ok :: "memorySignerStore \<Rightarrow> bool" where
  "mem_ok s = (\<forall>k. ms_chainNonces s k \<noteq> Some (- 1))"

lemma word_Suc_gt: "(c :: 64 word) \<noteq> - 1 \<Longrightarrow> c < c + 1"
  using inc_less_eq_triv_imp [of c] by (metis not_less)

lemma nextNonce_gt: "(c :: 64 word) \<noteq> - 1 \<Longrightarrow> c < (if c + 1 > p then c + 1 else p)"
  using word_Suc_gt [of c] by auto

interpretation mem_resv: nonce_reserver mem_ReserveChainNonce mem_used mem_ok
proof unfold_locales
  fix s w n p x s'
  assume ok: "mem_ok s" and r: "mem_ReserveChainNonce w n p s = (Inr x, s')"
  have gt: "c < x" if "ms_chainNonces s (chainNonceKey w n) = Some c" for c
    using nextNonce_gt [of c p] ok r that by (auto simp: step_defs mem_ok_def Let_def split: if_splits)
  have x: "ms_chainNonces s' = (ms_chainNonces s)(chainNonceKey w n \<mapsto> x)" and "p \<le> x"
    using r by (auto simp: step_defs Let_def split: if_splits option.splits)
  show "x \<notin> mem_used s w n \<and> p \<le> x"
    using gt \<open>p \<le> x\<close> by (auto simp: mem_used_def split: option.splits)
  show "insert x (mem_used s w n) \<subseteq> mem_used s' w n"
    using gt x by (auto simp: mem_used_def split: option.splits)
  show "x \<noteq> - 1 \<Longrightarrow> mem_ok s'" using ok x by (simp add: mem_ok_def)
next
  fix s w n p e s'
  assume "mem_ReserveChainNonce w n p s = (Inl e, s')"
  then show "mem_used s w n \<subseteq> mem_used s' w n \<and> mem_ok s'" by (simp add: step_defs Let_def)
qed

section \<open>The database store keeps the contracts\<close>

definition pg_view :: "pgStore \<Rightarrow> string \<Rightarrow> keyState" where
  "pg_view s k = (case pg_idempotency s k of Some r \<Rightarrow> Done r
     | None \<Rightarrow> if k \<in> pg_locks s then Claimed else Free)"

lemma pg_GetResult_cases:
  assumes "pg_GetResult key s = (r, s')" and "key \<noteq> []"
  obtains (miss) fs where "s' = s\<lparr>pg_faults := fs\<rparr>" "r = Inr (emptyResponse, False)" "pg_idempotency s key = None"
  | (hit) fs resp where "s' = s\<lparr>pg_faults := fs\<rparr>" "r = Inr (resp, True)" "pg_idempotency s key = Some resp"
  | (fault) fs e where "s' = s\<lparr>pg_faults := fs\<rparr>" "r = Inl e"
proof -
  from assms have "pgStmt (\<lambda>s. (Inr (case pg_idempotency s key of
        Some resp \<Rightarrow> (resp, True) | None \<Rightarrow> (emptyResponse, False)), s)) s = (r, s')"
    by (simp add: pg_GetResult_def)
  then show thesis
    by (cases rule: pgStmt_cases) (auto intro: miss hit fault split: option.splits)
qed

lemma insertLock_cases:
  assumes "pgStmt (insertLock key) s = (r, s')"
  shows "pg_idempotency s' = pg_idempotency s \<and>
    (r = Inr 1 \<and> key \<notin> pg_locks s \<and> pg_locks s' = insert key (pg_locks s) \<or>
     r = Inr 0 \<and> key \<in> pg_locks s \<and> pg_locks s' = pg_locks s \<or>
     (\<exists>e. r = Inl e) \<and> (pg_locks s' = pg_locks s \<or> pg_locks s' = insert key (pg_locks s)))"
  using assms by (cases rule: pgStmt_cases) (auto simp: insertLock_def split: if_splits)

lemma pg_ClaimResult_cases:
  assumes "pg_ClaimResult key s = (r, s')" and "key \<noteq> []"
  shows "pg_idempotency s' = pg_idempotency s \<and>
    ((\<exists>resp. r = Inr (resp, True, False) \<and> pg_idempotency s key = Some resp \<and> pg_locks s' = pg_locks s) \<or>
     r = Inr (emptyResponse, False, True) \<and> pg_idempotency s key = None \<and> key \<notin> pg_locks s
       \<and> pg_locks s' = insert key (pg_locks s) \<or>
     r = Inr (emptyResponse, False, False) \<and> pg_locks s' = pg_locks s \<or>
     (\<exists>e. r = Inl e) \<and> (pg_locks s' = pg_locks s \<or>
       pg_idempotency s key = None \<and> pg_locks s' = insert key (pg_locks s)))"
proof -
  obtain g s1 where g: "pg_GetResult key s = (g, s1)" by fastforce
  obtain l s2 where l: "pgStmt (insertLock key) s1 = (l, s2)" by fastforce
  from g assms(2) show ?thesis
  proof (cases rule: pg_GetResult_cases)
    case (miss fs)
    with g l assms have "s' = s2" "r = map_sum id (\<lambda>rows. (emptyResponse, False, rows = 1)) l"
      by (auto simp: pg_ClaimResult_def split: sum.splits)
    with insertLock_cases [OF l] miss show ?thesis by auto
  next
    case (hit fs resp)
    with g assms show ?thesis by (auto simp: step_defs)
  next
    case (fault fs e)
    with g assms show ?thesis by (auto simp: step_defs)
  qed
qed

lemma saveBody_ok:
  assumes "(case pgStmt (insertResult key resp) s of
      (Inl e, s2) \<Rightarrow> (Inl e, s2) | (Inr _, s2) \<Rightarrow> pgStmt (deleteLock key) s2) = (Inr a, t)"
  shows "pg_idempotency t = (if pg_idempotency s key = None then (pg_idempotency s)(key \<mapsto> resp) else pg_idempotency s)
    \<and> pg_locks t = pg_locks s - {key}"
proof -
  obtain i s2 where i: "pgStmt (insertResult key resp) s = (i, s2)" by fastforce
  with assms obtain u where u: "i = Inr u" and d: "pgStmt (deleteLock key) s2 = (Inr a, t)"
    by (cases i) auto
  from i u have "pg_idempotency s2 = (if pg_idempotency s key = None then (pg_idempotency s)(key \<mapsto> resp) else pg_idempotency s)
      \<and> pg_locks s2 = pg_locks s"
    by (cases rule: pgStmt_cases) (auto simp: insertResult_def split: if_splits)
  moreover from d have "pg_idempotency t = pg_idempotency s2 \<and> pg_locks t = pg_locks s2 - {key}"
    by (cases rule: pgStmt_cases) (auto simp: deleteLock_def)
  ultimately show ?thesis by simp
qed

lemma pg_SaveResult_cases:
  assumes "pg_SaveResult key resp s = (e, s')" and "key \<noteq> []"
  shows "pg_locks s' = pg_locks s - {key} \<and>
      pg_idempotency s' = (if pg_idempotency s key = None then (pg_idempotency s)(key \<mapsto> resp) else pg_idempotency s)
    \<or> e \<noteq> None \<and> pg_locks s' = pg_locks s \<and> pg_idempotency s' = pg_idempotency s"
proof -
  obtain r where tx: "pgTx (\<lambda>s1. case pgStmt (insertResult key resp) s1 of
      (Inl e, s2) \<Rightarrow> (Inl e, s2) | (Inr _, s2) \<Rightarrow> pgStmt (deleteLock key) s2) s = (r, s')" and e: "e = errorOf r"
    using assms by (auto simp: step_defs split: prod.splits)
  from tx show ?thesis
  proof (cases rule: pgTx_cases)
    case (committed fs a t fs')
    with saveBody_ok [OF committed(1)] show ?thesis by auto
  next
    case (failed fs err)
    with e show ?thesis by (simp add: errorOf_def)
  next
    case (late fs a t fs' err)
    with saveBody_ok [OF late(1)] show ?thesis by auto
  qed
qed

lemma pg_ReleaseClaim_cases:
  assumes "pg_ReleaseClaim key s = (e, s')" and "key \<noteq> []"
  shows "pg_idempotency s' = pg_idempotency s \<and>
    (pg_locks s' = pg_locks s - {key} \<or> e \<noteq> None \<and> pg_locks s' = pg_locks s)"
proof -
  obtain r where "pgStmt (deleteLock key) s = (r, s')" and "e = errorOf r"
    using assms by (auto simp: step_defs split: prod.splits)
  then show ?thesis
    by (cases rule: pgStmt_cases) (auto simp: deleteLock_def errorOf_def)
qed

lemma pg_view_simps:
  "pg_view s k = Claimed \<longleftrightarrow> pg_idempotency s k = None \<and> k \<in> pg_locks s"
  "pg_view s k = Free \<longleftrightarrow> pg_idempotency s k = None \<and> k \<notin> pg_locks s"
  "pg_view s k = Done r \<longleftrightarrow> pg_idempotency s k = Some r"
  by (auto simp: pg_view_def split: option.splits)

lemma pg_view_cong:
  "pg_idempotency s' k = pg_idempotency s k \<Longrightarrow> k \<in> pg_locks s' \<longleftrightarrow> k \<in> pg_locks s \<Longrightarrow> pg_view s' k = pg_view s k"
  by (simp add: pg_view_def)

lemma pg_ClaimResult_frame:
  assumes "pg_ClaimResult k s = (x, s')" and "k' \<noteq> k"
  shows "pg_view s' k' = pg_view s k'"
proof (cases "k = []")
  case True
  with assms(1) have "s' = s" by (simp add: pg_ClaimResult_def)
  then show ?thesis by simp
next
  case False
  from pg_ClaimResult_cases [OF assms(1) False]
  have "pg_idempotency s' = pg_idempotency s" "pg_locks s' = pg_locks s \<or> pg_locks s' = insert k (pg_locks s)"
    by blast+
  with assms(2) show ?thesis by (metis pg_view_cong insert_iff)
qed

lemma pg_SaveResult_frame:
  assumes "pg_SaveResult k r s = (e, s')" and "k' \<noteq> k"
  shows "pg_view s' k' = pg_view s k'"
proof (cases "k = []")
  case True
  with assms(1) have "s' = s" by (simp add: pg_SaveResult_def)
  then show ?thesis by simp
next
  case False
  from pg_SaveResult_cases [OF assms(1) False] assms(2)
  have "pg_idempotency s' k' = pg_idempotency s k'" "k' \<in> pg_locks s' \<longleftrightarrow> k' \<in> pg_locks s"
    by (elim disjE; simp)+
  then show ?thesis by (rule pg_view_cong)
qed

lemma pg_ReleaseClaim_frame:
  assumes "pg_ReleaseClaim k s = (e, s')" and "k' \<noteq> k"
  shows "pg_view s' k' = pg_view s k'"
proof (cases "k = []")
  case True
  with assms(1) have "s' = s" by (simp add: pg_ReleaseClaim_def)
  then show ?thesis by simp
next
  case False
  from pg_ReleaseClaim_cases [OF assms(1) False] assms(2)
  have "pg_idempotency s' k' = pg_idempotency s k'" "k' \<in> pg_locks s' \<longleftrightarrow> k' \<in> pg_locks s" by auto
  then show ?thesis by (rule pg_view_cong)
qed

definition pgKeys :: "pgStore \<Rightarrow> (string \<rightharpoonup> TransferResponse) \<times> string set" where
  "pgKeys s = (pg_idempotency s, pg_locks s)"

interpretation pg: claim_store pg_ClaimResult pg_SaveResult pg_ReleaseClaim "\<lambda>s s'. pgKeys s' = pgKeys s" pg_view
proof (unfold_locales, goal_cases)
  case (1 k s r s')
  from pg_ClaimResult_cases [OF 1(2,1)] show ?case unfolding pg_view_simps by fastforce
next
  case (2 k s r c s')
  from pg_ClaimResult_cases [OF 2(2,1)] show ?case unfolding pg_view_simps by fastforce
next
  case (3 k s r s')
  from pg_ClaimResult_cases [OF 3(2,1)] show ?case by (intro pg_view_cong) fastforce+
next
  case (4 k s err s')
  from pg_ClaimResult_cases [OF 4(2,1)]
  have "pg_idempotency s' = pg_idempotency s"
    "pg_locks s' = pg_locks s \<or> pg_idempotency s k = None \<and> pg_locks s' = insert k (pg_locks s)"
    by blast+
  then show ?case unfolding pg_view_simps by (metis insertI1 insert_absorb pg_view_cong)
next
  case (5 k s r e s')
  from pg_SaveResult_cases [OF 5(3,1)] 5(2) show ?case unfolding pg_view_simps by fastforce
next
  case (6 k s e s')
  from pg_ReleaseClaim_cases [OF 6(3,1)] 6(2) show ?case unfolding pg_view_simps by fastforce
qed (simp_all add: pg_ClaimResult_frame pg_SaveResult_frame pg_ReleaseClaim_frame, simp add: pgKeys_def pg_view_def)

definition pgLife :: "duration \<Rightarrow> duration" where
  "pgLife ttl = f64ToInt (durationSeconds ttl) * second"

text \<open>What a call leaves of the nonce table: the rows it may drop have expired.\<close>

lemma pg_AcceptNonce_cases:
  assumes "pg_AcceptNonce now n ttl s = (r, s')" and "n \<noteq> []"
  obtains m where "\<And>k e. pg_nonces s k = Some e \<Longrightarrow> now \<le> e \<Longrightarrow> m k = Some e"
    and "r = Inr True \<and> m n = None \<and> pg_nonces s' = m(n \<mapsto> now + pgLife ttl) \<or>
      r = Inr False \<and> m n \<noteq> None \<and> pg_nonces s' = m \<or>
      (\<exists>e. r = Inl e) \<and> (pg_nonces s' = m \<or> m n = None \<and> pg_nonces s' = m(n \<mapsto> now + pgLife ttl))"
proof -
  obtain a s1 where a: "pgStmt (deleteExpired now) s = (a, s1)" by fastforce
  then have keep: "pg_nonces s k = Some e \<Longrightarrow> now \<le> e \<Longrightarrow> pg_nonces s1 k = Some e" for k e
    by (cases rule: pgStmt_cases) (auto simp: deleteExpired_def)
  obtain b s2 where b: "pgStmt (insertNonce now n ttl) s1 = (b, s2)" by fastforce
  have r: "s' = s2" "r = map_sum id (\<lambda>rows. rows = 1) b"
    using assms a b by (auto simp: pg_AcceptNonce_def split: sum.splits)
  from b have "b = Inr 1 \<and> pg_nonces s1 n = None \<and> pg_nonces s2 = (pg_nonces s1)(n \<mapsto> now + pgLife ttl) \<or>
      b = Inr 0 \<and> pg_nonces s1 n \<noteq> None \<and> pg_nonces s2 = pg_nonces s1 \<or>
      (\<exists>e. b = Inl e) \<and> (pg_nonces s2 = pg_nonces s1 \<or>
        pg_nonces s1 n = None \<and> pg_nonces s2 = (pg_nonces s1)(n \<mapsto> now + pgLife ttl))"
    by (cases rule: pgStmt_cases) (auto simp: insertNonce_def pgLife_def split: if_splits)
  with that [OF keep] r show thesis by auto
qed

lemma pg_AcceptNonce_Nil [simp]: "pg_AcceptNonce now [] ttl s = (Inr False, s)"
  by (simp add: pg_AcceptNonce_def)

interpretation pg_nonce: nonce_acceptor pg_AcceptNonce pg_nonces pgLife
proof unfold_locales
  fix now n ttl s s'
  assume a: "pg_AcceptNonce now n ttl s = (Inr True, s')"
  then have "n \<noteq> []" by auto
  from a this show "pg_nonces s' n = Some (now + pgLife ttl)"
    by (rule pg_AcceptNonce_cases) auto
next
  fix s n e now ttl r s'
  assume seen: "pg_nonces s n = Some e" "now \<le> e" and a: "pg_AcceptNonce now n ttl s = (r, s')"
  show "r \<noteq> Inr True"
  proof (cases "n = []")
    case False
    from a False obtain t where "\<And>k e. pg_nonces s k = Some e \<Longrightarrow> now \<le> e \<Longrightarrow> t k = Some e"
      and "r = Inr True \<Longrightarrow> t n = None"
      by (rule pg_AcceptNonce_cases) blast
    with seen show ?thesis by force
  qed (use a in auto)
next
  fix s n e now m ttl r s'
  assume seen: "pg_nonces s n = Some e" "now \<le> e" and a: "pg_AcceptNonce now m ttl s = (r, s')"
  show "pg_nonces s' n = Some e"
  proof (cases "m = []")
    case False
    from a False obtain t where t: "\<And>k e. pg_nonces s k = Some e \<Longrightarrow> now \<le> e \<Longrightarrow> t k = Some e"
      and "pg_nonces s' = t \<or> t m = None \<and> pg_nonces s' = t(m \<mapsto> now + pgLife ttl)"
      by (rule pg_AcceptNonce_cases) blast
    with t [OF seen] show ?thesis by auto
  qed (use a seen in auto)
qed

definition pg_used :: "pgStore \<Rightarrow> string \<Rightarrow> string \<Rightarrow> 64 word set" where
  "pg_used s w n = (\<lambda>r. word_of_int (pn_nonce r)) `
     set (filter (\<lambda>r. pn_wallet r = w \<and> pn_network r = n) (pg_chainNonces s))"

definition pg_ok :: "pgStore \<Rightarrow> bool" where
  "pg_ok s = (\<forall>r \<in> set (pg_chainNonces s). 0 \<le> pn_nonce r \<and> pn_nonce r < 9223372036854775808)"

lemma pg_used_iff: "pg_ok s \<Longrightarrow> x \<in> pg_used s w n \<longleftrightarrow> list_ex (hasNonce w n (uint x)) (pg_chainNonces s)"
  by (force simp: pg_used_def pg_ok_def list_ex_iff hasNonce_def uint_word_of_int_eq take_bit_int_eq_self image_iff)

lemma pg_used_append:
  "pg_chainNonces s' = pg_chainNonces s @ [\<lparr>pn_wallet = w, pn_network = n, pn_nonce = uint (x :: 64 word),
      pn_status = st, pn_txHash = h, pn_reason = e\<rparr>] \<Longrightarrow> pg_used s' w n = insert x (pg_used s w n)"
  by (simp add: pg_used_def)

lemma nextNonce_ge: "p \<le> nextNonce m p"
  by (auto simp: nextNonce_def split: option.splits)

text \<open>A reservation that succeeds adds one row, for a nonce that had none.\<close>

lemma reserveBody_cases:
  assumes "reserveBody w n p s = (Inr x, t)"
  shows "p \<le> x \<and> uint x < 9223372036854775808 \<and> \<not> list_ex (hasNonce w n (uint x)) (pg_chainNonces s) \<and>
    pg_chainNonces t = pg_chainNonces s @ [\<lparr>pn_wallet = w, pn_network = n,
        pn_nonce = uint x, pn_status = ''reserved'', pn_txHash = [], pn_reason = []\<rparr>]"
proof -
  obtain a s1 where a: "pgStmt (\<lambda>s. (Inr (), s)) s = (a, s1)" by fastforce
  then have s1: "pg_chainNonces s1 = pg_chainNonces s" by (cases rule: pgStmt_cases) auto
  obtain b s2 where b: "pgStmt (selectMaxNonce w n) s1 = (b, s2)" by fastforce
  then have s2: "pg_chainNonces s2 = pg_chainNonces s1"
    by (cases rule: pgStmt_cases) (auto simp: selectMaxNonce_def)
  from assms a b obtain m u where x: "x = nextNonce m p" and c: "pgStmt (insertChainNonce w n x) s2 = (Inr u, t)"
    by (auto simp: reserveBody_def Let_def split: sum.splits prod.splits)
  from c show ?thesis
    by (cases rule: pgStmt_cases) (auto simp: insertChainNonce_def s1 s2 x nextNonce_ge split: if_splits)
qed

lemma pg_ReserveChainNonce_cases:
  assumes "pg_ReserveChainNonce w n p s = (r, s')"
  obtains (won) x where "r = Inr x" "p \<le> x" "uint x < 9223372036854775808"
      "\<not> list_ex (hasNonce w n (uint x)) (pg_chainNonces s)"
      "pg_chainNonces s' = pg_chainNonces s @ [\<lparr>pn_wallet = w, pn_network = n,
        pn_nonce = uint x, pn_status = ''reserved'', pn_txHash = [], pn_reason = []\<rparr>]"
  | (refused) e where "r = Inl e" "pg_chainNonces s' = pg_chainNonces s"
  | (uncertain) e x where "r = Inl e" "uint x < 9223372036854775808"
      "pg_chainNonces s' = pg_chainNonces s @ [\<lparr>pn_wallet = w, pn_network = n,
        pn_nonce = uint (x :: 64 word), pn_status = ''reserved'', pn_txHash = [], pn_reason = []\<rparr>]"
proof -
  from assms have "pgTx (reserveBody w n p) s = (r, s')" by (simp add: pg_ReserveChainNonce_def)
  then show thesis
  proof (cases rule: pgTx_cases)
    case (committed fs a t fs')
    with reserveBody_cases [OF committed(1)] won show ?thesis by simp
  next
    case (failed fs e)
    with refused show ?thesis by simp
  next
    case (late fs a t fs' e)
    with reserveBody_cases [OF late(1)] uncertain show ?thesis by simp
  qed
qed

interpretation pg_resv: nonce_reserver pg_ReserveChainNonce pg_used pg_ok
proof unfold_locales
  fix s w n p x s'
  assume ok: "pg_ok s" and r: "pg_ReserveChainNonce w n p s = (Inr x, s')"
  from r show "x \<notin> pg_used s w n \<and> p \<le> x"
    by (rule pg_ReserveChainNonce_cases) (auto simp: pg_used_iff [OF ok])
  from r show "insert x (pg_used s w n) \<subseteq> pg_used s' w n"
    by (rule pg_ReserveChainNonce_cases) (auto simp: pg_used_append)
  from r ok show "pg_ok s'"
    by (cases rule: pg_ReserveChainNonce_cases) (auto simp: pg_ok_def)
next
  fix s w n p e s'
  assume ok: "pg_ok s" and r: "pg_ReserveChainNonce w n p s = (Inl e, s')"
  from r ok show "pg_used s w n \<subseteq> pg_used s' w n \<and> pg_ok s'"
    by (cases rule: pg_ReserveChainNonce_cases) (auto simp: pg_ok_def pg_used_append pg_used_def)
qed

section \<open>The contracts on the interface\<close>

text \<open>
  The signer calls its store through the interface; the dispatching operations keep the contracts
  because both implementations do.
\<close>

definition storeView :: "signerStore \<Rightarrow> string \<Rightarrow> keyState" where
  "storeView st = (case st of MemStore s \<Rightarrow> mem_view s | PgStore s \<Rightarrow> pg_view s)"

text \<open>What a store keeps about idempotency keys, and the changes that leave it alone.\<close>

definition keyView :: "signerStore \<Rightarrow> (string \<rightharpoonup> TransferResponse) \<times> string set" where
  "keyView st = (case st of MemStore s \<Rightarrow> (ms_results s, ms_locks s) | PgStore s \<Rightarrow> pgKeys s)"

definition keysKept :: "signerStore \<Rightarrow> signerStore \<Rightarrow> bool" where
  "keysKept st st' = (keyView st' = keyView st)"

lemma storeView_keyView:
  "storeView st k = (case fst (keyView st) k of Some r \<Rightarrow> Done r | None \<Rightarrow> if k \<in> snd (keyView st) then Claimed else Free)"
  by (cases st) (simp_all add: storeView_def keyView_def mem_view_def pg_view_def pgKeys_def)

definition usedNonces :: "signerStore \<Rightarrow> string \<Rightarrow> string \<Rightarrow> 64 word set" where
  "usedNonces st = (case st of MemStore s \<Rightarrow> mem_used s | PgStore s \<Rightarrow> pg_used s)"

definition noncesOk :: "signerStore \<Rightarrow> bool" where
  "noncesOk st = (case st of MemStore s \<Rightarrow> mem_ok s | PgStore s \<Rightarrow> pg_ok s)"

lemma onStore_cases:
  assumes "onStore f g st = (a, st')"
  obtains (mem) s s' where "st = MemStore s" "st' = MemStore s'" "f s = (a, s')"
  | (pg) s s' where "st = PgStore s" "st' = PgStore s'" "g s = (a, s')"
  using assms by (cases st) (auto simp: onStore_def split: prod.splits)

lemmas iface_defs = ClaimResult_def SaveResult_def ReleaseClaim_def ReserveChainNonce_def

interpretation iface: claim_store ClaimResult SaveResult ReleaseClaim keysKept storeView
proof (unfold_locales, goal_cases)
  case (1 k s r s')
  from 1(2) [unfolded iface_defs] show ?case
    using mem.claim_won [OF 1(1)] pg.claim_won [OF 1(1)]
    by (cases rule: onStore_cases) (simp_all add: storeView_def)
next
  case (2 k s r c s')
  from 2(2) [unfolded iface_defs] show ?case
    using mem.claim_done [OF 2(1)] pg.claim_done [OF 2(1)]
    by (cases rule: onStore_cases) (simp_all add: storeView_def)
next
  case (3 k s r s')
  from 3(2) [unfolded iface_defs] show ?case
    using mem.claim_busy [OF 3(1)] pg.claim_busy [OF 3(1)]
    by (cases rule: onStore_cases) (simp_all add: storeView_def)
next
  case (4 k s err s')
  from 4(2) [unfolded iface_defs] show ?case
    using mem.claim_err [OF 4(1)] pg.claim_err [OF 4(1)]
    by (cases rule: onStore_cases) (simp_all add: storeView_def)
next
  case (5 k s r e s')
  from 5(3) [unfolded iface_defs] 5(2) show ?case
    using mem.save_claimed [OF 5(1)] pg.save_claimed [OF 5(1)]
    by (cases rule: onStore_cases) (simp_all add: storeView_def)
next
  case (6 k s e s')
  from 6(3) [unfolded iface_defs] 6(2) show ?case
    using mem.release_claimed [OF 6(1)] pg.release_claimed [OF 6(1)]
    by (cases rule: onStore_cases) (simp_all add: storeView_def)
next
  case (7 k' k s x s')
  from 7(3) [unfolded iface_defs] show ?case
    using mem.claim_frame [OF 7(1,2)] pg.claim_frame [OF 7(1,2)]
    by (cases rule: onStore_cases) (simp_all add: storeView_def)
next
  case (8 k' k r s e s')
  from 8(3) [unfolded iface_defs] show ?case
    using mem.save_frame [OF 8(1,2)] pg.save_frame [OF 8(1,2)]
    by (cases rule: onStore_cases) (simp_all add: storeView_def)
next
  case (9 k' k s e s')
  from 9(3) [unfolded iface_defs] show ?case
    using mem.release_frame [OF 9(1,2)] pg.release_frame [OF 9(1,2)]
    by (cases rule: onStore_cases) (simp_all add: storeView_def)
next
  case (10 k s s')
  then show ?case by (simp add: storeView_keyView keysKept_def)
qed

interpretation iface_resv: nonce_reserver ReserveChainNonce usedNonces noncesOk
proof (unfold_locales, goal_cases)
  case (1 s w n p x s')
  from 1(2) [unfolded iface_defs] 1(1) show ?case
    by (cases rule: onStore_cases)
      (simp_all add: usedNonces_def noncesOk_def mem_resv.reserve_new pg_resv.reserve_new)
next
  case (2 s w n p x s')
  from 2(2) [unfolded iface_defs] 2(1) show ?case
    using mem_resv.reserve_used pg_resv.reserve_used
    by (cases rule: onStore_cases) (simp_all add: usedNonces_def noncesOk_def)
next
  case (3 s w n p e s')
  from 3(2) [unfolded iface_defs] 3(1) show ?case
    using mem_resv.reserve_error pg_resv.reserve_error
    by (cases rule: onStore_cases) (simp_all add: usedNonces_def noncesOk_def)
next
  case (4 s w n p x s')
  from 4(2) [unfolded iface_defs] 4(1,3) show ?case
    using mem_resv.reserve_ok pg_resv.reserve_ok
    by (cases rule: onStore_cases) (simp_all add: noncesOk_def)
qed

section \<open>Properties of the stores\<close>

text \<open>
  C4: Start from a store that does not know the idempotency key \<open>k\<close> and let any number of requests
  claim keys, execute, save or release in any interleaving of the store calls, each call one step, with any other
  change of the store in between that leaves the keys alone, and with
  every failure of the database the model allows. Then the payment with key \<open>k\<close> is executed at most once.
  (What two statements of one database call interleaved with another call can do is
  \<open>pg_claim_statements_race\<close>.)
\<close>

theorem at_most_one_execution_per_key:
  assumes "(pay_step ClaimResult SaveResult ReleaseClaim keysKept)\<^sup>*\<^sup>* (pay_init st) p"
    and "k \<noteq> []" and "storeView st k = Free"
  shows "length (executions k p) \<le> 1"
  using assms by (rule iface.at_most_one_execution)

definition demoResponse :: TransferResponse where
  "demoResponse = \<lparr>resp_TxHash = ''0x01'', resp_From = ''0xaa'', resp_Network = ''BSC''\<rparr>"

definition demoStore :: signerStore where
  "demoStore = MemStore (newMemorySignerStore id)"

definition demoClaimed :: signerStore where
  "demoClaimed = MemStore ((newMemorySignerStore id)\<lparr>ms_locks := {''k''}\<rparr>)"

definition demoSaved :: signerStore where
  "demoSaved = MemStore ((newMemorySignerStore id)\<lparr>ms_results := [''k'' \<mapsto> demoResponse]\<rparr>)"

definition demoPaid :: "signerStore payState" where
  "demoPaid = \<lparr>pay_store = demoSaved, pay_phase = (\<lambda>_. Idle)(0 := Finished), pay_log = [(''k'', demoResponse)]\<rparr>"

lemma demo_claim: "ClaimResult ''k'' demoStore = (Inr (emptyResponse, False, True), demoClaimed)"
  by (simp add: iface_defs onStore_def demoStore_def demoClaimed_def mem_ClaimResult_def newMemorySignerStore_def)

lemma demo_save: "SaveResult ''k'' demoResponse demoClaimed = (None, demoSaved)"
  by (simp add: iface_defs onStore_def demoClaimed_def demoSaved_def mem_SaveResult_def newMemorySignerStore_def)

lemma demo_run: "(pay_step ClaimResult SaveResult ReleaseClaim keysKept)\<^sup>*\<^sup>* (pay_init demoStore) demoPaid"
proof -
  let ?p1 = "\<lparr>pay_store = demoClaimed, pay_phase = (\<lambda>_. Idle)(0 := Running ''k''), pay_log = []\<rparr>"
  let ?p2 = "\<lparr>pay_store = demoClaimed, pay_phase = (\<lambda>_. Idle)(0 := Sent ''k'' demoResponse),
    pay_log = [(''k'', demoResponse)]\<rparr>"
  have "pay_step ClaimResult SaveResult ReleaseClaim keysKept (pay_init demoStore) ?p1"
    using pay_step.claimed [of "pay_init demoStore" 0 ClaimResult "''k''" emptyResponse demoClaimed] demo_claim
    by (simp add: pay_init_def)
  moreover have "pay_step ClaimResult SaveResult ReleaseClaim keysKept ?p1 ?p2"
    using pay_step.executed [of ?p1 0 "''k''" ClaimResult SaveResult ReleaseClaim keysKept demoResponse] by simp
  moreover have "pay_step ClaimResult SaveResult ReleaseClaim keysKept ?p2 demoPaid"
    using pay_step.saved [of ?p2 0 "''k''" demoResponse SaveResult None demoSaved] demo_save
    by (simp add: demoPaid_def)
  ultimately show ?thesis
    by (rule converse_rtranclp_into_rtranclp [OF _ converse_rtranclp_into_rtranclp [OF _ r_into_rtranclp]])
qed

lemma demo_free: "storeView demoStore ''k'' = Free"
  by (simp add: storeView_def demoStore_def mem_view_def newMemorySignerStore_def)

theorem at_most_one_execution_per_key_witness:
  "executions ''k'' demoPaid = [demoResponse] \<and> length (executions ''k'' demoPaid) \<le> 1"
  using at_most_one_execution_per_key [OF demo_run _ demo_free] by (simp add: executions_def demoPaid_def)

text \<open>
  C17: In the same runs, with each call of the store as one step, a claim that reports a stored response reports the
  response of the one execution of that key: a retried request never gets the response of another payment or of
  a payment that did not happen.
\<close>

theorem replayed_response_is_the_execution:
  assumes "(pay_step ClaimResult SaveResult ReleaseClaim keysKept)\<^sup>*\<^sup>* (pay_init st) p"
    and "k \<noteq> []" and "storeView st k = Free"
    and "ClaimResult k (pay_store p) = (Inr (r, True, c), st')"
  shows "executions k p = [r]"
  using assms by (rule iface.replay_returns_execution)

lemma demo_replay: "ClaimResult ''k'' (pay_store demoPaid) = (Inr (demoResponse, True, False), demoSaved)"
  by (simp add: iface_defs onStore_def demoPaid_def demoSaved_def mem_ClaimResult_def newMemorySignerStore_def)

theorem replayed_response_is_the_execution_witness: "executions ''k'' demoPaid = [demoResponse]"
  by (rule replayed_response_is_the_execution [OF demo_run _ demo_free demo_replay]) simp

text \<open>
  C12: However many reservations a wallet makes on a network, whatever pending nonces the chain
  reports and whichever of them fail in the database, no chain nonce is handed out twice, as long as
  the last 64-bit value is not reached.
\<close>

theorem chain_nonces_never_reused:
  assumes "noncesOk st" and "- 1 \<notin> set (reserve_all ReserveChainNonce w n ps st)"
  shows "distinct (reserve_all ReserveChainNonce w n ps st)"
  using assms by (rule iface_resv.reserve_all_distinct)

lemma demo_reserve:
  "reserve_all ReserveChainNonce ''0xaa'' ''BSC'' [5, 5, 4, 9] demoStore = [5, 6, 7, 9]"
  by (simp add: iface_defs onStore_def demoStore_def mem_ReserveChainNonce_def newMemorySignerStore_def
      chainNonceKey_def Let_def)

theorem chain_nonces_never_reused_witness:
  "reserve_all ReserveChainNonce ''0xaa'' ''BSC'' [5, 5, 4, 9] demoStore = [5, 6, 7, 9] \<and>
   distinct (reserve_all ReserveChainNonce ''0xaa'' ''BSC'' [5, 5, 4, 9] demoStore)"
proof -
  have "noncesOk demoStore" by (simp add: noncesOk_def demoStore_def mem_ok_def newMemorySignerStore_def)
  then show ?thesis
    using chain_nonces_never_reused [of demoStore "''0xaa''" "''BSC''" "[5, 5, 4, 9]"]
    unfolding demo_reserve by simp
qed

text \<open>
  Once the memory store has accepted a request nonce, it accepts it no more while it lives:
  whatever other calls come in between, a second call with the same nonce, not later than the
  lifetime, is not accepted.
\<close>

theorem mem_nonce_accepted_once:
  assumes "mem_AcceptNonce t n ttl s = (Inr True, s1)"
    and "\<forall>(now, m, d) \<in> set calls. now \<le> t + ttl" and "t2 \<le> t + ttl"
  shows "fst (mem_AcceptNonce t2 n ttl2 (accept_all mem_AcceptNonce calls s1)) \<noteq> Inr True"
  using assms by (rule mem_nonce.no_replay)

definition demoNonces :: memorySignerStore where
  "demoNonces = (newMemorySignerStore id)\<lparr>ms_nonces := [''n'' \<mapsto> 100]\<rparr>"

theorem mem_nonce_accepted_once_witness:
  "fst (mem_AcceptNonce 90 ''n'' 100 (accept_all mem_AcceptNonce [(50, ''m'', 100), (60, ''n'', 100)] demoNonces))
    \<noteq> Inr True"
  by (rule mem_nonce_accepted_once [of 0 "''n''" 100 "newMemorySignerStore id" demoNonces])
    (simp_all add: step_defs newMemorySignerStore_def demoNonces_def time_Add_def Let_def map_drop_def)

text \<open>
  C37: The database store keeps the same promise for the lifetime it stores, the whole seconds of the
  requested one, whatever statements fail: an error is never an acceptance.
\<close>

theorem pg_nonce_accepted_once:
  assumes "pg_AcceptNonce t n ttl s = (Inr True, s1)"
    and "\<forall>(now, m, d) \<in> set calls. now \<le> t + f64ToInt (durationSeconds ttl) * second"
    and "t2 \<le> t + f64ToInt (durationSeconds ttl) * second"
  shows "fst (pg_AcceptNonce t2 n ttl2 (accept_all pg_AcceptNonce calls s1)) \<noteq> Inr True"
  using pg_nonce.no_replay assms unfolding pgLife_def by blast

definition demoTables :: "pgFault list \<Rightarrow> pgStore" where
  "demoTables faults = \<lparr>pg_relations = {}, pg_nonces = Map.empty, pg_idempotency = Map.empty, pg_locks = {},
     pg_events = [], pg_incidents = [], pg_incidentSeq = 0, pg_chainNonces = [], pg_transactions = [], pg_faults = faults, pg_iter = id\<rparr>"

lemma demo_ttl: "f64ToInt (durationSeconds 1500000000) = 1"
  by code_simp

theorem pg_nonce_accepted_once_witness:
  "fst (pg_AcceptNonce 1000000000 ''n'' 1500000000
     (accept_all pg_AcceptNonce [(5, ''m'', 1500000000)]
       ((demoTables [])\<lparr>pg_nonces := [''n'' \<mapsto> 1000000000], pg_faults := []\<rparr>))) \<noteq> Inr True"
  by (rule pg_nonce_accepted_once [of 0 "''n''" 1500000000 "demoTables [Some (False, Err ''timeout''), None]"])
    (simp_all add: step_defs demoTables_def pgStmt_def popFault_def sql_defs demo_ttl second_def Let_def)

text \<open>
  A chain nonce whose transaction failed blocks the database store: its row stays in the table
  but no longer counts for the maximum, so a reservation that computes the same nonce again
  violates the primary key, every time.
\<close>

theorem pg_failed_nonce_wedges_reservation:
  assumes "r \<in> set (pg_chainNonces s)" and "hasNonce w n (uint p) r" and "reservedNonces w n s = []"
    and "pg_faults s = []" and "uint p < 9223372036854775808"
  shows "pg_ReserveChainNonce w n p s =
    (Inl (Err ''pq: duplicate key value violates unique constraint signer_chain_nonces_pkey''), s)"
proof -
  have "list_ex (hasNonce w n (uint p)) (pg_chainNonces s)" using assms(1,2) by (auto simp: list_ex_iff)
  with assms(3-5) show ?thesis
    by (simp add: step_defs pgTx_def pgStmt_def popFault_def reserveBody_def selectMaxNonce_def nextNonce_def
        insertChainNonce_def rollbackTo_def)
qed

definition failedNonceRow :: pgChainNonce where
  "failedNonceRow = \<lparr>pn_wallet = ''0xaa'', pn_network = ''BSC'', pn_nonce = 7, pn_status = ''failed'',
     pn_txHash = [], pn_reason = ''x''\<rparr>"

lemma demo_failed_run: "snd (pg_MarkChainNonceFailed ''0xaa'' ''BSC'' 7 ''x''
     (snd (pg_ReserveChainNonce ''0xaa'' ''BSC'' 7 (demoTables [])))) = (demoTables [])\<lparr>pg_chainNonces := [failedNonceRow]\<rparr>"
  by (simp add: step_defs pgTx_def pgStmt_def popFault_def reserveBody_def selectMaxNonce_def nextNonce_def
      sql_defs demoTables_def reservedNonces_def hasNonce_def failedNonceRow_def)

theorem pg_failed_nonce_wedges_reservation_witness:
  "fst (pg_ReserveChainNonce ''0xaa'' ''BSC'' 7 (snd (pg_MarkChainNonceFailed ''0xaa'' ''BSC'' 7 ''x''
     (snd (pg_ReserveChainNonce ''0xaa'' ''BSC'' 7 (demoTables [])))))) =
   Inl (Err ''pq: duplicate key value violates unique constraint signer_chain_nonces_pkey'')"
  unfolding demo_failed_run
  using pg_failed_nonce_wedges_reservation [of failedNonceRow "(demoTables [])\<lparr>pg_chainNonces := [failedNonceRow]\<rparr>"
      "''0xaa''" "''BSC''" 7]
  by (simp add: hasNonce_def failedNonceRow_def reservedNonces_def demoTables_def)

text \<open>
  The database store claims a key with two statements, a lookup of the stored result and an
  insertion of the lock. If another request saves its result (and so deletes the lock) between
  them, the insertion succeeds: the key of a payment already executed is claimed again.
\<close>

theorem pg_claim_statements_race:
  assumes "pg_faults s = []" and "pg_idempotency s k = None" and "k \<in> pg_locks s" and "k \<noteq> []"
  shows "fst (pg_GetResult k s) = Inr (emptyResponse, False) \<and>
    fst (pg_SaveResult k resp s) = None \<and> pg_idempotency (snd (pg_SaveResult k resp s)) k = Some resp \<and>
    fst (pgStmt (insertLock k) (snd (pg_SaveResult k resp s))) = Inr 1"
  using assms by (simp add: pg_GetResult_def pg_SaveResult_def pgTx_def pgStmt_def popFault_def
      insertResult_def deleteLock_def insertLock_def errorOf_def)

theorem pg_claim_statements_race_witness:
  "fst (pgStmt (insertLock ''k'') (snd (pg_SaveResult ''k'' demoResponse ((demoTables [])\<lparr>pg_locks := {''k''}\<rparr>)))) = Inr 1"
  using pg_claim_statements_race [of "(demoTables [])\<lparr>pg_locks := {''k''}\<rparr>" "''k''"]
  by (simp add: demoTables_def)

end
