(* ===== verification/Execute.thy ===== *)
theory Execute
  imports Amounts Signer_Store
begin

text \<open>
  Model of the executions of \<open>src/main.go\<close> (lines 547-1135): settlements, transfers and contract calls
  from their policy checks to \<open>SendTransaction\<close>, the retry over the RPC endpoints, the treasury limit,
  and the monitor of open transactions. A run threads the store, the RPC fleet the configuration points
  to (\<open>None\<close> for a nil pointer) and the log of the calls of \<open>SendTransaction\<close>. What an RPC node
  answers is an argument, per URL; \<open>None\<close> as the outcome of a run is a panic of the source. The store
  is never nil: \<open>main\<close> exits when \<open>openSignerStore\<close> fails.
\<close>

section \<open>RPC clients and the state of a run\<close>

record callMsg =
  cm_From :: address
  cm_To :: address
  cm_Value :: int
  cm_Data :: "byte list"

text \<open>What one connection answers during one attempt; every method is called at most once per attempt.\<close>

record ethClient =
  c_ChainID :: "int result"
  c_PendingNonceAt :: "address \<Rightarrow> 64 word result"
  c_SuggestGasPrice :: "int result"
  c_EstimateGas :: "callMsg \<Rightarrow> 64 word result"
  c_SendTransaction :: "signedTx \<Rightarrow> error option"

text \<open>One attempt at a URL: the dialled client, the instant at which it ends and its duration.\<close>

record attempt =
  at_client :: "ethClient result"
  at_end :: instant
  at_latency :: duration

record sentTx =
  sent_network :: string
  sent_chain :: int
  sent_tx :: ethTx
  sent_ok :: bool

record runState =
  w_store :: signerStore
  w_fleet :: "rpcFleet option"
  w_sent :: "sentTx list"

type_synonym outcome = "TransferResponse result option"

definition failWith :: "error \<Rightarrow> outcome" where
  "failWith e = Some (Inl e)"

section \<open>Sending through one client\<close>

definition custodyEvent :: "SignerConfig \<Rightarrow> string \<Rightarrow> string \<Rightarrow> string \<Rightarrow> (string \<times> eventValue) list \<Rightarrow> CustodyEvent" where
  "custodyEvent cfg kind txHash wallet data = \<lparr>ev_Kind = kind, ev_Reason = [], ev_Mode = CustodyMode cfg,
     ev_TxHash = txHash, ev_Wallet = wallet, ev_Data = data\<rparr>"

text \<open>
  The part the three executions share up to the gas price: the pending nonce, the reservation, the audit
  event whose error is dropped, the gas price.
\<close>

definition reserveForSend ::
    "geth \<Rightarrow> SignerConfig \<Rightarrow> ethClient \<Rightarrow> address \<Rightarrow> string \<Rightarrow> (string \<times> eventValue) list \<Rightarrow> signerStore \<Rightarrow>
      (64 word \<times> int) result \<times> signerStore" where
  "reserveForSend eth cfg client from network extra st =
     (case c_PendingNonceAt client from of
        Inl e \<Rightarrow> (Inl (Wrap ''falha ao obter nonce'' e), st)
      | Inr chainPending \<Rightarrow> (case ReserveChainNonce (AddressHex eth from) network chainPending st of
          (Inl e, st1) \<Rightarrow> (Inl (Wrap ''falha ao reservar nonce'' e), st1)
        | (Inr nonce, st1) \<Rightarrow> (let
            st2 = snd (RecordCustodyEvent (custodyEvent cfg ''nonce_reserved'' [] (AddressHex eth from)
              ([(''nonce'', EvNum nonce), (''network'', EvText network)] @ extra)) st1)
            in case c_SuggestGasPrice client of
              Inl e \<Rightarrow> (Inl (Wrap ''falha ao obter gas price'' e), st2)
            | Inr gasPrice \<Rightarrow> (Inr (nonce, gasPrice), st2))))"

definition gasOr :: "64 word \<Rightarrow> ethClient \<Rightarrow> callMsg \<Rightarrow> 64 word" where
  "gasOr fallback client msg = (case c_EstimateGas client msg of
     Inl _ \<Rightarrow> fallback | Inr gasLimit \<Rightarrow> if gasLimit = 0 then fallback else gasLimit)"

text \<open>
  The part they share from the signature on. \<open>item\<close> is the transaction record without its hash and
  status; the errors of the store are dropped, as the source assigns them to the blank identifier.
\<close>

definition signAndSend ::
    "geth \<Rightarrow> SignerConfig \<Rightarrow> instant \<Rightarrow> ethClient \<Rightarrow> privateKey \<Rightarrow> address \<Rightarrow> string \<Rightarrow> int \<Rightarrow> ethTx \<Rightarrow>
      SignerTransaction \<Rightarrow> (string \<times> eventValue) list \<Rightarrow> runState \<Rightarrow> outcome \<times> runState" where
  "signAndSend eth cfg now client key from network chainID tx item extra w = (let
     wallet = AddressHex eth from
     in case SignTx eth tx chainID key of
       Inl e \<Rightarrow> (failWith (Wrap ''falha ao assinar tx'' e),
         w\<lparr>w_store := snd (MarkChainNonceFailed wallet network (tx_nonce tx) (errorText e) (w_store w))\<rparr>)
     | Inr raw \<Rightarrow> (let
         txHash = HashHex eth (SignedHash eth raw);
         sent = w_sent w @ [\<lparr>sent_network = network, sent_chain = chainID, sent_tx = tx,
           sent_ok = (c_SendTransaction client raw = None)\<rparr>]
         in case c_SendTransaction client raw of
           Some e \<Rightarrow> (let
             st1 = snd (MarkChainNonceFailed wallet network (tx_nonce tx) (errorText e) (w_store w));
             st2 = snd (CreateSignerTransaction now (item\<lparr>stx_TxHash := txHash, stx_Status := ''failed'',
               stx_Reason := errorText e\<rparr>) st1)
             in (failWith (Wrap ''falha ao transmitir tx'' e), w\<lparr>w_store := st2, w_sent := sent\<rparr>))
         | None \<Rightarrow> (let
             st1 = snd (MarkChainNonceSubmitted wallet network (tx_nonce tx) txHash (w_store w));
             st2 = snd (CreateSignerTransaction now (item\<lparr>stx_TxHash := txHash, stx_Status := ''submitted''\<rparr>) st1);
             st3 = snd (RecordCustodyEvent (custodyEvent cfg ''tx_submitted'' txHash wallet extra) st2)
             in (Some (Inr \<lparr>resp_TxHash = txHash, resp_From = wallet, resp_Network = network\<rparr>),
                 w\<lparr>w_store := st3, w_sent := sent\<rparr>))))"

definition txItem :: "geth \<Rightarrow> string \<Rightarrow> address \<Rightarrow> string \<Rightarrow> string \<Rightarrow> string \<Rightarrow> string \<Rightarrow> 64 word \<Rightarrow> SignerTransaction" where
  "txItem eth key from to token amount network nonce = \<lparr>stx_IdempotencyKey = key, stx_WalletFrom = AddressHex eth from,
     stx_WalletTo = to, stx_Token = token, stx_Amount = amount, stx_Network = network, stx_Nonce = nonce,
     stx_TxHash = [], stx_Status = [], stx_Reason = [], stx_Confirmations = 0\<rparr>"

section \<open>Retrying over the endpoints\<close>

text \<open>
  The loop over the candidates. \<open>run\<close> is the attempt with a dialled client, given the instant at which
  the attempt ends; \<open>f\<close> is the fleet the loop reports to and \<open>lastErr\<close> the error of the last failure.
\<close>

fun sendLoop ::
    "(string \<Rightarrow> attempt) \<Rightarrow> (instant \<Rightarrow> ethClient \<Rightarrow> runState \<Rightarrow> outcome \<times> runState) \<Rightarrow> error option \<Rightarrow> rpcHandle list \<Rightarrow>
      rpcFleet \<Rightarrow> runState \<Rightarrow> outcome \<times> rpcFleet \<times> runState" where
  "sendLoop net run lastErr [] f w =
     (failWith (case lastErr of None \<Rightarrow> Err ''nenhum RPC BSC disponivel'' | Some e \<Rightarrow> e), f, w)"
| "sendLoop net run lastErr (handle # handles) f w = (let a = net (h_url handle) in
     case at_client a of
       Inl e \<Rightarrow> sendLoop net run (Some (Wrap (h_name handle @ '' indisponivel'') e)) handles
         (recordFailure (at_end a) (h_id handle) (classifyRPCFailure (Some e)) f) w
     | Inr client \<Rightarrow> (case run (at_end a) client w of
         (None, w1) \<Rightarrow> (None, f, w1)
       | (Some (Inl e), w1) \<Rightarrow> sendLoop net run (Some (Wrap (h_name handle @ '' falhou'') e)) handles
           (recordFailure (at_end a) (h_id handle) (classifyRPCFailure (Some e)) f) w1
       | (Some (Inr resp), w1) \<Rightarrow>
           (Some (Inr resp), recordSuccess (at_end a) (h_id handle) (at_latency a) f, w1)))"

text \<open>The fleet of the configuration keeps what the loop reports; a fleet made for the call is dropped.\<close>

definition sendVia ::
    "SignerConfig \<Rightarrow> instant \<Rightarrow> (string \<Rightarrow> attempt) \<Rightarrow> (instant \<Rightarrow> ethClient \<Rightarrow> runState \<Rightarrow> outcome \<times> runState) \<Rightarrow>
      runState \<Rightarrow> outcome \<times> runState" where
  "sendVia cfg now net run w = (let
     fleet = (case w_fleet w of Some f \<Rightarrow> f | None \<Rightarrow> newRPCFleet now (RPCURLs cfg));
     keep = (\<lambda>f w1. if w_fleet w = None then w1 else w1\<lparr>w_fleet := Some f\<rparr>)
     in case sendCandidates now (int (length (RPCURLs cfg))) fleet of
       (None, f) \<Rightarrow> (None, keep f w)
     | (Some handles, f) \<Rightarrow> (let (r, f1, w1) = sendLoop net run None handles f w in (r, keep f1 w1)))"

text \<open>The simulated response of the three executions.\<close>

definition simulated :: "geth \<Rightarrow> address \<Rightarrow> string \<Rightarrow> string \<Rightarrow> outcome" where
  "simulated eth from network seed = Some (Inr \<lparr>resp_TxHash = HashHex eth (Keccak256 eth (stringBytes seed)),
     resp_From = AddressHex eth from, resp_Network = network\<rparr>)"

definition withKey ::
    "geth \<Rightarrow> SignerConfig \<Rightarrow> (privateKey \<Rightarrow> address \<Rightarrow> outcome \<times> runState) \<Rightarrow> runState \<Rightarrow> outcome \<times> runState" where
  "withKey eth cfg k w = (case HexToECDSA eth (TrimPrefix (EVMPrivateKey cfg) ''0x'') of
     Inl e \<Rightarrow> (failWith (Wrap ''EVM_PRIVATE_KEY invalida'' e), w)
   | Inr key \<Rightarrow> k key (PubkeyToAddress eth key))"

section \<open>Settlements\<close>

definition settlementNetwork :: "SignerConfig \<Rightarrow> SettlementExecuteRequest \<Rightarrow> string" where
  "settlementNetwork cfg req = (let
     trimmed = ToUpper (TrimSpace (se_Network req));
     network = (if trimmed = [] then DefaultNetwork cfg else trimmed)
     in if network = ''BINANCE'' \<or> network = ''BEP20'' then ''BSC'' else network)"

text \<open>\<open>time.Parse(time.RFC3339)\<close> accepts fractional seconds, so the second layout of the source adds nothing.\<close>

definition validateSettlementExecuteRequest ::
    "geth \<Rightarrow> SignerConfig \<Rightarrow> instant \<Rightarrow> SettlementExecuteRequest \<Rightarrow> (string \<times> int) result" where
  "validateSettlementExecuteRequest eth cfg now req = (let
     network = settlementNetwork cfg req;
     operationIDHex = TrimPrefix (TrimSpace (se_OperationID req)) ''0x''
     in if network \<notin> AllowedNetworks cfg then Inl (Err (''rede nao permitida: '' @ network))
     else if network \<noteq> ''BSC'' \<and> network \<noteq> ''EVM'' then Inl (Err (''rede nao suportada: '' @ network))
     else if se_ChainID req = 0 then Inl (Err ''chainId obrigatorio'')
     else if network = ''BSC'' \<and> BSCChainID cfg > 0 \<and> se_ChainID req \<noteq> word_of_int (BSCChainID cfg)
     then Inl (Err (''chainId divergente para BSC: '' @ FormatInt (uint (se_ChainID req))))
     else if TrimSpace (se_OperationID req) = [] then Inl (Err ''operationId obrigatorio'')
     else if length operationIDHex \<noteq> 64 then Inl (Err ''operationId invalido'')
     else if hexDecodeString operationIDHex = None then Inl (Err ''operationId invalido'')
     else if TrimSpace (se_SettlementIntentID req) = [] then Inl (Err ''settlementIntentId obrigatorio'')
     else if TrimSpace (se_OrderID req) = [] then Inl (Err ''orderId obrigatorio'')
     else if \<not> IsHexAddress eth (se_Vault req) then Inl (Err ''vault EVM invalido'')
     else if TrimSpace (BSCTreasuryContract cfg) = [] then Inl (Err ''BSC_TREASURY_CONTRACT obrigatorio'')
     else if \<not> EqualFold (se_Vault req) (BSCTreasuryContract cfg) then Inl (Err ''vault nao autorizado'')
     else if \<not> IsHexAddress eth (se_Token req) then Inl (Err ''token EVM invalido'')
     else if TrimSpace (BSCUSDTContract cfg) = [] then Inl (Err ''BSC_USDT_CONTRACT obrigatorio'')
     else if \<not> EqualFold (se_Token req) (BSCUSDTContract cfg) then Inl (Err ''token divergente do BSC_USDT_CONTRACT'')
     else if AllowedTokenContracts cfg \<noteq> {} \<and> ToUpper (TrimSpace (se_Token req)) \<notin> AllowedTokenContracts cfg
     then Inl (Err ''token contract nao permitido'')
     else if \<not> IsHexAddress eth (se_Recipient req) then Inl (Err ''recipient EVM invalido'')
     else case SetString10 (TrimSpace (se_AmountRaw req)) of
       None \<Rightarrow> Inl (Err ''amountRaw invalido'')
     | Some amount \<Rightarrow>
         if amount \<le> 0 then Inl (Err ''amountRaw invalido'')
         else if TrimSpace (se_PolicyVersion req) \<noteq> settlementPolicyVersion then Inl (Err ''policyVersion invalida'')
         else case parseRFC3339 (se_ExpiresAt req) of
           None \<Rightarrow> Inl (Err ''expiresAt invalido'')
         | Some expiresAt \<Rightarrow>
             if \<not> now < expiresAt then Inl (Err ''SETTLEMENT_AUTHORIZATION_EXPIRED'')
             else case settlementOperationID eth (sint (se_ChainID req)) (se_Vault req) (se_SettlementIntentID req)
                 (se_Token req) (se_Recipient req) amount of
               Inl e \<Rightarrow> Inl e
             | Inr expected \<Rightarrow>
                 if HexToHash eth (se_OperationID req) \<noteq> expected then Inl (Err ''SETTLEMENT_OPERATION_ID_MISMATCH'')
                 else Inr (network, amount))"

definition executeEVMSettlementWithClient ::
    "geth \<Rightarrow> SignerConfig \<Rightarrow> SettlementExecuteRequest \<Rightarrow> string \<Rightarrow> privateKey \<Rightarrow> address \<Rightarrow> int \<Rightarrow> instant \<Rightarrow> ethClient \<Rightarrow>
      runState \<Rightarrow> outcome \<times> runState" where
  "executeEVMSettlementWithClient eth cfg req network key from amount now client w =
     (case c_ChainID client of
        Inl e \<Rightarrow> (failWith (Wrap ''falha ao obter chain id'' e), w)
      | Inr chainID \<Rightarrow>
          if chainID \<noteq> uint (se_ChainID req)
          then (failWith (Err (''chain id inesperado para settlement: '' @ FormatInt chainID)), w)
          else (case reserveForSend eth cfg client from network
              [(''type'', EvText ''settlement''), (''operationId'', EvText (se_OperationID req))] (w_store w) of
            (Inl e, st) \<Rightarrow> (failWith e, w\<lparr>w_store := st\<rparr>)
          | (Inr (nonce, gasPrice), st) \<Rightarrow> (case vaultPayoutData eth (HexToHash eth (se_OperationID req))
                (HexToAddress eth (se_Token req)) (HexToAddress eth (se_Recipient req)) amount of
              Inl e \<Rightarrow> (failWith e, w\<lparr>w_store := st\<rparr>)
            | Inr data \<Rightarrow> (let
                vault = HexToAddress eth (se_Vault req);
                gasLimit = gasOr 350000 client \<lparr>cm_From = from, cm_To = vault, cm_Value = 0, cm_Data = data\<rparr>
                in signAndSend eth cfg now client key from network chainID
                  \<lparr>tx_nonce = nonce, tx_to = vault, tx_value = 0, tx_gas = gasLimit, tx_gasPrice = gasPrice, tx_data = data\<rparr>
                  (txItem eth (se_IdempotencyKey req) from (se_Vault req) (se_Token req) (se_AmountRaw req) network nonce)
                  [(''type'', EvText ''settlement''), (''operationId'', EvText (se_OperationID req))]
                  (w\<lparr>w_store := st\<rparr>)))))"

definition executeEVMSettlement ::
    "geth \<Rightarrow> SignerConfig \<Rightarrow> instant \<Rightarrow> (string \<Rightarrow> attempt) \<Rightarrow> SettlementExecuteRequest \<Rightarrow> string \<Rightarrow> int \<Rightarrow>
      runState \<Rightarrow> outcome \<times> runState" where
  "executeEVMSettlement eth cfg now net req network amount w = withKey eth cfg (\<lambda>key from.
     if AllowSimulation cfg
     then (simulated eth from network (se_IdempotencyKey req @ se_OperationID req @ se_Vault req), w)
     else sendVia cfg now net (executeEVMSettlementWithClient eth cfg req network key from amount) w) w"

definition executeSettlement ::
    "geth \<Rightarrow> SignerConfig \<Rightarrow> instant \<Rightarrow> (string \<Rightarrow> attempt) \<Rightarrow> SettlementExecuteRequest \<Rightarrow>
      runState \<Rightarrow> outcome \<times> runState" where
  "executeSettlement eth cfg now net req w =
     (case validateSettlementExecuteRequest eth cfg now req of
        Inl e \<Rightarrow> (failWith e, w)
      | Inr (network, amount) \<Rightarrow>
          if network = ''BSC'' \<or> network = ''EVM'' then executeEVMSettlement eth cfg now net req network amount w
          else (failWith (Err (''rede nao suportada: '' @ network)), w))"

section \<open>Treasury limits\<close>

text \<open>
  The last part of both treasury checks: the outflow of the day for the token and network, the two
  limits, and the audit event of a refusal.
\<close>

definition treasuryError :: "string \<Rightarrow> f64 \<Rightarrow> string \<Rightarrow> f64 \<Rightarrow> error" where
  "treasuryError text1 next text2 limit = Err (text1 @ fmtF8 next @ text2 @ fmtF8 limit)"

definition treasuryCheck ::
    "SignerConfig \<Rightarrow> instant \<Rightarrow> string \<Rightarrow> string \<Rightarrow> f64 \<Rightarrow> (string \<times> eventValue) list \<Rightarrow> signerStore \<Rightarrow>
      error option \<times> signerStore" where
  "treasuryCheck cfg now token network amount extra st =
     (case DailySubmittedOutflow now token network st of
        (Inl e, st1) \<Rightarrow> (Some (Wrap ''falha ao consultar treasury outflow'' e), st1)
      | (Inr outflow, st1) \<Rightarrow> (let
          next = outflow + amount;
          event = (\<lambda>kind reason. \<lparr>ev_Kind = kind, ev_Reason = reason, ev_Mode = CustodyMode cfg, ev_TxHash = [],
            ev_Wallet = [], ev_Data = (''nextOutflow'', EvFloat next) # extra\<rparr>)
          in if TreasuryLockThreshold cfg > Fin 0 \<and> next > TreasuryLockThreshold cfg
          then (Some (treasuryError ''treasury lockdown: saida diaria '' next '' acima do limite '' (TreasuryLockThreshold cfg)),
            snd (RecordCustodyEvent (event ''treasury_lockdown_threshold'' ''limite de lockdown diario excedido'') st1))
          else if TreasuryMaxDailyOut cfg > Fin 0 \<and> next > TreasuryMaxDailyOut cfg
          then (Some (treasuryError ''limite diario de treasury excedido: '' next '' > '' (TreasuryMaxDailyOut cfg)),
            snd (RecordCustodyEvent (event ''treasury_daily_limit'' ''limite diario excedido'') st1))
          else (None, st1)))"

definition validateTreasuryPolicy ::
    "SignerConfig \<Rightarrow> instant \<Rightarrow> TransferRequest \<Rightarrow> string \<Rightarrow> signerStore \<Rightarrow> error option \<times> signerStore" where
  "validateTreasuryPolicy cfg now req network st =
     (case parseFloatAmount (tr_Amount req) of
        Inl e \<Rightarrow> (Some e, st)
      | Inr amount \<Rightarrow> treasuryCheck cfg now (normalizedTokenContract cfg req network) network amount [] st)"

definition validateContractCallTreasuryPolicy ::
    "SignerConfig \<Rightarrow> instant \<Rightarrow> ContractCallRequest \<Rightarrow> string \<Rightarrow> signerStore \<Rightarrow> error option \<times> signerStore" where
  "validateContractCallTreasuryPolicy cfg now req network st =
     (if TrimSpace (cc_Amount req) = [] then (None, st)
      else case parseFloatAmount (cc_Amount req) of
        Inl e \<Rightarrow> (Some e, st)
      | Inr amount \<Rightarrow> treasuryCheck cfg now (TrimSpace (cc_TokenContract req)) network amount
          [(''type'', EvText ''contract_call'')] st)"

section \<open>Transfers\<close>

text \<open>
  The transaction of a transfer: a call of the token contract when one applies, else a transfer of the
  native coin. The inner \<open>option\<close> is the panic of \<open>erc20TransferData\<close>.
\<close>

definition chainCheck :: "string \<Rightarrow> int \<Rightarrow> error option" where
  "chainCheck network chainID = (if network = ''BSC'' \<and> chainID \<noteq> 56
     then Some (Err (''chain id inesperado para BSC: '' @ FormatInt chainID)) else None)"

definition transferTx ::
    "geth \<Rightarrow> SignerConfig \<Rightarrow> TransferRequest \<Rightarrow> string \<Rightarrow> ethClient \<Rightarrow> address \<Rightarrow> 64 word \<Rightarrow> int \<Rightarrow> ethTx result option" where
  "transferTx eth cfg req network client from nonce gasPrice = (let
     to = HexToAddress eth (tr_To req);
     tokenContract = normalizedTokenContract cfg req network;
     token = HexToAddress eth tokenContract
     in if TrimSpace tokenContract \<noteq> [] \<and> token \<noteq> zeroAddress then
       (case parseUnits (tr_Amount req) (TokenDecimals cfg) of
          Inl e \<Rightarrow> Some (Inl e)
        | Inr amount \<Rightarrow> (case erc20TransferData to amount of
            None \<Rightarrow> None
          | Some data \<Rightarrow> Some (Inr \<lparr>tx_nonce = nonce, tx_to = token, tx_value = 0,
              tx_gas = gasOr 120000 client \<lparr>cm_From = from, cm_To = token, cm_Value = 0, cm_Data = data\<rparr>,
              tx_gasPrice = gasPrice, tx_data = data\<rparr>)))
     else
       (case parseUnits (tr_Amount req) 18 of
          Inl e \<Rightarrow> Some (Inl e)
        | Inr amount \<Rightarrow> Some (Inr \<lparr>tx_nonce = nonce, tx_to = to, tx_value = amount,
              tx_gas = gasOr 21000 client \<lparr>cm_From = from, cm_To = to, cm_Value = amount, cm_Data = []\<rparr>,
              tx_gasPrice = gasPrice, tx_data = []\<rparr>)))"

definition executeEVMTransferWithClient ::
    "geth \<Rightarrow> SignerConfig \<Rightarrow> TransferRequest \<Rightarrow> string \<Rightarrow> privateKey \<Rightarrow> address \<Rightarrow> instant \<Rightarrow> ethClient \<Rightarrow>
      runState \<Rightarrow> outcome \<times> runState" where
  "executeEVMTransferWithClient eth cfg req network key from now client w =
     (case c_ChainID client of
        Inl e \<Rightarrow> (failWith (Wrap ''falha ao obter chain id'' e), w)
      | Inr chainID \<Rightarrow> (case chainCheck network chainID of
          Some e \<Rightarrow> (failWith e, w)
        | None \<Rightarrow> (case reserveForSend eth cfg client from network [] (w_store w) of
            (Inl e, st) \<Rightarrow> (failWith e, w\<lparr>w_store := st\<rparr>)
          | (Inr (nonce, gasPrice), st) \<Rightarrow> (case transferTx eth cfg req network client from nonce gasPrice of
              None \<Rightarrow> (None, w\<lparr>w_store := st\<rparr>)
            | Some (Inl e) \<Rightarrow> (failWith e, w\<lparr>w_store := st\<rparr>)
            | Some (Inr tx) \<Rightarrow> signAndSend eth cfg now client key from network chainID tx
                (txItem eth (tr_IdempotencyKey req) from (tr_To req) (normalizedTokenContract cfg req network)
                  (tr_Amount req) network nonce) [] (w\<lparr>w_store := st\<rparr>)))))"

definition executeEVMTransfer ::
    "geth \<Rightarrow> SignerConfig \<Rightarrow> instant \<Rightarrow> (string \<Rightarrow> attempt) \<Rightarrow> TransferRequest \<Rightarrow> string \<Rightarrow>
      runState \<Rightarrow> outcome \<times> runState" where
  "executeEVMTransfer eth cfg now net req network w = withKey eth cfg (\<lambda>key from.
     if AllowSimulation cfg
     then (simulated eth from network (tr_IdempotencyKey req @ tr_To req @ tr_Amount req), w)
     else sendVia cfg now net (executeEVMTransferWithClient eth cfg req network key from) w) w"

definition executeTransfer ::
    "geth \<Rightarrow> SignerConfig \<Rightarrow> instant \<Rightarrow> (string \<Rightarrow> attempt) \<Rightarrow> TransferRequest \<Rightarrow> runState \<Rightarrow> outcome \<times> runState" where
  "executeTransfer eth cfg now net req w = (let network = requestedNetwork cfg req in
     case validateTransferPolicy eth cfg req network of
       Some e \<Rightarrow> (failWith e, w)
     | None \<Rightarrow> (case validateTreasuryPolicy cfg now req network (w_store w) of
         (Some e, st) \<Rightarrow> (failWith e, w\<lparr>w_store := st\<rparr>)
       | (None, st) \<Rightarrow>
           if tr_DerivationIndex req \<noteq> None
           then (failWith (Err ''derivacao HD ainda nao habilitada para assinatura de hot wallet''), w\<lparr>w_store := st\<rparr>)
           else if network = ''BSC'' \<or> network = ''EVM''
           then executeEVMTransfer eth cfg now net req network (w\<lparr>w_store := st\<rparr>)
           else (failWith (Err (''rede nao suportada: '' @ network)), w\<lparr>w_store := st\<rparr>)))"

section \<open>Contract calls\<close>

definition executeEVMContractCallWithClient ::
    "geth \<Rightarrow> SignerConfig \<Rightarrow> ContractCallRequest \<Rightarrow> string \<Rightarrow> privateKey \<Rightarrow> address \<Rightarrow> instant \<Rightarrow> ethClient \<Rightarrow>
      runState \<Rightarrow> outcome \<times> runState" where
  "executeEVMContractCallWithClient eth cfg req network key from now client w =
     (case c_ChainID client of
        Inl e \<Rightarrow> (failWith (Wrap ''falha ao obter chain id'' e), w)
      | Inr chainID \<Rightarrow> (case chainCheck network chainID of
          Some e \<Rightarrow> (failWith e, w)
        | None \<Rightarrow> (case reserveForSend eth cfg client from network [(''type'', EvText ''contract_call'')] (w_store w) of
            (Inl e, st) \<Rightarrow> (failWith e, w\<lparr>w_store := st\<rparr>)
          | (Inr (nonce, gasPrice), st) \<Rightarrow> (case decodeHexData (cc_Data req) of
              Inl e \<Rightarrow> (failWith e, w\<lparr>w_store := st\<rparr>)
            | Inr data \<Rightarrow> (let
                to = HexToAddress eth (cc_To req);
                gasLimit = gasOr 350000 client \<lparr>cm_From = from, cm_To = to, cm_Value = 0, cm_Data = data\<rparr>
                in signAndSend eth cfg now client key from network chainID
                  \<lparr>tx_nonce = nonce, tx_to = to, tx_value = 0, tx_gas = gasLimit, tx_gasPrice = gasPrice, tx_data = data\<rparr>
                  (txItem eth (cc_IdempotencyKey req) from (cc_To req) (TrimSpace (cc_TokenContract req))
                    (firstNonEmptySigner [cc_Amount req, ''0'']) network nonce)
                  [(''type'', EvText ''contract_call'')] (w\<lparr>w_store := st\<rparr>))))))"

definition executeEVMContractCall ::
    "geth \<Rightarrow> SignerConfig \<Rightarrow> instant \<Rightarrow> (string \<Rightarrow> attempt) \<Rightarrow> ContractCallRequest \<Rightarrow> string \<Rightarrow>
      runState \<Rightarrow> outcome \<times> runState" where
  "executeEVMContractCall eth cfg now net req network w = withKey eth cfg (\<lambda>key from.
     if AllowSimulation cfg
     then (simulated eth from network (cc_IdempotencyKey req @ cc_To req @ cc_Data req), w)
     else sendVia cfg now net (executeEVMContractCallWithClient eth cfg req network key from) w) w"

definition executeContractCall ::
    "geth \<Rightarrow> SignerConfig \<Rightarrow> instant \<Rightarrow> (string \<Rightarrow> attempt) \<Rightarrow> ContractCallRequest \<Rightarrow> runState \<Rightarrow> outcome \<times> runState" where
  "executeContractCall eth cfg now net req w = (let network = requestedContractNetwork cfg req in
     case validateContractCallPolicy eth cfg req network of
       Some e \<Rightarrow> (failWith e, w)
     | None \<Rightarrow> (case validateContractCallTreasuryPolicy cfg now req network (w_store w) of
         (Some e, st) \<Rightarrow> (failWith e, w\<lparr>w_store := st\<rparr>)
       | (None, st) \<Rightarrow>
           if cc_DerivationIndex req \<noteq> None
           then (failWith (Err ''derivacao HD ainda nao habilitada para assinatura de hot wallet''), w\<lparr>w_store := st\<rparr>)
           else if network = ''BSC'' \<or> network = ''EVM''
           then executeEVMContractCall eth cfg now net req network (w\<lparr>w_store := st\<rparr>)
           else (failWith (Err (''rede nao suportada: '' @ network)), w\<lparr>w_store := st\<rparr>)))"

section \<open>The monitor of open transactions\<close>

text \<open>
  One round of \<open>startTxLifecycleMonitor\<close>. The receipts a node reports are an argument, per URL: \<open>None\<close>
  when it cannot be dialled, else per hash \<open>None\<close> for an error or no receipt, and \<open>Some failed\<close>.
\<close>

type_synonym receipts = "hash \<Rightarrow> bool option"

definition checkItem :: "geth \<Rightarrow> SignerConfig \<Rightarrow> receipts \<Rightarrow> SignerTransaction \<Rightarrow> signerStore \<Rightarrow> signerStore" where
  "checkItem eth cfg rcpt item st = (case rcpt (HexToHash eth (stx_TxHash item)) of
     None \<Rightarrow> st
   | Some failed \<Rightarrow> (let
       status = (if failed then ''reverted'' else ''confirmed'');
       reason = (if failed then ''receipt status failed'' else []);
       st1 = snd (MarkSignerTransactionStatus (stx_TxHash item) status reason 1 st)
       in snd (RecordCustodyEvent (custodyEvent cfg (''tx_'' @ status) (stx_TxHash item) (stx_WalletFrom item) []) st1)))"

fun firstDialled :: "(string \<Rightarrow> receipts option) \<Rightarrow> string list \<Rightarrow> receipts option" where
  "firstDialled net [] = None"
| "firstDialled net (url # urls) = (case net url of Some r \<Rightarrow> Some r | None \<Rightarrow> firstDialled net urls)"

definition checkSignerTransactions ::
    "geth \<Rightarrow> SignerConfig \<Rightarrow> (string \<Rightarrow> receipts option) \<Rightarrow> signerStore \<Rightarrow> signerStore" where
  "checkSignerTransactions eth cfg net st = (case ListOpenSignerTransactions 50 st of
     (Inl _, st1) \<Rightarrow> st1
   | (Inr items, st1) \<Rightarrow>
       if items = [] then st1
       else case firstDialled net (RPCURLs cfg) of
         None \<Rightarrow> st1
       | Some rcpt \<Rightarrow> fold (checkItem eth cfg rcpt) items st1)"

end
