(* ===== verification/Execution_Safety.thy ===== *)
theory Execution_Safety
  imports Execute
begin

text \<open>
  What the executions of \<open>Execute\<close> may send. The contract of one attempt with one client
  (\<open>send_attempt\<close>) is an interface: it calls \<open>SendTransaction\<close> at most once, with a transaction that
  meets a specification, and succeeds exactly when the node accepts it. The retry over the endpoints is
  analysed once against it; the three executions interpret it with their own specifications. A second
  interface (\<open>nonce_attempt\<close>) states how an attempt uses chain nonces.
\<close>

section \<open>One attempt and the retry loop\<close>

definition succeeded :: "outcome \<Rightarrow> bool" where
  "succeeded r = (\<exists>resp. r = Some (Inr resp))"

lemma succeeded_code: "succeeded r = (case r of Some (Inr resp) \<Rightarrow> True | _ \<Rightarrow> False)"
  by (auto simp: succeeded_def split: option.splits sum.splits)

locale send_attempt =
  fixes run :: "instant \<Rightarrow> ethClient \<Rightarrow> runState \<Rightarrow> outcome \<times> runState"
    and sends :: "sentTx \<Rightarrow> bool"
  assumes attempt: "run t c w = (r, w') \<Longrightarrow> w_fleet w' = w_fleet w \<and>
      (w_sent w' = w_sent w \<and> \<not> succeeded r \<or>
       (\<exists>s. w_sent w' = w_sent w @ [s] \<and> sends s \<and> (sent_ok s \<longleftrightarrow> succeeded r)))"
begin

lemma sendLoop_sent:
  "sendLoop net run err hs f w = (r, f', w') \<Longrightarrow> w_fleet w' = w_fleet w \<and>
    (\<exists>new. w_sent w' = w_sent w @ new \<and> (\<forall>s \<in> set new. sends s) \<and> length new \<le> length hs \<and>
       length (filter sent_ok new) = (if succeeded r then 1 else 0))"
proof (induction hs arbitrary: err f w)
  case Nil
  then show ?case by (auto simp: failWith_def succeeded_def)
next
  case (Cons h hs)
  show ?case
  proof (cases "at_client (net (h_url h))")
    case (Inl e)
    with Cons.prems Cons.IH show ?thesis by (fastforce simp: Let_def)
  next
    case (Inr c)
    obtain x w1 where x: "run (at_end (net (h_url h))) c w = (x, w1)" by fastforce
    from attempt [OF this] have fl: "w_fleet w1 = w_fleet w" by blast
    from attempt [OF x] obtain one where one: "w_sent w1 = w_sent w @ one" "\<forall>s \<in> set one. sends s" "length one \<le> 1"
        "length (filter sent_ok one) = (if succeeded x then 1 else 0)"
      by fastforce
    show ?thesis
    proof (cases "\<exists>e. x = Some (Inl e)")
      case True
      then obtain e where e: "x = Some (Inl e)" ..
      with Cons.prems Inr x have "sendLoop net run (Some (Wrap (h_name h @ '' falhou'') e)) hs
          (recordFailure (at_end (net (h_url h))) (h_id h) (classifyRPCFailure (Some e)) f) w1 = (r, f', w')"
        by (simp add: Let_def)
      from Cons.IH [OF this] obtain new where
        "w_fleet w' = w_fleet w1" "w_sent w' = w_sent w1 @ new" "\<forall>s \<in> set new. sends s" "length new \<le> length hs"
        "length (filter sent_ok new) = (if succeeded r then 1 else 0)" by blast
      with one fl e show ?thesis by (auto simp: succeeded_def)
    next
      case False
      with Cons.prems Inr x have "r = x" "w' = w1"
        by (auto simp: Let_def split: option.splits sum.splits)
      with one fl show ?thesis by (intro conjI exI [of _ one]) simp_all
    qed
  qed
qed

lemma sendVia_sent:
  assumes "sendVia cfg now net run w = (r, w')"
  shows "\<exists>new. w_sent w' = w_sent w @ new \<and> (\<forall>s \<in> set new. sends s) \<and> length new \<le> 2 \<and>
    length (filter sent_ok new) = (if succeeded r then 1 else 0)"
proof -
  define fleet where "fleet = (case w_fleet w of Some f \<Rightarrow> f | None \<Rightarrow> newRPCFleet now (RPCURLs cfg))"
  obtain hs f where sc: "sendCandidates now (int (length (RPCURLs cfg))) fleet = (hs, f)" by fastforce
  show ?thesis
  proof (cases hs)
    case None
    with assms sc have "r = None" "w_sent w' = w_sent w"
      by (auto simp: sendVia_def Let_def fleet_def split: if_splits)
    then show ?thesis by (simp add: succeeded_def)
  next
    case (Some handles)
    obtain x f1 w1 where l: "sendLoop net run None handles f w = (x, f1, w1)" by (metis prod_cases3)
    with assms sc Some have "r = x" "w_sent w' = w_sent w1"
      by (auto simp: sendVia_def Let_def fleet_def split: if_splits)
    with sendLoop_sent [OF l] sendCandidates_two [OF sc [unfolded Some]] show ?thesis by fastforce
  qed
qed

end


lemma signAndSend_sent:
  assumes "signAndSend eth cfg now client key from network chainID tx item extra w = (r, w')"
  shows "w_fleet w' = w_fleet w \<and> (w_sent w' = w_sent w \<and> \<not> succeeded r \<or>
    (\<exists>s. w_sent w' = w_sent w @ [s] \<and> sent_network s = network \<and> sent_chain s = chainID \<and> sent_tx s = tx \<and>
       (sent_ok s \<longleftrightarrow> succeeded r)))"
  using assms by (auto simp: signAndSend_def failWith_def succeeded_def Let_def split: sum.splits option.splits)

section \<open>What each execution may send\<close>

text \<open>
  The specification of a transfer's transaction: a call of \<open>transfer(to, amount)\<close> on the token contract,
  or the amount itself to the recipient, on the chain of the network.
\<close>

definition transferTxSpec :: "geth \<Rightarrow> SignerConfig \<Rightarrow> TransferRequest \<Rightarrow> string \<Rightarrow> ethTx \<Rightarrow> bool" where
  "transferTxSpec eth cfg req network tx = (let
     tokenContract = normalizedTokenContract cfg req network;
     token = HexToAddress eth tokenContract;
     to = HexToAddress eth (tr_To req)
     in if TrimSpace tokenContract \<noteq> [] \<and> token \<noteq> zeroAddress
        then tx_to tx = token \<and> tx_value tx = 0 \<and>
          (\<exists>amount. parseUnits (tr_Amount req) (TokenDecimals cfg) = Inr amount \<and>
             erc20TransferData to amount = Some (tx_data tx))
        else tx_to tx = to \<and> tx_data tx = [] \<and> parseUnits (tr_Amount req) 18 = Inr (tx_value tx))"

definition transferSpec :: "geth \<Rightarrow> SignerConfig \<Rightarrow> TransferRequest \<Rightarrow> sentTx \<Rightarrow> bool" where
  "transferSpec eth cfg req s = (let network = requestedNetwork cfg req in
     sent_network s = network \<and> (network = ''BSC'' \<longrightarrow> sent_chain s = 56) \<and>
     transferTxSpec eth cfg req network (sent_tx s))"

definition settlementSpec :: "geth \<Rightarrow> SettlementExecuteRequest \<Rightarrow> string \<Rightarrow> int \<Rightarrow> sentTx \<Rightarrow> bool" where
  "settlementSpec eth req network amount s = (sent_network s = network \<and> sent_chain s = uint (se_ChainID req) \<and>
     tx_to (sent_tx s) = HexToAddress eth (se_Vault req) \<and> tx_value (sent_tx s) = 0 \<and>
     vaultPayoutData eth (HexToHash eth (se_OperationID req)) (HexToAddress eth (se_Token req))
       (HexToAddress eth (se_Recipient req)) amount = Inr (tx_data (sent_tx s)))"

definition contractCallSpec :: "geth \<Rightarrow> SignerConfig \<Rightarrow> ContractCallRequest \<Rightarrow> sentTx \<Rightarrow> bool" where
  "contractCallSpec eth cfg req s = (let network = requestedContractNetwork cfg req in
     sent_network s = network \<and> (network = ''BSC'' \<longrightarrow> sent_chain s = 56) \<and>
     tx_to (sent_tx s) = HexToAddress eth (cc_To req) \<and> tx_value (sent_tx s) = 0 \<and>
     decodeHexData (cc_Data req) = Inr (tx_data (sent_tx s)))"

lemma chainCheck_None: "chainCheck network chainID = None \<longleftrightarrow> (network = ''BSC'' \<longrightarrow> chainID = 56)"
  by (simp add: chainCheck_def)

lemma transferTx_spec:
  "transferTx eth cfg req network client from nonce gasPrice = Some (Inr tx) \<Longrightarrow> transferTxSpec eth cfg req network tx"
  by (auto simp: transferTx_def transferTxSpec_def Let_def split: if_splits sum.splits option.splits)

interpretation transfer: send_attempt
  "executeEVMTransferWithClient eth cfg req (requestedNetwork cfg req) key from" "transferSpec eth cfg req"
  for eth cfg req key "from"
proof
  fix t c w r w'
  assume "executeEVMTransferWithClient eth cfg req (requestedNetwork cfg req) key from t c w = (r, w')"
  then show "w_fleet w' = w_fleet w \<and> (w_sent w' = w_sent w \<and> \<not> succeeded r \<or>
    (\<exists>s. w_sent w' = w_sent w @ [s] \<and> transferSpec eth cfg req s \<and> (sent_ok s \<longleftrightarrow> succeeded r)))"
    by (auto simp: executeEVMTransferWithClient_def failWith_def succeeded_def transferSpec_def Let_def
        chainCheck_None split: sum.splits prod.splits option.splits dest!: signAndSend_sent transferTx_spec)
qed

interpretation settlement: send_attempt
  "executeEVMSettlementWithClient eth cfg req network key from amount" "settlementSpec eth req network amount"
  for eth cfg req network key "from" amount
proof
  fix t c w r w'
  assume "executeEVMSettlementWithClient eth cfg req network key from amount t c w = (r, w')"
  then show "w_fleet w' = w_fleet w \<and> (w_sent w' = w_sent w \<and> \<not> succeeded r \<or>
    (\<exists>s. w_sent w' = w_sent w @ [s] \<and> settlementSpec eth req network amount s \<and> (sent_ok s \<longleftrightarrow> succeeded r)))"
    by (auto simp: executeEVMSettlementWithClient_def failWith_def succeeded_def settlementSpec_def Let_def
        split: sum.splits prod.splits if_splits dest!: signAndSend_sent)
qed

interpretation contract_call: send_attempt
  "executeEVMContractCallWithClient eth cfg req (requestedContractNetwork cfg req) key from" "contractCallSpec eth cfg req"
  for eth cfg req key "from"
proof
  fix t c w r w'
  assume "executeEVMContractCallWithClient eth cfg req (requestedContractNetwork cfg req) key from t c w = (r, w')"
  then show "w_fleet w' = w_fleet w \<and> (w_sent w' = w_sent w \<and> \<not> succeeded r \<or>
    (\<exists>s. w_sent w' = w_sent w @ [s] \<and> contractCallSpec eth cfg req s \<and> (sent_ok s \<longleftrightarrow> succeeded r)))"
    by (auto simp: executeEVMContractCallWithClient_def failWith_def succeeded_def contractCallSpec_def Let_def
        chainCheck_None split: sum.splits prod.splits option.splits dest!: signAndSend_sent)
qed

section \<open>How an execution uses chain nonces\<close>

text \<open>
  The part of a store that decides about chain nonces. Everything an execution does on the store except
  the reservation leaves it alone.
\<close>

definition pgRows :: "pgStore \<Rightarrow> (string \<times> string \<times> int) list" where
  "pgRows s = map (\<lambda>r. (pn_wallet r, pn_network r, pn_nonce r)) (pg_chainNonces s)"

definition chainView :: "signerStore \<Rightarrow> (string \<rightharpoonup> 64 word) + (string \<times> string \<times> int) list" where
  "chainView st = (case st of MemStore s \<Rightarrow> Inl (ms_chainNonces s) | PgStore s \<Rightarrow> Inr (pgRows s))"

lemma chainView_onStore:
  assumes "\<And>s. ms_chainNonces (snd (f s)) = ms_chainNonces s" and "\<And>s. pgRows (snd (g s)) = pgRows s"
  shows "chainView (snd (onStore f g st)) = chainView st"
  using assms by (cases st) (simp_all add: onStore_def chainView_def split_beta)

lemma pgRows_updateChainNonce:
  assumes "\<And>r. pn_wallet (g r) = pn_wallet r \<and> pn_network (g r) = pn_network r \<and> pn_nonce (g r) = pn_nonce r"
  shows "pgRows (snd (updateChainNonce w n x g s)) = pgRows s"
  using assms by (simp add: updateChainNonce_def pgRows_def comp_def if_distrib cong: if_cong)

interpretation rows: table_frame "\<lambda>s s'. pgRows s' = pgRows s"
  by unfold_locales
    (simp_all add: pgRows_updateChainNonce setSubmitted_def setFailed_def,
     simp_all add: pgRows_def insertIncident_def resolveIncidents_def upsertTransaction_def updateTransaction_def)

interpretation rows_claims: table_claims "\<lambda>s s'. pgRows s' = pgRows s"
  by unfold_locales (simp_all add: pgRows_def)

lemma chainView_RecordCustodyEvent [simp]: "chainView (snd (RecordCustodyEvent ev st)) = chainView st"
  unfolding RecordCustodyEvent_def
  by (rule chainView_onStore) (simp_all add: mem_RecordCustodyEvent_def rows.pg_writes)

lemma chainView_MarkChainNonceSubmitted [simp]: "chainView (snd (MarkChainNonceSubmitted w n x h st)) = chainView st"
  unfolding MarkChainNonceSubmitted_def
  by (rule chainView_onStore) (simp_all add: mem_MarkChainNonceSubmitted_def rows.pg_writes)

lemma chainView_MarkChainNonceFailed [simp]: "chainView (snd (MarkChainNonceFailed w n x e st)) = chainView st"
  unfolding MarkChainNonceFailed_def
  by (rule chainView_onStore) (simp_all add: mem_MarkChainNonceFailed_def rows.pg_writes)

lemma chainView_CreateSignerTransaction [simp]: "chainView (snd (CreateSignerTransaction now item st)) = chainView st"
  unfolding CreateSignerTransaction_def
  by (rule chainView_onStore) (simp_all add: mem_CreateSignerTransaction_def rows.pg_writes)

lemma chainView_DailySubmittedOutflow [simp]: "chainView (snd (DailySubmittedOutflow now tok n st)) = chainView st"
  unfolding DailySubmittedOutflow_def
  by (rule chainView_onStore) (simp_all add: mem_DailySubmittedOutflow_def rows.pg_reads)

lemma usedNonces_view: "usedNonces st w n = (case chainView st of
    Inl m \<Rightarrow> (case m (chainNonceKey w n) of None \<Rightarrow> {} | Some c \<Rightarrow> {x. x \<le> c})
  | Inr rows \<Rightarrow> {word_of_int x | x. (w, n, x) \<in> set rows})"
  by (cases st) (auto simp: usedNonces_def chainView_def mem_used_def pg_used_def pgRows_def image_iff split: option.splits)

text \<open>Every stored nonce is below \<open>B\<close>; a database row fits the driver's signed integers anyway.\<close>

definition noncesBelow :: "int \<Rightarrow> signerStore \<Rightarrow> bool" where
  "noncesBelow B st = (case chainView st of
     Inl m \<Rightarrow> (\<forall>k c. m k = Some c \<longrightarrow> uint c < B)
   | Inr rows \<Rightarrow> (\<forall>(w, n, x) \<in> set rows. 0 \<le> x \<and> x < 9223372036854775808))"

text \<open>The store is the database: there the driver itself refuses a nonce above the range, whatever a node reports.\<close>

definition onDatabase :: "signerStore \<Rightarrow> bool" where
  "onDatabase st = (\<not> isl (chainView st))"

lemma onDatabase_iff: "onDatabase st \<longleftrightarrow> (\<exists>s. st = PgStore s)"
  by (cases st) (simp_all add: onDatabase_def chainView_def)

lemma noncesBelow_ok:
  assumes "noncesBelow B st" and "B < 2 ^ 64"
  shows "noncesOk st"
proof (cases st)
  case (MemStore s)
  have "uint (- 1 :: 64 word) = 2 ^ 64 - 1" by (simp add: unsigned_minus_1_eq_mask mask_eq_exp_minus_1)
  with assms MemStore show ?thesis
    by (fastforce simp: noncesBelow_def chainView_def noncesOk_def mem_ok_def)
next
  case (PgStore s)
  with assms show ?thesis by (auto simp: noncesBelow_def chainView_def noncesOk_def pg_ok_def pgRows_def)
qed

lemma noncesBelow_mono: "noncesBelow B st \<Longrightarrow> B \<le> C \<Longrightarrow> noncesBelow C st"
  by (auto simp: noncesBelow_def split: sum.splits) force

lemma uint_inc: "uint (c :: 64 word) < B \<Longrightarrow> B < 2 ^ 64 \<Longrightarrow> uint (c + 1) < B + 1"
  by (simp add: uint_word_ariths)

lemma noncesBelow_reserve:
  assumes "noncesBelow B st" and "onDatabase st \<or> uint p < B" and "B < 2 ^ 64" and "ReserveChainNonce w n p st = (r, st')"
  shows "noncesBelow (B + 1) st' \<and> (onDatabase st \<longrightarrow> onDatabase st')"
  using assms(4) [unfolded ReserveChainNonce_def]
proof (cases rule: onStore_cases)
  case (mem s s')
  have "uint c < B" if "ms_chainNonces s k = Some c" for k c
    using assms(1) mem(1) that by (simp add: noncesBelow_def chainView_def)
  moreover from mem(3) obtain nxt where "ms_chainNonces s' = (ms_chainNonces s)(chainNonceKey w n \<mapsto> nxt)"
      "nxt = p \<or> (\<exists>c. ms_chainNonces s (chainNonceKey w n) = Some c \<and> nxt = c + 1)"
    by (auto simp: mem_ReserveChainNonce_def Let_def split: option.splits if_splits)
  ultimately show ?thesis
    using assms(2,3) uint_inc mem(1,2) by (fastforce simp: noncesBelow_def onDatabase_def chainView_def)
next
  case (pg s s')
  from pg(3) show ?thesis
    by (cases rule: pg_ReserveChainNonce_cases)
      (use assms(1) pg(1,2) in \<open>auto simp: noncesBelow_def onDatabase_def chainView_def pgRows_def\<close>)
qed

definition nonceOf :: "sentTx \<Rightarrow> 64 word" where
  "nonceOf s = tx_nonce (sent_tx s)"

text \<open>
  An attempt makes at most one reservation, for the pending nonce its client reports, and sends at most
  one transaction, with the nonce reserved.
\<close>

locale nonce_attempt =
  fixes run :: "instant \<Rightarrow> ethClient \<Rightarrow> runState \<Rightarrow> outcome \<times> runState"
    and wallet network :: string
    and "from" :: address
  assumes nonce_use: "run t c w = (r, w') \<Longrightarrow>
      chainView (w_store w') = chainView (w_store w) \<and> w_sent w' = w_sent w \<or>
      (\<exists>p x st. c_PendingNonceAt c from = Inr p \<and> ReserveChainNonce wallet network p (w_store w) = (x, st) \<and>
         chainView (w_store w') = chainView st \<and>
         (w_sent w' = w_sent w \<or> (\<exists>s. w_sent w' = w_sent w @ [s] \<and> sent_network s = network \<and> x = Inr (nonceOf s))))"
begin

text \<open>One attempt: what it sends carries a nonce not used before and used from now on.\<close>

lemma attempt_fresh:
  assumes "run t c w = (r, w')" and "noncesBelow B (w_store w)" and "B < 2 ^ 64"
    and "onDatabase (w_store w) \<or> (\<forall>p. c_PendingNonceAt c from = Inr p \<longrightarrow> uint p < B)"
  obtains new where "w_sent w' = w_sent w @ new" "length new \<le> 1" "\<forall>s \<in> set new. sent_network s = network"
    "nonceOf ` set new \<inter> usedNonces (w_store w) wallet network = {}"
    "nonceOf ` set new \<union> usedNonces (w_store w) wallet network \<subseteq> usedNonces (w_store w') wallet network"
    "noncesBelow (B + 1) (w_store w')" "onDatabase (w_store w) \<longrightarrow> onDatabase (w_store w')"
  using nonce_use [OF assms(1)]
proof (elim disjE exE conjE)
  assume "chainView (w_store w') = chainView (w_store w)" "w_sent w' = w_sent w"
  with assms(2) noncesBelow_mono [of B "w_store w" "B + 1"] that [of "[]"] show thesis
    by (simp add: usedNonces_view noncesBelow_def onDatabase_def)
next
  fix p x st
  assume p: "c_PendingNonceAt c from = Inr p" and x: "ReserveChainNonce wallet network p (w_store w) = (x, st)"
    and v: "chainView (w_store w') = chainView st"
  have ok: "noncesOk (w_store w)" using assms(2,3) by (rule noncesBelow_ok)
  have b: "noncesBelow (B + 1) (w_store w')" "onDatabase (w_store w) \<longrightarrow> onDatabase (w_store w')"
    using noncesBelow_reserve [OF assms(2) _ assms(3) x] assms(4) p v by (auto simp: noncesBelow_def onDatabase_def)
  have u: "usedNonces (w_store w') wallet network = usedNonces st wallet network"
    by (simp add: usedNonces_view v)
  have k: "usedNonces (w_store w) wallet network \<subseteq> usedNonces st wallet network"
    using iface_resv.reserve_used [OF ok, of wallet network p _ st] iface_resv.reserve_error [OF ok, of wallet network p _ st] x
    by (cases x) auto
  {
    assume "w_sent w' = w_sent w"
    with b u k that [of "[]"] show thesis by simp
  next
    fix s assume s: "w_sent w' = w_sent w @ [s]" "sent_network s = network" "x = Inr (nonceOf s)"
    with x iface_resv.reserve_new [OF ok] iface_resv.reserve_used [OF ok]
    have "nonceOf s \<notin> usedNonces (w_store w) wallet network"
      "insert (nonceOf s) (usedNonces (w_store w) wallet network) \<subseteq> usedNonces st wallet network" by blast+
    with s(1,2) b u that [of "[s]"] show thesis by simp
  }
qed

text \<open>What the attempts of a loop send, in terms of the nonces used before and after.\<close>

definition fresh :: "runState \<Rightarrow> runState \<Rightarrow> bool" where
  "fresh w w' = (\<exists>new. w_sent w' = w_sent w @ new \<and> (\<forall>s \<in> set new. sent_network s = network) \<and> distinct (map nonceOf new) \<and>
    nonceOf ` set new \<inter> usedNonces (w_store w) wallet network = {} \<and>
    nonceOf ` set new \<union> usedNonces (w_store w) wallet network \<subseteq> usedNonces (w_store w') wallet network)"

lemma fresh_trans:
  assumes "fresh w w1" and "fresh w1 w2"
  shows "fresh w w2"
proof -
  from assms(1) obtain a where a: "w_sent w1 = w_sent w @ a" "\<forall>s \<in> set a. sent_network s = network" "distinct (map nonceOf a)"
    "nonceOf ` set a \<inter> usedNonces (w_store w) wallet network = {}"
    "nonceOf ` set a \<union> usedNonces (w_store w) wallet network \<subseteq> usedNonces (w_store w1) wallet network"
    unfolding fresh_def by (elim exE conjE) (rule that)
  from assms(2) obtain b where b: "w_sent w2 = w_sent w1 @ b" "\<forall>s \<in> set b. sent_network s = network" "distinct (map nonceOf b)"
    "nonceOf ` set b \<inter> usedNonces (w_store w1) wallet network = {}"
    "nonceOf ` set b \<union> usedNonces (w_store w1) wallet network \<subseteq> usedNonces (w_store w2) wallet network"
    unfolding fresh_def by (elim exE conjE) (rule that)
  from a(5) b(4) have "nonceOf ` set a \<inter> nonceOf ` set b = {}" "nonceOf ` set b \<inter> usedNonces (w_store w) wallet network = {}"
    by blast+
  with a b show ?thesis
    unfolding fresh_def by (intro exI [of _ "a @ b"]) (simp add: image_Un Int_Un_distrib2 ball_Un, blast)
qed

lemma sendLoop_fresh:
  assumes "sendLoop net run err hs f w = (r, f', w')" and "noncesBelow B (w_store w)"
    and "B + int (length hs) \<le> 2 ^ 64"
    and "onDatabase (w_store w) \<or>
      (\<forall>url c p. at_client (net url) = Inr c \<longrightarrow> c_PendingNonceAt c from = Inr p \<longrightarrow> uint p < B)"
  shows "fresh w w'"
  using assms
proof (induction hs arbitrary: err f w B)
  case Nil
  then show ?case by (auto simp: fresh_def)
next
  case (Cons h hs)
  show ?case
  proof (cases "at_client (net (h_url h))")
    case (Inl e)
    with Cons show ?thesis by (simp add: Let_def)
  next
    case (Inr c)
    obtain x w1 where x: "run (at_end (net (h_url h))) c w = (x, w1)" by fastforce
    have B: "B < 2 ^ 64" "onDatabase (w_store w) \<or> (\<forall>p. c_PendingNonceAt c from = Inr p \<longrightarrow> uint p < B)"
      using Cons.prems(3,4) Inr by (simp, blast)
    from x Cons.prems(2) B obtain one where one: "w_sent w1 = w_sent w @ one" "length one \<le> 1"
      "\<forall>s \<in> set one. sent_network s = network"
      "nonceOf ` set one \<inter> usedNonces (w_store w) wallet network = {}"
      "nonceOf ` set one \<union> usedNonces (w_store w) wallet network \<subseteq> usedNonces (w_store w1) wallet network"
      "noncesBelow (B + 1) (w_store w1)" "onDatabase (w_store w) \<longrightarrow> onDatabase (w_store w1)" by (rule attempt_fresh)
    have "distinct (map nonceOf one)" using one(2) by (cases one) auto
    with one have one1: "fresh w w1" unfolding fresh_def by blast
    show ?thesis
    proof (cases "\<exists>e. x = Some (Inl e)")
      case True
      then obtain e where "x = Some (Inl e)" ..
      with Cons.prems(1) Inr x have l: "sendLoop net run (Some (Wrap (h_name h @ '' falhou'') e)) hs
          (recordFailure (at_end (net (h_url h))) (h_id h) (classifyRPCFailure (Some e)) f) w1 = (r, f', w')"
        by (simp add: Let_def)
      have "B + 1 + int (length hs) \<le> 2 ^ 64" using Cons.prems(3) by simp
      moreover have "onDatabase (w_store w1) \<or>
          (\<forall>url c p. at_client (net url) = Inr c \<longrightarrow> c_PendingNonceAt c from = Inr p \<longrightarrow> uint p < B + 1)"
        using Cons.prems(4) one(7) by fastforce
      ultimately show ?thesis using fresh_trans [OF one1] Cons.IH [OF l one(6)] by blast
    next
      case False
      with Cons.prems(1) Inr x have "w' = w1"
        by (auto simp: Let_def split: option.splits sum.splits)
      with one1 show ?thesis by simp
    qed
  qed
qed

lemma sendVia_fresh:
  assumes "sendVia cfg now net run w = (r, w')" and "noncesBelow B (w_store w)" and "B + 2 \<le> 2 ^ 64"
    and "onDatabase (w_store w) \<or>
      (\<forall>url c p. at_client (net url) = Inr c \<longrightarrow> c_PendingNonceAt c from = Inr p \<longrightarrow> uint p < B)"
  shows "\<exists>new. w_sent w' = w_sent w @ new \<and> (\<forall>s \<in> set new. sent_network s = network) \<and> distinct (map nonceOf new) \<and>
    nonceOf ` set new \<inter> usedNonces (w_store w) wallet network = {} \<and>
    nonceOf ` set new \<union> usedNonces (w_store w) wallet network \<subseteq> usedNonces (w_store w') wallet network"
proof -
  define fleet where "fleet = (case w_fleet w of Some f \<Rightarrow> f | None \<Rightarrow> newRPCFleet now (RPCURLs cfg))"
  obtain hs f where sc: "sendCandidates now (int (length (RPCURLs cfg))) fleet = (hs, f)" by fastforce
  show ?thesis
  proof (cases hs)
    case None
    with assms(1) sc have "w_sent w' = w_sent w" "w_store w' = w_store w"
      by (auto simp: sendVia_def Let_def fleet_def split: if_splits)
    then show ?thesis by simp
  next
    case (Some handles)
    obtain x f1 w1 where l: "sendLoop net run None handles f w = (x, f1, w1)" by (metis prod_cases3)
    with assms(1) sc Some have w': "w_sent w' = w_sent w1" "w_store w' = w_store w1"
      by (auto simp: sendVia_def Let_def fleet_def split: if_splits)
    from sc Some have "length handles \<le> 2" using sendCandidates_handles by (metis length_map)
    with assms(3) have "B + int (length handles) \<le> 2 ^ 64" by simp
    from sendLoop_fresh [OF l assms(2) this assms(4)] w' show ?thesis by (simp add: fresh_def)
  qed
qed

end

lemma signAndSend_nonce:
  assumes "signAndSend eth cfg now client key from network chainID tx item extra w = (r, w')"
  shows "chainView (w_store w') = chainView (w_store w) \<and>
    (w_sent w' = w_sent w \<or> (\<exists>s. w_sent w' = w_sent w @ [s] \<and> sent_network s = network \<and> nonceOf s = tx_nonce tx))"
  using assms by (auto simp: signAndSend_def nonceOf_def Let_def split: sum.splits option.splits)

lemma reserveForSend_nonce:
  assumes "reserveForSend eth cfg client from network extra st = (r, st')"
  shows "chainView st' = chainView st \<and> (\<exists>e. r = Inl e) \<or>
    (\<exists>p x st1. c_PendingNonceAt client from = Inr p \<and> ReserveChainNonce (AddressHex eth from) network p st = (x, st1) \<and>
       chainView st' = chainView st1 \<and> (\<forall>y. r = Inr y \<longrightarrow> x = Inr (fst y)))"
  using assms by (auto simp: reserveForSend_def Let_def split: sum.splits prod.splits)

lemma transferTx_nonce: "transferTx eth cfg req network client from nonce gasPrice = Some (Inr tx) \<Longrightarrow> tx_nonce tx = nonce"
  by (auto simp: transferTx_def Let_def split: if_splits sum.splits option.splits)

interpretation transfer_nonce: nonce_attempt
  "executeEVMTransferWithClient eth cfg req network key from" "AddressHex eth from" network "from"
  for eth cfg req network key "from"
proof
  fix t c w r w'
  assume "executeEVMTransferWithClient eth cfg req network key from t c w = (r, w')"
  then show "chainView (w_store w') = chainView (w_store w) \<and> w_sent w' = w_sent w \<or>
      (\<exists>p x st. c_PendingNonceAt c from = Inr p \<and> ReserveChainNonce (AddressHex eth from) network p (w_store w) = (x, st) \<and>
         chainView (w_store w') = chainView st \<and>
         (w_sent w' = w_sent w \<or> (\<exists>s. w_sent w' = w_sent w @ [s] \<and> sent_network s = network \<and> x = Inr (nonceOf s))))"
    by (fastforce simp: executeEVMTransferWithClient_def split: sum.splits prod.splits option.splits
        dest!: signAndSend_nonce reserveForSend_nonce transferTx_nonce)
qed

interpretation settlement_nonce: nonce_attempt
  "executeEVMSettlementWithClient eth cfg req network key from amount" "AddressHex eth from" network "from"
  for eth cfg req network key "from" amount
proof
  fix t c w r w'
  assume "executeEVMSettlementWithClient eth cfg req network key from amount t c w = (r, w')"
  then show "chainView (w_store w') = chainView (w_store w) \<and> w_sent w' = w_sent w \<or>
      (\<exists>p x st. c_PendingNonceAt c from = Inr p \<and> ReserveChainNonce (AddressHex eth from) network p (w_store w) = (x, st) \<and>
         chainView (w_store w') = chainView st \<and>
         (w_sent w' = w_sent w \<or> (\<exists>s. w_sent w' = w_sent w @ [s] \<and> sent_network s = network \<and> x = Inr (nonceOf s))))"
    by (fastforce simp: executeEVMSettlementWithClient_def Let_def split: sum.splits prod.splits if_splits
        dest!: signAndSend_nonce reserveForSend_nonce)
qed

interpretation contract_call_nonce: nonce_attempt
  "executeEVMContractCallWithClient eth cfg req network key from" "AddressHex eth from" network "from"
  for eth cfg req network key "from"
proof
  fix t c w r w'
  assume "executeEVMContractCallWithClient eth cfg req network key from t c w = (r, w')"
  then show "chainView (w_store w') = chainView (w_store w) \<and> w_sent w' = w_sent w \<or>
      (\<exists>p x st. c_PendingNonceAt c from = Inr p \<and> ReserveChainNonce (AddressHex eth from) network p (w_store w) = (x, st) \<and>
         chainView (w_store w') = chainView st \<and>
         (w_sent w' = w_sent w \<or> (\<exists>s. w_sent w' = w_sent w @ [s] \<and> sent_network s = network \<and> x = Inr (nonceOf s))))"
    by (fastforce simp: executeEVMContractCallWithClient_def Let_def split: sum.splits prod.splits option.splits
        dest!: signAndSend_nonce reserveForSend_nonce)
qed

section \<open>Properties\<close>

definition payConfig :: SignerConfig where
  "payConfig = LoadSignerConfig [''EVM_PRIVATE_KEY'' \<mapsto> ''0x11'', ''BSC_RPC_URLS'' \<mapsto> ''https://a,https://b'',
     ''BSC_USDT_CONTRACT'' \<mapsto> ''0x5555555555555555555555555555555555555555'',
     ''BSC_TREASURY_CONTRACT'' \<mapsto> ''0x6666666666666666666666666666666666666666'',
     ''TREASURY_MAX_DAILY_OUTFLOW'' \<mapsto> ''500'']"

definition payRequest :: "string \<Rightarrow> TransferRequest" where
  "payRequest network = \<lparr>tr_To = ''0x7777777777777777777777777777777777777777'', tr_Amount = ''12.5'', tr_TokenContract = [],
     tr_Network = network, tr_IdempotencyKey = ''k'', tr_DerivationIndex = None\<rparr>"

definition payClient :: "error option \<Rightarrow> ethClient" where
  "payClient e = \<lparr>c_ChainID = Inr 56, c_PendingNonceAt = (\<lambda>_. Inr 5), c_SuggestGasPrice = Inr 3,
     c_EstimateGas = (\<lambda>_. Inr 60000), c_SendTransaction = (\<lambda>_. e)\<rparr>"

definition payNet :: "(string \<Rightarrow> error option) \<Rightarrow> string \<Rightarrow> attempt" where
  "payNet answer url = \<lparr>at_client = Inr (payClient (answer url)), at_end = 2000, at_latency = 10\<rparr>"

definition payStart :: runState where
  "payStart = \<lparr>w_store = demoStore, w_fleet = Some (newRPCFleet 0 (RPCURLs payConfig)), w_sent = []\<rparr>"

definition payRun :: "outcome \<times> runState" where
  "payRun = executeTransfer demoGeth payConfig 1000 (payNet (\<lambda>_. None)) (payRequest []) payStart"

lemma payRun_sent: "map (\<lambda>s. (nonceOf s, sent_ok s)) (w_sent (snd payRun)) = [(5, True)]"
  by code_simp

lemma payStart_sent: "w_sent payStart = []"
  by (simp add: payStart_def)

text \<open>What an execution does once its checks have passed.\<close>

lemma executeTransfer_sent:
  assumes "executeTransfer eth cfg now net req w = (r, w')"
  obtains (refused) "w_sent w' = w_sent w" "\<not> succeeded r"
  | (simulated) "w_sent w' = w_sent w" "AllowSimulation cfg"
  | (sent) st key "from" where "validateTransferPolicy eth cfg req (requestedNetwork cfg req) = None"
      "validateTreasuryPolicy cfg now req (requestedNetwork cfg req) (w_store w) = (None, st)"
      "\<not> AllowSimulation cfg" "tr_DerivationIndex req = None"
      "HexToECDSA eth (TrimPrefix (EVMPrivateKey cfg) ''0x'') = Inr key" "from = PubkeyToAddress eth key"
      "sendVia cfg now net (executeEVMTransferWithClient eth cfg req (requestedNetwork cfg req) key from)
         (w\<lparr>w_store := st\<rparr>) = (r, w')"
  using assms
  by (auto simp: executeTransfer_def executeEVMTransfer_def withKey_def failWith_def succeeded_def Let_def
      split: option.splits prod.splits sum.splits if_splits)

text \<open>
  C3: Whatever the nodes answer and however often the transfer is retried, every transaction handed to
  \<open>SendTransaction\<close> pays what was asked: the requested amount in base units to the requested recipient, as
  a call of the token contract or in the native coin, on chain 56 for BSC. A success response outside
  simulation stands for exactly one transaction that a node accepted; a failure for none.
\<close>

theorem transfer_sends_what_was_asked:
  assumes "executeTransfer eth cfg now net req w = (r, w')"
  shows "\<exists>new. w_sent w' = w_sent w @ new \<and> (\<forall>s \<in> set new. transferSpec eth cfg req s) \<and>
    length (filter sent_ok new) = (if succeeded r \<and> \<not> AllowSimulation cfg then 1 else 0)"
  using assms
proof (cases rule: executeTransfer_sent)
  case (sent st key "from")
  from transfer.sendVia_sent [OF sent(7)] obtain new where "w_sent w' = w_sent w @ new"
      "\<forall>s \<in> set new. transferSpec eth cfg req s" "length (filter sent_ok new) = (if succeeded r then 1 else 0)"
    by auto
  with sent(3) show ?thesis by (intro exI [of _ new]) simp
qed simp_all

theorem transfer_sends_what_was_asked_witness:
  "\<exists>s. w_sent (snd payRun) = [s] \<and> transferSpec demoGeth payConfig (payRequest []) s \<and> sent_ok s"
proof -
  from payRun_sent obtain s where s: "w_sent (snd payRun) = [s]" "sent_ok s" by auto
  have "executeTransfer demoGeth payConfig 1000 (payNet (\<lambda>_. None)) (payRequest []) payStart = (fst payRun, snd payRun)"
    by (simp add: payRun_def)
  from transfer_sends_what_was_asked [OF this] s payStart_sent show ?thesis by auto
qed

lemma treasuryCheck_None:
  assumes "treasuryCheck cfg now token network amount extra st = (None, st')"
  shows "\<exists>outflow. fst (DailySubmittedOutflow now token network st) = Inr outflow \<and>
    \<not> (TreasuryLockThreshold cfg > Fin 0 \<and> outflow + amount > TreasuryLockThreshold cfg) \<and>
    \<not> (TreasuryMaxDailyOut cfg > Fin 0 \<and> outflow + amount > TreasuryMaxDailyOut cfg)"
  using assms by (auto simp: treasuryCheck_def Let_def split: prod.splits sum.splits if_splits)

lemma chainView_treasuryCheck: "chainView (snd (treasuryCheck cfg now token network amount extra st)) = chainView st"
proof -
  obtain x st1 where x: "DailySubmittedOutflow now token network st = (x, st1)" by fastforce
  then have "chainView st1 = chainView st" using chainView_DailySubmittedOutflow [of now token network st] by simp
  with x show ?thesis by (simp add: treasuryCheck_def Let_def split: sum.splits)
qed

text \<open>
  C7: Nothing is sent unless every limit allows it: if a transfer sent anything, the transfer policy
  accepted it, its amount is not above the transfer limit, the day's outflow of the token plus the amount is
  above neither the lockdown threshold nor the daily maximum, and no HD derivation was asked for.
\<close>

theorem sent_transfer_passed_every_limit:
  assumes "executeTransfer eth cfg now net req w = (r, w')" and "w_sent w' \<noteq> w_sent w"
  shows "validateTransferPolicy eth cfg req (requestedNetwork cfg req) = None \<and> tr_DerivationIndex req = None \<and>
    (\<exists>amount outflow. ParseFloat (TrimSpace (tr_Amount req)) = Some amount \<and>
      \<not> (MaxTransferAmount cfg > Fin 0 \<and> amount > MaxTransferAmount cfg) \<and>
      fst (DailySubmittedOutflow now (normalizedTokenContract cfg req (requestedNetwork cfg req))
        (requestedNetwork cfg req) (w_store w)) = Inr outflow \<and>
      \<not> (TreasuryLockThreshold cfg > Fin 0 \<and> outflow + amount > TreasuryLockThreshold cfg) \<and>
      \<not> (TreasuryMaxDailyOut cfg > Fin 0 \<and> outflow + amount > TreasuryMaxDailyOut cfg))"
  using assms(1)
proof (cases rule: executeTransfer_sent)
  case (sent st key "from")
  from sent(1) obtain a where a: "ParseFloat (TrimSpace (tr_Amount req)) = Some a"
      "\<not> (MaxTransferAmount cfg > Fin 0 \<and> a > MaxTransferAmount cfg)"
    by (auto simp: validateTransferPolicy_None_iff)
  from sent(2) a(1) have "treasuryCheck cfg now (normalizedTokenContract cfg req (requestedNetwork cfg req))
      (requestedNetwork cfg req) a [] (w_store w) = (None, st)"
    by (auto simp: validateTreasuryPolicy_def parseFloatAmount_def Let_def split: sum.splits if_splits)
  from treasuryCheck_None [OF this] a sent(1,4) show ?thesis by blast
qed (use assms(2) in simp_all)

theorem sent_transfer_passed_every_limit_witness:
  "\<exists>amount. ParseFloat (TrimSpace (tr_Amount (payRequest []))) = Some amount \<and>
     \<not> (TreasuryMaxDailyOut payConfig > Fin 0 \<and> Fin 0 + amount > TreasuryMaxDailyOut payConfig)"
proof -
  have "executeTransfer demoGeth payConfig 1000 (payNet (\<lambda>_. None)) (payRequest []) payStart = (fst payRun, snd payRun)"
    by (simp add: payRun_def)
  moreover have "w_sent (snd payRun) \<noteq> w_sent payStart" using payRun_sent payStart_sent by auto
  ultimately obtain amount outflow where a: "ParseFloat (TrimSpace (tr_Amount (payRequest []))) = Some amount"
      "fst (DailySubmittedOutflow 1000 (normalizedTokenContract payConfig (payRequest []) (requestedNetwork payConfig (payRequest [])))
        (requestedNetwork payConfig (payRequest [])) (w_store payStart)) = Inr outflow"
      "\<not> (TreasuryMaxDailyOut payConfig > Fin 0 \<and> outflow + amount > TreasuryMaxDailyOut payConfig)"
    using sent_transfer_passed_every_limit by blast
  moreover have "fst (DailySubmittedOutflow 1000 tok n demoStore) = Inr (Fin 0)" for tok n
    by (simp add: DailySubmittedOutflow_def demoStore_def onStore_def mem_DailySubmittedOutflow_def sumAmounts_def
        newMemorySignerStore_def)
  ultimately show ?thesis by (simp add: payStart_def)
qed

lemma transfer_sent_fresh:
  assumes "executeTransfer eth cfg now net req w = (r, w')"
    and "noncesBelow (2 ^ 63) (w_store w)"
    and "\<And>url c a p. at_client (net url) = Inr c \<Longrightarrow> c_PendingNonceAt c a = Inr p \<Longrightarrow> uint p < 2 ^ 63"
    and "HexToECDSA eth (TrimPrefix (EVMPrivateKey cfg) ''0x'') = Inr key"
  shows "\<exists>new. w_sent w' = w_sent w @ new \<and> distinct (map nonceOf new) \<and>
    nonceOf ` set new \<inter> usedNonces (w_store w) (AddressHex eth (PubkeyToAddress eth key)) (requestedNetwork cfg req) = {} \<and>
    nonceOf ` set new \<subseteq> usedNonces (w_store w') (AddressHex eth (PubkeyToAddress eth key)) (requestedNetwork cfg req)"
  using assms(1)
proof (cases rule: executeTransfer_sent)
  case (sent st key' "from")
  have key: "key' = key" using sent(5) assms(4) by simp
  have v: "chainView st = chainView (w_store w)"
    using sent(2) chainView_treasuryCheck [of cfg now "normalizedTokenContract cfg req (requestedNetwork cfg req)" "requestedNetwork cfg req" _ "[]" "w_store w"]
    by (auto simp: validateTreasuryPolicy_def split: sum.splits) (metis snd_conv)
  with assms(2) have b: "noncesBelow (2 ^ 63) (w_store (w\<lparr>w_store := st\<rparr>))" by (simp add: noncesBelow_def)
  have u: "usedNonces st a n = usedNonces (w_store w) a n" for a n by (simp add: usedNonces_view v)
  have "B + 2 \<le> 2 ^ 64" if "B = 2 ^ 63" for B :: int using that by simp
  moreover from assms(3) have "\<forall>url c p. at_client (net url) = Inr c \<longrightarrow> c_PendingNonceAt c from = Inr p \<longrightarrow> uint p < 2 ^ 63"
    by blast
  ultimately show ?thesis
    using transfer_nonce.sendVia_fresh [OF sent(7) b] unfolding key sent(6) by (fastforce simp: u)
qed simp_all

text \<open>
  C10: Every transaction a transfer sends, retries included, carries a chain nonce that the store had never
  handed out to this wallet on this network, and no two of them share one; afterwards the store knows them
  all. The nodes report pending nonces below \<open>2^63\<close> and so are the nonces stored so far.
\<close>

theorem transfer_nonces_fresh:
  assumes "executeTransfer eth cfg now net req w = (r, w')"
    and "noncesBelow (2 ^ 63) (w_store w)"
    and "\<And>url c a p. at_client (net url) = Inr c \<Longrightarrow> c_PendingNonceAt c a = Inr p \<Longrightarrow> uint p < 2 ^ 63"
    and "HexToECDSA eth (TrimPrefix (EVMPrivateKey cfg) ''0x'') = Inr key"
  shows "\<exists>new. w_sent w' = w_sent w @ new \<and> distinct (map nonceOf new) \<and>
    nonceOf ` set new \<inter> usedNonces (w_store w) (AddressHex eth (PubkeyToAddress eth key)) (requestedNetwork cfg req) = {} \<and>
    nonceOf ` set new \<subseteq> usedNonces (w_store w') (AddressHex eth (PubkeyToAddress eth key)) (requestedNetwork cfg req)"
  by (rule transfer_sent_fresh [OF assms])

theorem transfer_nonces_fresh_witness:
  "\<exists>new. w_sent (snd payRun) = new \<and> map nonceOf new = [5] \<and> nonceOf ` set new \<inter> usedNonces demoStore
      (AddressHex demoGeth (PubkeyToAddress demoGeth [0x11])) ''BSC'' = {}"
proof -
  have "executeTransfer demoGeth payConfig 1000 (payNet (\<lambda>_. None)) (payRequest []) payStart = (fst payRun, snd payRun)"
    by (simp add: payRun_def)
  moreover have "noncesBelow (2 ^ 63) (w_store payStart)"
    by (simp add: payStart_def demoStore_def noncesBelow_def chainView_def newMemorySignerStore_def)
  moreover have "uint p < 2 ^ 63" if "at_client (payNet (\<lambda>_. None) url) = Inr c" "c_PendingNonceAt c a = Inr p" for url c a p
  proof -
    from that have "p = 5" by (auto simp: payNet_def payClient_def)
    then show ?thesis by simp
  qed
  moreover have "HexToECDSA demoGeth (TrimPrefix (EVMPrivateKey payConfig) ''0x'') = Inr [0x11]" by code_simp
  ultimately obtain new where n: "w_sent (snd payRun) = w_sent payStart @ new"
      "nonceOf ` set new \<inter> usedNonces (w_store payStart) (AddressHex demoGeth (PubkeyToAddress demoGeth [0x11]))
         (requestedNetwork payConfig (payRequest [])) = {}"
    using transfer_nonces_fresh by blast
  moreover have "requestedNetwork payConfig (payRequest []) = ''BSC''" by code_simp
  moreover have "map nonceOf (w_sent (snd payRun)) = [5]"
    using payRun_sent by auto
  ultimately show ?thesis by (simp add: payStart_def)
qed

text \<open>Hexadecimal decoding does not depend on letter case and works digit pair by digit pair.\<close>

lemma hexVal_lowerChar: "isHexDigit c \<Longrightarrow> isHexDigit (lowerChar c) \<and> hexVal (lowerChar c) = hexVal c"
  by (auto simp: isHexDigit_def hexVal_def lowerChar_def Let_def)

lemma hexDecodeString_ToLower: "hexDecodeString s = Some d \<Longrightarrow> hexDecodeString (ToLower s) = Some d"
  by (induction s arbitrary: d rule: hexDecodeString.induct) (auto simp: ToLower_def hexVal_lowerChar split: if_splits)

lemma hexDecodeString_take: "hexDecodeString s = Some d \<Longrightarrow> hexDecodeString (take (2 * n) s) = Some (take n d)"
proof (induction s arbitrary: d n rule: hexDecodeString.induct)
  case (3 c e s)
  then show ?case by (cases n) (auto split: if_splits)
qed auto

definition aggregate3Selector :: "byte list" where
  "aggregate3Selector = [0x82, 0xad, 0x56, 0xcb]"

lemma accepted_call_selector:
  assumes "validateContractCallPolicy eth cfg req network = None" and "decodeHexData (cc_Data req) = Inr d"
  shows "take 4 d = aggregate3Selector"
proof -
  define s where "s = TrimPrefix (TrimSpace (cc_Data req)) ''0x''"
  have "hexDecodeString s = Some d"
    using assms(2) by (auto simp: decodeHexData_def s_def Let_def split: if_splits option.splits)
  then have "hexDecodeString (ToLower (take (2 * 4) s)) = Some (take 4 d)"
    by (intro hexDecodeString_ToLower hexDecodeString_take)
  moreover have "ToLower (take (2 * 4) s) = multicall3Aggregate3Selector"
    using assms(1) by (simp add: validateContractCallPolicy_None_iff s_def)
  moreover have "hexDecodeString multicall3Aggregate3Selector = Some aggregate3Selector" by code_simp
  ultimately show ?thesis by simp
qed

lemma executeContractCall_sent:
  assumes "executeContractCall eth cfg now net req w = (r, w')"
  obtains (refused) "w_sent w' = w_sent w" "\<not> succeeded r"
  | (simulated) "w_sent w' = w_sent w" "AllowSimulation cfg"
  | (sent) st key "from" where "validateContractCallPolicy eth cfg req (requestedContractNetwork cfg req) = None"
      "validateContractCallTreasuryPolicy cfg now req (requestedContractNetwork cfg req) (w_store w) = (None, st)"
      "\<not> AllowSimulation cfg" "cc_DerivationIndex req = None"
      "HexToECDSA eth (TrimPrefix (EVMPrivateKey cfg) ''0x'') = Inr key" "from = PubkeyToAddress eth key"
      "sendVia cfg now net (executeEVMContractCallWithClient eth cfg req (requestedContractNetwork cfg req) key from)
         (w\<lparr>w_store := st\<rparr>) = (r, w')"
  using assms
  by (auto simp: executeContractCall_def executeEVMContractCall_def withKey_def failWith_def succeeded_def Let_def
      split: option.splits prod.splits sum.splits if_splits)

text \<open>
  C9: A contract call only ever reaches an allowed target with the one function the signer permits: every
  transaction it sends goes to the requested contract, which is on the list of targets when there is one, moves
  no native coin, and its data, the decoded bytes of the request, start with the selector of Multicall3
  \<open>aggregate3\<close>. A success outside simulation stands for exactly one accepted transaction.
\<close>

theorem contract_call_sends_allowed_call:
  assumes "executeContractCall eth cfg now net req w = (r, w')"
  shows "\<exists>new. w_sent w' = w_sent w @ new \<and>
    length (filter sent_ok new) = (if succeeded r \<and> \<not> AllowSimulation cfg then 1 else 0) \<and>
    (\<forall>s \<in> set new. contractCallSpec eth cfg req s \<and> take 4 (tx_data (sent_tx s)) = aggregate3Selector \<and>
       (AllowedContractCalls cfg \<noteq> {} \<longrightarrow> ToUpper (TrimSpace (cc_To req)) \<in> AllowedContractCalls cfg))"
  using assms
proof (cases rule: executeContractCall_sent)
  case (sent st key "from")
  have sel: "take 4 (tx_data (sent_tx s)) = aggregate3Selector" if "contractCallSpec eth cfg req s" for s
    using that by (intro accepted_call_selector [OF sent(1)]) (simp add: contractCallSpec_def Let_def)
  have allowed: "AllowedContractCalls cfg \<noteq> {} \<longrightarrow> ToUpper (TrimSpace (cc_To req)) \<in> AllowedContractCalls cfg"
    using sent(1) by (simp add: validateContractCallPolicy_None_iff)
  from contract_call.sendVia_sent [OF sent(7)] obtain new where "w_sent w' = w_sent w @ new"
      "\<forall>s \<in> set new. contractCallSpec eth cfg req s" "length (filter sent_ok new) = (if succeeded r then 1 else 0)"
    by auto
  with sel allowed sent(3) show ?thesis by (intro exI [of _ new]) simp
qed simp_all

definition callRequest :: ContractCallRequest where
  "callRequest = \<lparr>cc_To = ''0xcA11bde05977b3631167028862bE2a173976CA11'', cc_Data = ''0x82AD56cb00ff'', cc_Network = ''bsc'',
     cc_IdempotencyKey = ''c'', cc_Amount = [], cc_TokenContract = [], cc_DerivationIndex = None\<rparr>"

definition callRun :: "outcome \<times> runState" where
  "callRun = executeContractCall demoGeth payConfig 1000 (payNet (\<lambda>_. None)) callRequest payStart"

lemma callRun_sent: "map (\<lambda>s. (nonceOf s, sent_ok s)) (w_sent (snd callRun)) = [(5, True)]"
  by code_simp

theorem contract_call_sends_allowed_call_witness:
  "\<exists>s. w_sent (snd callRun) = [s] \<and> sent_ok s \<and> take 4 (tx_data (sent_tx s)) = aggregate3Selector"
proof -
  from callRun_sent obtain s where s: "w_sent (snd callRun) = [s]" "sent_ok s" by auto
  have "executeContractCall demoGeth payConfig 1000 (payNet (\<lambda>_. None)) callRequest payStart = (fst callRun, snd callRun)"
    by (simp add: callRun_def)
  from contract_call_sends_allowed_call [OF this] s payStart_sent show ?thesis by auto
qed

text \<open>What an accepted settlement request guarantees.\<close>

definition settlementAuthorised :: "geth \<Rightarrow> SignerConfig \<Rightarrow> instant \<Rightarrow> SettlementExecuteRequest \<Rightarrow> int \<Rightarrow> bool" where
  "settlementAuthorised eth cfg now req amount = (
     SetString10 (TrimSpace (se_AmountRaw req)) = Some amount \<and> 0 < amount \<and>
     EqualFold (se_Vault req) (BSCTreasuryContract cfg) \<and> EqualFold (se_Token req) (BSCUSDTContract cfg) \<and>
     (\<exists>expiresAt. parseRFC3339 (se_ExpiresAt req) = Some expiresAt \<and> now < expiresAt) \<and>
     settlementOperationID eth (sint (se_ChainID req)) (se_Vault req) (se_SettlementIntentID req)
       (se_Token req) (se_Recipient req) amount = Inr (HexToHash eth (se_OperationID req)))"

lemma validateSettlement_authorised:
  assumes "validateSettlementExecuteRequest eth cfg now req = Inr (network, amount)"
  shows "settlementAuthorised eth cfg now req amount \<and> network = settlementNetwork cfg req"
  using assms unfolding validateSettlementExecuteRequest_def Let_def settlementAuthorised_def
  by (simp split: if_split_asm option.split_asm sum.split_asm)

lemma executeSettlement_sent:
  assumes "executeSettlement eth cfg now net req w = (r, w')"
  obtains (refused) "w_sent w' = w_sent w" "\<not> succeeded r"
  | (simulated) "w_sent w' = w_sent w" "AllowSimulation cfg"
  | (sent) network amount key "from" where "validateSettlementExecuteRequest eth cfg now req = Inr (network, amount)"
      "\<not> AllowSimulation cfg"
      "HexToECDSA eth (TrimPrefix (EVMPrivateKey cfg) ''0x'') = Inr key" "from = PubkeyToAddress eth key"
      "sendVia cfg now net (executeEVMSettlementWithClient eth cfg req network key from amount) w = (r, w')"
  using assms
  by (auto simp: executeSettlement_def executeEVMSettlement_def withKey_def failWith_def succeeded_def Let_def
      split: option.splits prod.splits sum.splits if_splits)

text \<open>
  C8: A settlement pays out only under an authorisation that had not expired when the request was validated: every
  transaction it sends calls \<open>payout\<close> on the configured vault with the configured token, the requested recipient
  and the raw amount, on the chain of the request, and the operation id it carries is the hash of exactly these
  parameters. The expiry is looked at once, before the first attempt, so a send may come after it. A success
  outside simulation stands for exactly one accepted transaction.
\<close>

theorem settlement_sends_authorised_payout:
  assumes "executeSettlement eth cfg now net req w = (r, w')"
  shows "\<exists>new. w_sent w' = w_sent w @ new \<and>
    length (filter sent_ok new) = (if succeeded r \<and> \<not> AllowSimulation cfg then 1 else 0) \<and>
    (\<forall>s \<in> set new. \<exists>amount. settlementAuthorised eth cfg now req amount \<and>
       settlementSpec eth req (settlementNetwork cfg req) amount s)"
  using assms
proof (cases rule: executeSettlement_sent)
  case (sent network amount key "from")
  note a = validateSettlement_authorised [OF sent(1)]
  from settlement.sendVia_sent [OF sent(5)] obtain new where "w_sent w' = w_sent w @ new"
      "\<forall>s \<in> set new. settlementSpec eth req network amount s" "length (filter sent_ok new) = (if succeeded r then 1 else 0)"
    by auto
  with a sent(2) show ?thesis by (intro exI [of _ new]) auto
qed simp_all

definition settleRequest :: SettlementExecuteRequest where
  "settleRequest = \<lparr>se_OperationID = ''0x0000000000000000000000000000000000000000000000000000000000000038'',
     se_SettlementIntentID = ''intent'', se_OrderID = ''order'', se_Side = ''sell'', se_Network = [], se_ChainID = 56,
     se_Vault = ''0x6666666666666666666666666666666666666666'', se_Token = ''0x5555555555555555555555555555555555555555'',
     se_Recipient = ''0x7777777777777777777777777777777777777777'', se_AmountRaw = ''1000'', se_SourceChannel = [],
     se_PolicyVersion = settlementPolicyVersion, se_NetworkPolicy = [], se_RiskPolicy = [], se_ContractVersion = [],
     se_AuthorizedAt = [], se_ExpiresAt = ''2030-01-01T00:00:00Z'', se_IdempotencyKey = ''s''\<rparr>"

definition settleRun :: "outcome \<times> runState" where
  "settleRun = executeSettlement demoGeth payConfig 1000 (payNet (\<lambda>_. None)) settleRequest payStart"

lemma settleRun_sent: "map (\<lambda>s. (nonceOf s, sent_ok s)) (w_sent (snd settleRun)) = [(5, True)]"
  by code_simp

theorem settlement_sends_authorised_payout_witness:
  "\<exists>s amount. w_sent (snd settleRun) = [s] \<and> sent_ok s \<and> settlementAuthorised demoGeth payConfig 1000 settleRequest amount"
proof -
  from settleRun_sent obtain s where s: "w_sent (snd settleRun) = [s]" "sent_ok s" by auto
  have "executeSettlement demoGeth payConfig 1000 (payNet (\<lambda>_. None)) settleRequest payStart = (fst settleRun, snd settleRun)"
    by (simp add: settleRun_def)
  from settlement_sends_authorised_payout [OF this] s payStart_sent show ?thesis by auto
qed

section \<open>Divergences from the intent\<close>

definition firstTimesOut :: "string \<Rightarrow> error option" where
  "firstTimesOut url = (if url = ''https://a'' then Some (Err ''context deadline exceeded'') else None)"

text \<open>
  C20: Every execution ends after at most two attempts, whatever the nodes answer and however many endpoints are
  configured: the retry loop walks over the candidates of one selection, so a request hands at most two
  transactions to nodes.
\<close>

theorem executions_end_after_two_attempts:
  "length (w_sent (snd (executeTransfer eth cfg now net req w))) \<le> length (w_sent w) + 2 \<and>
   length (w_sent (snd (executeContractCall eth cfg now net call w))) \<le> length (w_sent w) + 2 \<and>
   length (w_sent (snd (executeSettlement eth cfg now net pay w))) \<le> length (w_sent w) + 2"
proof (intro conjI)
  obtain r w' where e: "executeTransfer eth cfg now net req w = (r, w')" by fastforce
  then show "length (w_sent (snd (executeTransfer eth cfg now net req w))) \<le> length (w_sent w) + 2"
  proof (cases rule: executeTransfer_sent)
    case (sent st key "from")
    with e transfer.sendVia_sent [OF sent(7)] show ?thesis by auto
  qed (simp_all add: e)
next
  obtain r w' where e: "executeContractCall eth cfg now net call w = (r, w')" by fastforce
  then show "length (w_sent (snd (executeContractCall eth cfg now net call w))) \<le> length (w_sent w) + 2"
  proof (cases rule: executeContractCall_sent)
    case (sent st key "from")
    with e contract_call.sendVia_sent [OF sent(7)] show ?thesis by auto
  qed (simp_all add: e)
next
  obtain r w' where e: "executeSettlement eth cfg now net pay w = (r, w')" by fastforce
  then show "length (w_sent (snd (executeSettlement eth cfg now net pay w))) \<le> length (w_sent w) + 2"
  proof (cases rule: executeSettlement_sent)
    case (sent network amount key "from")
    with e settlement.sendVia_sent [OF sent(5)] show ?thesis by auto
  qed (simp_all add: e)
qed

text \<open>
  The nonces are reserved per network label, while the labels BSC and EVM share the wallet and the RPC
  endpoints: a transfer labelled BSC and one labelled EVM go out on chain 56 with the same nonce, so that one
  replaces the other.
\<close>

theorem network_labels_share_a_nonce:
  "let (r1, w1) = executeTransfer demoGeth payConfig 1000 (payNet (\<lambda>_. None)) (payRequest ''BSC'') payStart;
       (r2, w2) = executeTransfer demoGeth payConfig 10000000000 (payNet (\<lambda>_. None)) (payRequest ''EVM'') w1
   in map (\<lambda>s. (sent_chain s, nonceOf s, sent_ok s)) (w_sent w2) = [(56, 5, True), (56, 5, True)]"
  by code_simp

definition nanCall :: ContractCallRequest where
  "nanCall = callRequest\<lparr>cc_Amount := ''NaN'', cc_TokenContract := ''0x5555555555555555555555555555555555555555''\<rparr>"

definition bigTransfer :: TransferRequest where
  "bigTransfer = (payRequest [])\<lparr>tr_Amount := ''9000''\<rparr>"

text \<open>
  An amount \<open>NaN\<close> passes every limit, because no comparison with it holds, and once recorded it makes
  the day's outflow \<open>NaN\<close>: with a daily maximum of 500, a transfer of 9000 is refused before and goes out after
  a contract call that declares the amount \<open>NaN\<close>.
\<close>

theorem nan_amount_lifts_daily_limit:
  "let refused = w_sent (snd (executeTransfer demoGeth payConfig 10000000000 (payNet (\<lambda>_. None)) bigTransfer payStart));
       (r1, w1) = executeContractCall demoGeth payConfig 1000 (payNet (\<lambda>_. None)) nanCall payStart;
       (r2, w2) = executeTransfer demoGeth payConfig 10000000000 (payNet (\<lambda>_. None)) bigTransfer w1
   in TreasuryMaxDailyOut payConfig = Fin 500 \<and> refused = [] \<and>
      map (\<lambda>s. (sent_ok s, tx_value (sent_tx s))) (w_sent w2) = [(True, 0), (True, 0)] \<and>
      bytesVal (drop 36 (tx_data (sent_tx (w_sent w2 ! 1)))) = 9000 * 10 ^ 18"
  by code_simp

end
