(* ===== verification/Go_Crypto.thy ===== *)
theory Go_Crypto
  imports Go_Strings
begin

text \<open>
  The packages \<open>crypto/sha256\<close> and \<open>crypto/hmac\<close> of Go's standard library, as far as the signer uses
  them: SHA-256 (FIPS 180-4) on 32-bit words and HMAC (RFC 2104) with a block of 64 bytes. The
  definitions execute and reproduce the published test vectors.
\<close>

unbundle bit_operations_syntax

section \<open>SHA-256\<close>

type_synonym w32 = "32 word"

definition rotr32 :: "nat \<Rightarrow> w32 \<Rightarrow> w32" where
  "rotr32 n x = drop_bit n x OR push_bit (32 - n) x"

text \<open>
  The constants of FIPS 180-4 in decimal: the first 32 bits of the fractional parts of the cube roots of the
  first 64 primes, and of the square roots of the first eight.
\<close>

definition sha256K :: "w32 list" where
  "sha256K = [
    1116352408, 1899447441, 3049323471, 3921009573, 961987163, 1508970993, 2453635748, 2870763221,
    3624381080, 310598401, 607225278, 1426881987, 1925078388, 2162078206, 2614888103, 3248222580,
    3835390401, 4022224774, 264347078, 604807628, 770255983, 1249150122, 1555081692, 1996064986,
    2554220882, 2821834349, 2952996808, 3210313671, 3336571891, 3584528711, 113926993, 338241895,
    666307205, 773529912, 1294757372, 1396182291, 1695183700, 1986661051, 2177026350, 2456956037,
    2730485921, 2820302411, 3259730800, 3345764771, 3516065817, 3600352804, 4094571909, 275423344,
    430227734, 506948616, 659060556, 883997877, 958139571, 1322822218, 1537002063, 1747873779,
    1955562222, 2024104815, 2227730452, 2361852424, 2428436474, 2756734187, 3204031479, 3329325298]"

definition sha256H0 :: "w32 list" where
  "sha256H0 = [
    1779033703, 3144134277, 1013904242, 2773480762, 1359893119, 2600822924, 528734635, 1541459225]"

text \<open>Sixteen big-endian words from the 64 bytes of a block, and back.\<close>

fun wordsOf :: "byte list \<Rightarrow> w32 list" where
  "wordsOf (a # b # c # d # bs) =
     word_of_int (((uint a * 256 + uint b) * 256 + uint c) * 256 + uint d) # wordsOf bs"
| "wordsOf _ = []"

definition bytesOfWord :: "w32 \<Rightarrow> byte list" where
  "bytesOfWord w = (let n = uint w in
     [word_of_int (n div 16777216), word_of_int (n div 65536), word_of_int (n div 256), word_of_int n])"

text \<open>
  The message schedule, kept as the last sixteen words, most recent last: \<open>scheduleNext\<close> is
  the word that follows them.
\<close>

definition scheduleNext :: "w32 list \<Rightarrow> w32" where
  "scheduleNext ws = (let w15 = ws ! 1; w2 = ws ! 14 in
     ws ! 0 + (rotr32 7 w15 XOR rotr32 18 w15 XOR drop_bit 3 w15) + ws ! 9
       + (rotr32 17 w2 XOR rotr32 19 w2 XOR drop_bit 10 w2))"

fun schedule :: "nat \<Rightarrow> w32 list \<Rightarrow> w32 list" where
  "schedule 0 ws = ws"
| "schedule (Suc n) ws = hd ws # schedule n (tl ws @ [scheduleNext ws])"

definition sha256Round :: "w32 list \<Rightarrow> w32 \<times> w32 \<Rightarrow> w32 list" where
  "sha256Round st kw = (case (st, kw) of
     ([a, b, c, d, e, f, g, h], (k, w)) \<Rightarrow> (let
        t1 = h + (rotr32 6 e XOR rotr32 11 e XOR rotr32 25 e) + ((e AND f) XOR (NOT e AND g)) + k + w;
        t2 = (rotr32 2 a XOR rotr32 13 a XOR rotr32 22 a) + ((a AND b) XOR (a AND c) XOR (b AND c))
        in [t1 + t2, a, b, c, d + t1, e, f, g])
   | _ \<Rightarrow> st)"

definition sha256Block :: "w32 list \<Rightarrow> byte list \<Rightarrow> w32 list" where
  "sha256Block st block =
     map2 (+) st (foldl sha256Round st (zip sha256K (schedule 48 (wordsOf block))))"

text \<open>The padding: a one bit, zeros up to 56 modulo 64 bytes, and the length in bits.\<close>

fun beBytes :: "nat \<Rightarrow> int \<Rightarrow> byte list" where
  "beBytes 0 n = []"
| "beBytes (Suc k) n = beBytes k (n div 256) @ [word_of_int n]"

definition sha256Pad :: "byte list \<Rightarrow> byte list" where
  "sha256Pad m = m @ [0x80] @ replicate ((119 - length m mod 64) mod 64) 0
     @ beBytes 8 (8 * int (length m))"

fun sha256Blocks :: "nat \<Rightarrow> w32 list \<Rightarrow> byte list \<Rightarrow> w32 list" where
  "sha256Blocks 0 st bs = st"
| "sha256Blocks (Suc n) st bs = sha256Blocks n (sha256Block st (take 64 bs)) (drop 64 bs)"

definition sha256 :: "byte list \<Rightarrow> byte list" where
  "sha256 m = (let p = sha256Pad m in
     concat (map bytesOfWord (sha256Blocks (length p div 64) sha256H0 p)))"

section \<open>HMAC\<close>

definition hmacBlockKey :: "byte list \<Rightarrow> byte list" where
  "hmacBlockKey key = (let k = (if length key > 64 then sha256 key else key) in
     k @ replicate (64 - length k) 0)"

definition hmac_sha256 :: "byte list \<Rightarrow> byte list \<Rightarrow> byte list" where
  "hmac_sha256 key msg = (let k = hmacBlockKey key in
     sha256 (map (\<lambda>b. b XOR 0x5c) k @ sha256 (map (\<lambda>b. b XOR 0x36) k @ msg)))"

section \<open>Lemmas\<close>

lemma length_sha256Round [simp]: "length (sha256Round st kw) = length st"
  by (simp add: sha256Round_def Let_def split: list.splits prod.splits)

lemma length_foldl_sha256Round: "length (foldl sha256Round st kws) = length st"
  by (induction kws arbitrary: st) simp_all

lemma length_sha256Blocks: "length (sha256Blocks n st bs) = length st"
  by (induction n st bs rule: sha256Blocks.induct)
    (simp_all add: sha256Block_def length_foldl_sha256Round)

lemma length_sha256 [simp]: "length (sha256 m) = 32"
proof -
  have "length (concat (map bytesOfWord ws)) = 4 * length ws" for ws
    by (induction ws) (simp_all add: bytesOfWord_def Let_def)
  then show ?thesis by (simp add: sha256_def Let_def length_sha256Blocks sha256H0_def)
qed

lemma length_hmac_sha256 [simp]: "length (hmac_sha256 k m) = 32"
  by (simp add: hmac_sha256_def Let_def)

text \<open>
  The two tables are what the standard says they are: with its integer part in front, each entry is the
  root of its prime scaled by \<open>2^32\<close> and rounded down.
\<close>

definition firstPrimes :: "int list" where
  "firstPrimes = [
    2, 3, 5, 7, 11, 13, 17, 19, 23, 29, 31, 37, 41, 43, 47, 53,
    59, 61, 67, 71, 73, 79, 83, 89, 97, 101, 103, 107, 109, 113, 127, 131,
    137, 139, 149, 151, 157, 163, 167, 173, 179, 181, 191, 193, 197, 199, 211, 223,
    227, 229, 233, 239, 241, 251, 257, 263, 269, 271, 277, 281, 283, 293, 307, 311]"

definition scaledRoot :: "nat \<Rightarrow> int \<Rightarrow> int \<Rightarrow> bool" where
  "scaledRoot e p n = (n ^ e \<le> p * 2 ^ (32 * e) \<and> p * 2 ^ (32 * e) < (n + 1) ^ e)"

definition rootWhole :: "nat \<Rightarrow> int \<Rightarrow> int" where
  "rootWhole e p = last (takeWhile (\<lambda>c. c ^ e \<le> p) [1..7])"

lemma sha256_constants:
  "list_all2 (\<lambda>p k. scaledRoot 3 p (rootWhole 3 p * 2 ^ 32 + uint k)) firstPrimes sha256K"
  "list_all2 (\<lambda>p k. scaledRoot 2 p (rootWhole 2 p * 2 ^ 32 + uint k)) (take 8 firstPrimes) sha256H0"
  by code_simp+

text \<open>The padded message is a whole number of blocks.\<close>

lemma length_beBytes [simp]: "length (beBytes k n) = k"
  by (induction k n rule: beBytes.induct) simp_all

lemma length_sha256Pad: "64 dvd length (sha256Pad m)"
proof -
  obtain q r where m: "length m = 64 * q + r" "r < 64"
    using div_mult_mod_eq [of "length m" 64] by (metis mod_less_divisor mult.commute zero_less_numeral)
  then have r: "length m mod 64 = r" by simp
  show ?thesis
  proof (cases "r \<le> 55")
    case True
    then have "64 \<le> 119 - r" by simp
    from le_mod_geq [OF this] have "(119 - r) mod 64 = 55 - r" by simp
    with True m r have "length (sha256Pad m) = 64 * (q + 1)" by (simp add: sha256Pad_def)
    then show ?thesis by simp
  next
    case False
    then have "(119 - r) mod 64 = 119 - r" by simp
    with False m r have "length (sha256Pad m) = 64 * (q + 2)" by (simp add: sha256Pad_def)
    then show ?thesis by simp
  qed
qed

end
