(* ===== verification/Hmac.thy ===== *)
theory Hmac
  imports Go_Crypto
begin

text \<open>
  Model of \<open>src/internal/security/hmac.go\<close> and of the two wrappers in \<open>src/hmac_compat.go\<close>: the
  timestamp window and the HMAC-SHA256 signature of a request, with the previous secret accepted
  during a rotation. \<open>now\<close> is \<open>time.Now()\<close>; \<open>None\<close> is a nil error.
\<close>

section \<open>Definitions\<close>

record HMACValidator =
  activeSecret :: string
  oldSecret :: string
  maxSkew :: int

definition NewHMACValidator :: "string \<Rightarrow> int \<Rightarrow> HMACValidator" where
  "NewHMACValidator secret skew = \<lparr>activeSecret = secret, oldSecret = [], maxSkew = skew\<rparr>"

definition SetOldSecret :: "string \<Rightarrow> HMACValidator \<Rightarrow> HMACValidator" where
  "SetOldSecret secret h = h\<lparr>oldSecret := secret\<rparr>"

definition RotateSecret :: "string \<Rightarrow> HMACValidator \<Rightarrow> HMACValidator" where
  "RotateSecret newSecret h = h\<lparr>oldSecret := activeSecret h, activeSecret := newSecret\<rparr>"

text \<open>The difference of the timestamps is an \<open>int64\<close>: the subtraction and the negation wrap.\<close>

definition skewSeconds :: "instant \<Rightarrow> int \<Rightarrow> int" where
  "skewSeconds now ts = (let diff = wrap64 (time_Unix now - ts) in
     if diff < 0 then wrap64 (- diff) else diff)"

definition validateTimestampInputs ::
    "instant \<Rightarrow> HMACValidator \<Rightarrow> string \<Rightarrow> string \<Rightarrow> string \<Rightarrow> error option" where
  "validateTimestampInputs now h tsStr nonce hmacHeader =
     (if activeSecret h = [] \<or> hmacHeader = [] \<or> tsStr = [] \<or> nonce = []
      then Some (Err ''credenciais de assinatura ausentes'')
      else case ParseInt64 tsStr of
        (_, Some e) \<Rightarrow> Some (Wrap ''timestamp invalido'' e)
      | (ts, None) \<Rightarrow>
          if skewSeconds now ts > maxSkew h
          then Some (Err (''requisicao expirada (timestamp skew: '' @ FormatInt (skewSeconds now ts) @ '' segundos)''))
          else None)"

text \<open>
  The validator and the generator build the signed message each for itself: \<open>fmt.Sprintf("%s.%s.%s", ...)\<close> over the
  timestamp, the nonce and the hash of the body, or the body itself in the legacy format.
\<close>

definition validateWithSecret :: "string \<Rightarrow> string \<Rightarrow> string \<Rightarrow> string \<Rightarrow> string \<Rightarrow> bool" where
  "validateWithSecret secret tsStr nonce bodyHashHex hmacHeader = (let
     signatureRaw = stringBytes (tsStr @ ''.'' @ nonce @ ''.'' @ bodyHashHex);
     expectedMac = hexEncodeToString (hmac_sha256 (stringBytes secret) signatureRaw)
     in stringBytes hmacHeader = stringBytes expectedMac)"

definition validateRawWithSecret :: "string \<Rightarrow> string \<Rightarrow> string \<Rightarrow> byte list \<Rightarrow> string \<Rightarrow> bool" where
  "validateRawWithSecret secret tsStr nonce body hmacHeader = (let
     signatureRaw = stringBytes (tsStr @ ''.'' @ nonce @ ''.'') @ body;
     expectedMac = hexEncodeToString (hmac_sha256 (stringBytes secret) signatureRaw)
     in stringBytes hmacHeader = stringBytes expectedMac)"

definition ValidateHMAC ::
    "instant \<Rightarrow> HMACValidator \<Rightarrow> string \<Rightarrow> string \<Rightarrow> string \<Rightarrow> byte list \<Rightarrow> error option" where
  "ValidateHMAC now h tsStr nonce hmacHeader body =
     (case validateTimestampInputs now h tsStr nonce hmacHeader of
        Some e \<Rightarrow> Some e
      | None \<Rightarrow> (let bodyHashHex = hexEncodeToString (sha256 body) in
          if validateWithSecret (activeSecret h) tsStr nonce bodyHashHex hmacHeader then None
          else if oldSecret h \<noteq> [] \<and> validateWithSecret (oldSecret h) tsStr nonce bodyHashHex hmacHeader then None
          else Some (Err ''assinatura HMAC invalida'')))"

definition ValidateRawBodyHMAC ::
    "instant \<Rightarrow> HMACValidator \<Rightarrow> string \<Rightarrow> string \<Rightarrow> string \<Rightarrow> byte list \<Rightarrow> error option" where
  "ValidateRawBodyHMAC now h tsStr nonce hmacHeader body =
     (case validateTimestampInputs now h tsStr nonce hmacHeader of
        Some e \<Rightarrow> Some e
      | None \<Rightarrow>
          if validateRawWithSecret (activeSecret h) tsStr nonce body hmacHeader then None
          else if oldSecret h \<noteq> [] \<and> validateRawWithSecret (oldSecret h) tsStr nonce body hmacHeader then None
          else Some (Err ''assinatura HMAC invalida''))"

definition GenerateHMAC :: "string \<Rightarrow> string \<Rightarrow> string \<Rightarrow> byte list \<Rightarrow> string" where
  "GenerateHMAC secret tsStr nonce body = (let
     bodyHashHex = hexEncodeToString (sha256 body);
     signatureRaw = stringBytes (tsStr @ ''.'' @ nonce @ ''.'' @ bodyHashHex)
     in hexEncodeToString (hmac_sha256 (stringBytes secret) signatureRaw))"

definition GenerateRawBodyHMAC :: "string \<Rightarrow> string \<Rightarrow> string \<Rightarrow> byte list \<Rightarrow> string" where
  "GenerateRawBodyHMAC secret tsStr nonce body = (let
     signatureRaw = stringBytes (tsStr @ ''.'' @ nonce @ ''.'') @ body
     in hexEncodeToString (hmac_sha256 (stringBytes secret) signatureRaw))"

definition CanonicalRequest :: "string \<Rightarrow> string \<Rightarrow> byte list \<Rightarrow> string" where
  "CanonicalRequest method path body = method @ '' '' @ path @ '' '' @ hexEncodeToString (sha256 body)"

text \<open>
  \<open>SignRawBodyHeaders\<close>: the headers it sets, the timestamp, the nonce it generated and the
  signature, in this order.
\<close>

definition SignRawBodyHeaders :: "instant \<Rightarrow> string \<Rightarrow> string \<Rightarrow> byte list \<Rightarrow> (string \<times> string) list" where
  "SignRawBodyHeaders now nonce secret body = (let ts = FormatInt (time_Unix now) in
     [(''x-ts'', ts), (''x-nonce'', nonce), (''x-signer-hmac'', GenerateRawBodyHMAC secret ts nonce body)])"

definition validateHMAC_compat ::
    "instant \<Rightarrow> string \<Rightarrow> int \<Rightarrow> string \<Rightarrow> string \<Rightarrow> string \<Rightarrow> byte list \<Rightarrow> error option" where
  "validateHMAC_compat now secret skew tsStr nonce hmacHeader body =
     ValidateRawBodyHMAC now (NewHMACValidator secret skew) tsStr nonce hmacHeader body"

section \<open>Lemmas\<close>

lemma stringBytes_eq_iff [simp]: "stringBytes a = stringBytes b \<longleftrightarrow> a = b"
  using stringBytes_inj by blast

lemma timestamp_ok_iff:
  "validateTimestampInputs now h tsStr nonce hmacHeader = None \<longleftrightarrow>
     activeSecret h \<noteq> [] \<and> hmacHeader \<noteq> [] \<and> tsStr \<noteq> [] \<and> nonce \<noteq> [] \<and>
     (\<exists>ts. ParseInt64 tsStr = (ts, None) \<and> skewSeconds now ts \<le> maxSkew h)"
  by (auto simp: validateTimestampInputs_def split: prod.splits option.splits)

lemma GenerateHMAC_explicit:
  "GenerateHMAC secret tsStr nonce body = hexEncodeToString (hmac_sha256 (stringBytes secret)
     (stringBytes (tsStr @ ''.'' @ nonce @ ''.'' @ hexEncodeToString (sha256 body))))"
  by (simp add: GenerateHMAC_def Let_def)

lemma ValidateHMAC_None:
  "ValidateHMAC now h tsStr nonce hdr body = None \<longleftrightarrow>
     validateTimestampInputs now h tsStr nonce hdr = None \<and>
     (hdr = GenerateHMAC (activeSecret h) tsStr nonce body \<or>
      oldSecret h \<noteq> [] \<and> hdr = GenerateHMAC (oldSecret h) tsStr nonce body)"
  by (simp add: ValidateHMAC_def validateWithSecret_def GenerateHMAC_def Let_def split: option.splits)

lemma ValidateRawBodyHMAC_None:
  "ValidateRawBodyHMAC now h tsStr nonce hdr body = None \<longleftrightarrow>
     validateTimestampInputs now h tsStr nonce hdr = None \<and>
     (hdr = GenerateRawBodyHMAC (activeSecret h) tsStr nonce body \<or>
      oldSecret h \<noteq> [] \<and> hdr = GenerateRawBodyHMAC (oldSecret h) tsStr nonce body)"
  by (simp add: ValidateRawBodyHMAC_def validateRawWithSecret_def GenerateRawBodyHMAC_def Let_def
      split: option.splits)

lemma length_GenerateHMAC [simp]: "length (GenerateHMAC s t n b) = 64"
  by (simp add: GenerateHMAC_def Let_def length_hexEncodeToString)

lemma length_GenerateRawBodyHMAC [simp]: "length (GenerateRawBodyHMAC s t n b) = 64"
  by (simp add: GenerateRawBodyHMAC_def Let_def length_hexEncodeToString)

lemma GenerateRawBodyHMAC_not_Nil [simp]: "GenerateRawBodyHMAC s t n b \<noteq> []"
  using length_GenerateRawBodyHMAC [of s t n b] by force

lemma GenerateHMAC_not_Nil [simp]: "GenerateHMAC s t n b \<noteq> []"
  using length_GenerateHMAC [of s t n b] by force

text \<open>
  With a clock and a window away from the ends of the 64-bit range, the check bounds the real
  difference, with one exception: a timestamp exactly \<open>2^63\<close> seconds back.
\<close>

lemma skewSeconds_le:
  assumes "0 \<le> time_Unix now" and "0 \<le> m" and "time_Unix now + m < 9223372036854775808" and "int64 ts"
  shows "skewSeconds now ts \<le> m \<longleftrightarrow>
    \<bar>time_Unix now - ts\<bar> \<le> m \<or> time_Unix now - ts = 9223372036854775808"
proof -
  define d where "d = time_Unix now - ts"
  have d: "- 9223372036854775808 < d" "d \<le> time_Unix now + 9223372036854775808"
    using assms(1,4) by (auto simp: d_def int64_def)
  consider "d < 9223372036854775808" | "d = 9223372036854775808" | "9223372036854775808 < d" by linarith
  then show ?thesis
  proof cases
    case 1
    with d(1) have "wrap64 d = d" "wrap64 (- d) = - d" by (simp_all add: int64_def)
    with 1 show ?thesis by (simp add: skewSeconds_def Let_def d_def [symmetric])
  next
    case 2
    then show ?thesis using assms(2) by (simp add: skewSeconds_def Let_def d_def [symmetric] wrap64_def)
  next
    case 3
    have "int64 (d - 18446744073709551616)" using 3 d assms(2,3) by (simp add: int64_def)
    then have w: "wrap64 d = d - 18446744073709551616" using wrap64_shift [of "d - 18446744073709551616"] by simp
    then have "wrap64 (- wrap64 d) = 18446744073709551616 - d"
      using 3 d assms by (intro wrap64_id [THEN trans]) (auto simp: int64_def)
    with w 3 d assms show ?thesis by (simp add: skewSeconds_def Let_def d_def [symmetric])
  qed
qed

section \<open>Properties\<close>

text \<open>
  C23: With a clock and a window away from the ends of the 64-bit range, a request passes \<open>ValidateHMAC\<close> exactly when an
  active secret is set, timestamp and nonce are present, the timestamp parses as an \<open>int64\<close> and is at most \<open>maxSkew\<close>
  seconds from the clock (or exactly \<open>2^63\<close> seconds back, where the subtraction wraps), and the signature is the
  lower-case hexadecimal HMAC-SHA256, under the active secret or under the previous one if one is set, of the bytes
  \<open>timestamp.nonce.hash\<close> with the SHA-256 of the body in lower-case hexadecimal.
\<close>

theorem ValidateHMAC_accepts_iff:
  assumes "0 \<le> time_Unix now" and "0 \<le> maxSkew h" and "time_Unix now + maxSkew h < 9223372036854775808"
  shows "ValidateHMAC now h tsStr nonce hdr body = None \<longleftrightarrow>
     activeSecret h \<noteq> [] \<and> tsStr \<noteq> [] \<and> nonce \<noteq> [] \<and>
     (\<exists>ts. ParseInt64 tsStr = (ts, None) \<and>
        (\<bar>time_Unix now - ts\<bar> \<le> maxSkew h \<or> time_Unix now - ts = 9223372036854775808)) \<and>
     (\<exists>secret. (secret = activeSecret h \<or> secret = oldSecret h \<and> oldSecret h \<noteq> []) \<and>
        hdr = hexEncodeToString (hmac_sha256 (stringBytes secret)
          (stringBytes (tsStr @ ''.'' @ nonce @ ''.'' @ hexEncodeToString (sha256 body)))))"
proof -
  have "(\<exists>ts. ParseInt64 tsStr = (ts, None) \<and> skewSeconds now ts \<le> maxSkew h) \<longleftrightarrow>
      (\<exists>ts. ParseInt64 tsStr = (ts, None) \<and>
        (\<bar>time_Unix now - ts\<bar> \<le> maxSkew h \<or> time_Unix now - ts = 9223372036854775808))"
    using skewSeconds_le [OF assms] ParseInt64_int64 [of tsStr] by (metis fst_conv)
  moreover have "(\<exists>secret. (secret = activeSecret h \<or> secret = oldSecret h \<and> oldSecret h \<noteq> []) \<and>
        hdr = hexEncodeToString (hmac_sha256 (stringBytes secret)
          (stringBytes (tsStr @ ''.'' @ nonce @ ''.'' @ hexEncodeToString (sha256 body))))) \<longleftrightarrow>
      hdr = GenerateHMAC (activeSecret h) tsStr nonce body \<or>
      oldSecret h \<noteq> [] \<and> hdr = GenerateHMAC (oldSecret h) tsStr nonce body"
    unfolding GenerateHMAC_explicit by blast
  ultimately show ?thesis
    unfolding ValidateHMAC_None timestamp_ok_iff using GenerateHMAC_not_Nil by metis
qed

text \<open>
  With a clock and a window away from the ends of the 64-bit range, an accepted request carries
  a timestamp at most \<open>maxSkew\<close> seconds from the clock, except the single value \<open>2^63\<close> seconds back,
  for which the wrap-around of the subtraction makes the check pass.
\<close>

theorem accepted_timestamp_in_window:
  assumes "ValidateRawBodyHMAC now h tsStr nonce hdr body = None"
    and "0 \<le> time_Unix now" and "0 \<le> maxSkew h" and "time_Unix now + maxSkew h < 9223372036854775808"
  shows "\<exists>ts. ParseInt64 tsStr = (ts, None) \<and>
    (\<bar>time_Unix now - ts\<bar> \<le> maxSkew h \<or> time_Unix now - ts = 9223372036854775808)"
proof -
  from assms(1) obtain ts where ts: "ParseInt64 tsStr = (ts, None)" "skewSeconds now ts \<le> maxSkew h"
    unfolding ValidateRawBodyHMAC_None timestamp_ok_iff by auto
  have "int64 ts" using ParseInt64_int64 [of tsStr] ts(1) by simp
  with ts skewSeconds_le [OF assms(2-4)] show ?thesis by auto
qed

definition demoValidator :: HMACValidator where
  "demoValidator = SetOldSecret ''old'' (NewHMACValidator ''secret'' 300)"

lemma demo_ts: "ParseInt64 ''1000'' = (1000, None)" "skewSeconds 1200000000000 1000 = 200"
  by code_simp+

lemma demo_accepted:
  "ValidateRawBodyHMAC 1200000000000 demoValidator ''1000'' ''n1'' (GenerateRawBodyHMAC ''old'' ''1000'' ''n1'' []) [] = None"
  unfolding ValidateRawBodyHMAC_None timestamp_ok_iff
  by (simp add: demoValidator_def SetOldSecret_def NewHMACValidator_def demo_ts)

theorem ValidateHMAC_accepts_iff_witness:
  "ValidateHMAC 1200000000000 demoValidator ''1000'' ''n.1'' (GenerateHMAC ''old'' ''1000'' ''n.1'' [1]) [1] = None \<and>
   ValidateHMAC 1301000000000 demoValidator ''1000'' ''n.1'' (GenerateHMAC ''old'' ''1000'' ''n.1'' [1]) [1] \<noteq> None"
proof
  have d: "activeSecret demoValidator = ''secret''" "oldSecret demoValidator = ''old''" "maxSkew demoValidator = 300"
    by (simp_all add: demoValidator_def SetOldSecret_def NewHMACValidator_def)
  show "ValidateHMAC 1200000000000 demoValidator ''1000'' ''n.1'' (GenerateHMAC ''old'' ''1000'' ''n.1'' [1]) [1] = None"
    by (subst ValidateHMAC_accepts_iff) (auto simp: d demo_ts(1) time_Unix_def GenerateHMAC_explicit)
  show "ValidateHMAC 1301000000000 demoValidator ''1000'' ''n.1'' (GenerateHMAC ''old'' ''1000'' ''n.1'' [1]) [1] \<noteq> None"
    by (subst ValidateHMAC_accepts_iff) (auto simp: d demo_ts(1) time_Unix_def)
qed

theorem accepted_timestamp_in_window_witness:
  "\<exists>ts. ParseInt64 ''1000'' = (ts, None) \<and>
    (\<bar>time_Unix 1200000000000 - ts\<bar> \<le> maxSkew demoValidator \<or> time_Unix 1200000000000 - ts = 9223372036854775808)"
  by (rule accepted_timestamp_in_window [OF demo_accepted])
    (simp_all add: time_Unix_def demoValidator_def SetOldSecret_def NewHMACValidator_def)

text \<open>
  The window check lets one timestamp through that is \<open>2^63\<close> seconds old: the difference is the
  smallest \<open>int64\<close>, whose negation wraps to itself and is below every window.
\<close>

theorem timestamp_check_wraps:
  assumes "0 \<le> time_Unix now" and "time_Unix now < 9223372036854775808" and "0 \<le> maxSkew h"
    and "activeSecret h \<noteq> []" and "nonce \<noteq> []" and "hdr \<noteq> []"
  shows "validateTimestampInputs now h (FormatInt (time_Unix now - 9223372036854775808)) nonce hdr = None"
proof -
  have i: "int64 (time_Unix now - 9223372036854775808)" using assms(1,2) by (simp add: int64_def)
  have "FormatInt (time_Unix now - 9223372036854775808) \<noteq> []"
    using natDigits_digits by (simp add: FormatInt_def)
  moreover have "skewSeconds now (time_Unix now - 9223372036854775808) = - 9223372036854775808"
    by (simp add: skewSeconds_def wrap64_def)
  ultimately show ?thesis
    using assms ParseInt64_FormatInt [OF i] by (auto simp: timestamp_ok_iff)
qed

theorem timestamp_check_wraps_witness:
  "validateTimestampInputs 0 demoValidator (FormatInt (time_Unix 0 - 9223372036854775808)) ''n'' ''h'' = None"
  by (rule timestamp_check_wraps)
    (simp_all add: time_Unix_def demoValidator_def SetOldSecret_def NewHMACValidator_def)

text \<open>
  A client that signs with the secret in force before a rotation is still accepted after it, in
  both formats: the rotation keeps the previous secret valid as long as the timestamp is in
  the window.
\<close>

theorem rotation_keeps_previous_signatures:
  assumes "activeSecret h \<noteq> []" and "newSecret \<noteq> []" and "nonce \<noteq> []" and "int64 ts"
    and "skewSeconds now ts \<le> maxSkew h"
  shows "ValidateHMAC now (RotateSecret newSecret h) (FormatInt ts) nonce
      (GenerateHMAC (activeSecret h) (FormatInt ts) nonce body) body = None \<and>
    ValidateRawBodyHMAC now (RotateSecret newSecret h) (FormatInt ts) nonce
      (GenerateRawBodyHMAC (activeSecret h) (FormatInt ts) nonce body) body = None"
proof -
  have "FormatInt ts \<noteq> []" using natDigits_digits by (simp add: FormatInt_def)
  with assms ParseInt64_FormatInt [OF assms(4)] show ?thesis
    unfolding ValidateHMAC_None ValidateRawBodyHMAC_None timestamp_ok_iff by (simp add: RotateSecret_def)
qed

theorem rotation_keeps_previous_signatures_witness:
  "ValidateHMAC 1200000000000 (RotateSecret ''new'' demoValidator) (FormatInt 1000) ''n''
     (GenerateHMAC (activeSecret demoValidator) (FormatInt 1000) ''n'' []) [] = None"
  using rotation_keeps_previous_signatures [of demoValidator "''new''" "''n''" 1000 1200000000000 "[]"]
  by (simp add: demoValidator_def SetOldSecret_def NewHMACValidator_def demo_ts int64_def)

text \<open>
  The message signed by the current format determines what was signed: if two accepted
  requests have the same message, they have the same timestamp text, nonce and body hash.
\<close>

theorem hashed_message_unambiguous:
  assumes "ParseInt64 ts1 = (v1, None)" and "ParseInt64 ts2 = (v2, None)"
    and "stringBytes (ts1 @ ''.'' @ n1 @ ''.'' @ hexEncodeToString (sha256 b1)) =
      stringBytes (ts2 @ ''.'' @ n2 @ ''.'' @ hexEncodeToString (sha256 b2))"
  shows "ts1 = ts2 \<and> n1 = n2 \<and> sha256 b1 = sha256 b2"
proof -
  have "ts1 @ CHR ''.'' # (n1 @ CHR ''.'' # hexEncodeToString (sha256 b1)) =
      ts2 @ CHR ''.'' # (n2 @ CHR ''.'' # hexEncodeToString (sha256 b2))"
    using assms(3) by (simp only: stringBytes_eq_iff append_Cons append_Nil)
  from append_sep_left [OF ParseInt64_no_dot [OF assms(1)] ParseInt64_no_dot [OF assms(2)] this]
  have "ts1 = ts2" and
    rest: "n1 @ CHR ''.'' # hexEncodeToString (sha256 b1) = n2 @ CHR ''.'' # hexEncodeToString (sha256 b2)"
    by simp_all
  with append_sep_right [OF hexEncodeToString_no_dot hexEncodeToString_no_dot rest] show ?thesis
    using hexEncodeToString_inj by blast
qed

theorem hashed_message_unambiguous_witness:
  "''1000'' = ''1000'' \<and> ''n.1'' = ''n.1'' \<and> sha256 [1] = sha256 [1]"
  by (rule hashed_message_unambiguous [OF demo_ts(1) demo_ts(1) refl])

text \<open>
  The message of the legacy format does not: a dot in the nonce can be moved into the body, so one
  signature is valid for two different pairs of nonce and body.
\<close>

theorem raw_signature_ambiguous:
  "GenerateRawBodyHMAC secret ts (n @ ''.'' @ m) body = GenerateRawBodyHMAC secret ts n (stringBytes (m @ ''.'') @ body)"
  by (simp add: GenerateRawBodyHMAC_def stringBytes_def)

end
