(* ===== verification/Nonce.thy ===== *)
theory Nonce
  imports Store_Contracts
begin

text \<open>
  Model of \<open>src/internal/security/nonce.go\<close>: the manager that checks and consumes request nonces, the
  in-memory store with the goroutines it starts to delete expired entries, and the store on
  Redis, whose client is an argument. A store is a record of operations on a state \<open>'s\<close>, as the
  interface \<open>NonceStore\<close> is; \<open>now\<close> is \<open>time.Now()\<close>.
\<close>

section \<open>The interface and the manager\<close>

record 's nonceStore =
  ns_Store :: "instant \<Rightarrow> string \<Rightarrow> duration \<Rightarrow> 's \<Rightarrow> error option \<times> 's"
  ns_Exists :: "instant \<Rightarrow> string \<Rightarrow> 's \<Rightarrow> bool result \<times> 's"
  ns_Delete :: "string \<Rightarrow> 's \<Rightarrow> error option \<times> 's"
  ns_Cleanup :: "instant \<Rightarrow> 's \<Rightarrow> error option \<times> 's"

record 's NonceManager =
  nm_store :: "'s nonceStore"
  nm_ttl :: duration

definition NewNonceManager :: "'s nonceStore \<Rightarrow> duration \<Rightarrow> 's NonceManager" where
  [simp]: "NewNonceManager store ttl = \<lparr>nm_store = store, nm_ttl = ttl\<rparr>"

text \<open>The UTF-8 bytes of the letter a with an acute accent.\<close>

definition aAcute :: string where
  "aAcute = [CHR 0xC3, CHR 0xA1]"

definition ValidateNonce ::
    "'s nonceStore \<Rightarrow> duration \<Rightarrow> instant \<Rightarrow> string \<Rightarrow> 's \<Rightarrow> error option \<times> 's" where
  "ValidateNonce store ttl now nonce s =
     (if nonce = [] then (Some (Err ''nonce ausente''), s)
      else case ns_Exists store now nonce s of
        (Inl e, s1) \<Rightarrow> (Some (Wrap ''erro ao verificar nonce'' e), s1)
      | (Inr True, s1) \<Rightarrow> (Some (Err (''nonce j'' @ aAcute @ '' utilizado (replay attack)'')), s1)
      | (Inr False, s1) \<Rightarrow> (case ns_Store store now nonce ttl s1 of
          (Some e, s2) \<Rightarrow> (Some (Wrap ''erro ao armazenar nonce'' e), s2)
        | (None, s2) \<Rightarrow> (None, s2)))"

text \<open>\<open>GenerateNonce\<close>, with the sixteen random bytes or the failure of the random source as argument.\<close>

fun hexDigits :: "int \<Rightarrow> string" where
  "hexDigits n = (if n < 16 then [hexChar n] else hexDigits (n div 16) @ [hexChar (n mod 16)])"

definition formatHex :: "int \<Rightarrow> string" where
  "formatHex n = (if n < 0 then CHR ''-'' # hexDigits (- n) else hexDigits n)"

definition GenerateNonce :: "instant \<Rightarrow> byte list option \<Rightarrow> string" where
  "GenerateNonce now rnd = (case rnd of
     Some bytes \<Rightarrow> hexEncodeToString bytes
   | None \<Rightarrow> FormatInt (wrap64 now) @ ''-'' @ formatHex (wrap64 now))"

section \<open>The store in memory\<close>

text \<open>
  \<open>im_pending\<close> lists the deletions started by \<open>Exists\<close> (\<open>go s.Delete\<close>) that have not run yet; \<open>runDelete\<close> is
  the run of one of them.
\<close>

record InMemoryNonceStore =
  im_store :: "string \<rightharpoonup> instant"
  im_pending :: "string list"

definition NewInMemoryNonceStore :: InMemoryNonceStore where
  "NewInMemoryNonceStore = \<lparr>im_store = Map.empty, im_pending = []\<rparr>"

definition im_Store ::
    "instant \<Rightarrow> string \<Rightarrow> duration \<Rightarrow> InMemoryNonceStore \<Rightarrow> error option \<times> InMemoryNonceStore" where
  "im_Store now nonce ttl s =
     (if im_store s nonce \<noteq> None then (Some (Err (''nonce j'' @ aAcute @ '' existe'')), s)
      else (None, s\<lparr>im_store := (im_store s)(nonce \<mapsto> time_Add now ttl)\<rparr>))"

definition im_Exists :: "instant \<Rightarrow> string \<Rightarrow> InMemoryNonceStore \<Rightarrow> bool result \<times> InMemoryNonceStore" where
  "im_Exists now nonce s = (case im_store s nonce of
     None \<Rightarrow> (Inr False, s)
   | Some expiration \<Rightarrow>
       if now > expiration then (Inr False, s\<lparr>im_pending := im_pending s @ [nonce]\<rparr>) else (Inr True, s))"

definition im_Delete :: "string \<Rightarrow> InMemoryNonceStore \<Rightarrow> error option \<times> InMemoryNonceStore" where
  "im_Delete nonce s = (None, s\<lparr>im_store := (im_store s)(nonce := None)\<rparr>)"

definition im_Cleanup :: "instant \<Rightarrow> InMemoryNonceStore \<Rightarrow> error option \<times> InMemoryNonceStore" where
  "im_Cleanup now s = (None, s\<lparr>im_store := map_drop (\<lambda>expiration. now > expiration) (im_store s)\<rparr>)"

definition runDelete :: "string \<Rightarrow> InMemoryNonceStore \<Rightarrow> InMemoryNonceStore" where
  "runDelete nonce s = snd (im_Delete nonce (s\<lparr>im_pending := remove1 nonce (im_pending s)\<rparr>))"

definition inMemoryNonces :: "InMemoryNonceStore nonceStore" where
  "inMemoryNonces = \<lparr>ns_Store = im_Store, ns_Exists = im_Exists, ns_Delete = im_Delete, ns_Cleanup = im_Cleanup\<rparr>"

section \<open>The store on Redis\<close>

text \<open>
  The commands of the Redis client the store uses, on the state \<open>'r\<close> of the server: \<open>SetNX\<close> with a
  lifetime, \<open>Exists\<close> (the number of keys found), \<open>Del\<close> and \<open>Ping\<close>; and \<open>Close\<close>, which ends the client.
\<close>

record 'r redisClient =
  SetNX :: "instant \<Rightarrow> string \<Rightarrow> string \<Rightarrow> duration \<Rightarrow> 'r \<Rightarrow> bool result \<times> 'r"
  redisExists :: "instant \<Rightarrow> string \<Rightarrow> 'r \<Rightarrow> int result \<times> 'r"
  redisDel :: "string \<Rightarrow> 'r \<Rightarrow> error option \<times> 'r"
  redisPing :: "'r \<Rightarrow> error option \<times> 'r"
  redisClose :: "'r \<Rightarrow> error option \<times> 'r"

text \<open>The options the store sets, beside those read from the URL (\<open>ro_server\<close>), and the two functions of the library.\<close>

record 'o redisOptions =
  ro_server :: 'o
  ro_PoolSize :: int
  ro_MinIdleConns :: int
  ro_MaxRetries :: int
  ro_DialTimeout :: duration
  ro_ReadTimeout :: duration
  ro_WriteTimeout :: duration
  ro_PoolTimeout :: duration

record ('o, 'r) redisLib =
  lib_ParseURL :: "string \<Rightarrow> 'o redisOptions result"
  lib_NewClient :: "'o redisOptions \<Rightarrow> 'r redisClient \<times> 'r"

text \<open>A client whose server does not answer the ping is closed, and its error dropped.\<close>

definition NewRedisNonceStore :: "('o, 'r) redisLib \<Rightarrow> string \<Rightarrow> ('r redisClient \<times> 'r) result" where
  "NewRedisNonceStore lib redisURL = (case lib_ParseURL lib redisURL of
     Inl e \<Rightarrow> Inl e
   | Inr opt \<Rightarrow> (let
       (client, s) = lib_NewClient lib (opt\<lparr>ro_PoolSize := 16, ro_MinIdleConns := 2, ro_MaxRetries := 2,
         ro_DialTimeout := 2 * second, ro_ReadTimeout := 700 * millisecond, ro_WriteTimeout := 700 * millisecond,
         ro_PoolTimeout := 800 * millisecond\<rparr>)
       in case redisPing client s of
         (Some e, _) \<Rightarrow> Inl e
       | (None, s1) \<Rightarrow> Inr (client, s1)))"

definition redisKey :: "string \<Rightarrow> string" where
  "redisKey nonce = ''signer:nonce:'' @ nonce"

text \<open>\<open>None\<close> is a store or a client that is nil.\<close>

definition redis_Store ::
    "'r redisClient option \<Rightarrow> instant \<Rightarrow> string \<Rightarrow> duration \<Rightarrow> 'r \<Rightarrow> error option \<times> 'r" where
  "redis_Store client now nonce ttl s = (case client of
     None \<Rightarrow> (Some (Err ''redis nonce store nao inicializado''), s)
   | Some c \<Rightarrow> (case SetNX c now (redisKey nonce) ''1'' ttl s of
       (Inl e, s1) \<Rightarrow> (Some e, s1)
     | (Inr ok, s1) \<Rightarrow> if \<not> ok then (Some (Err ''nonce ja existe''), s1) else (None, s1)))"

definition redis_Exists :: "'r redisClient option \<Rightarrow> instant \<Rightarrow> string \<Rightarrow> 'r \<Rightarrow> bool result \<times> 'r" where
  "redis_Exists client now nonce s = (case client of
     None \<Rightarrow> (Inl (Err ''redis nonce store nao inicializado''), s)
   | Some c \<Rightarrow> (case redisExists c now (redisKey nonce) s of
       (Inl e, s1) \<Rightarrow> (Inl e, s1)
     | (Inr val, s1) \<Rightarrow> (Inr (val > 0), s1)))"

definition redis_Delete :: "'r redisClient option \<Rightarrow> string \<Rightarrow> 'r \<Rightarrow> error option \<times> 'r" where
  "redis_Delete client nonce s = (case client of
     None \<Rightarrow> (None, s) | Some c \<Rightarrow> redisDel c (redisKey nonce) s)"

definition redis_Cleanup :: "instant \<Rightarrow> 'r \<Rightarrow> error option \<times> 'r" where
  "redis_Cleanup now s = (None, s)"

definition redis_Close :: "'r redisClient option \<Rightarrow> 'r \<Rightarrow> error option \<times> 'r" where
  "redis_Close client s = (case client of None \<Rightarrow> (None, s) | Some c \<Rightarrow> redisClose c s)"

definition redisNonces :: "'r redisClient option \<Rightarrow> 'r nonceStore" where
  "redisNonces client = \<lparr>ns_Store = redis_Store client, ns_Exists = redis_Exists client, ns_Delete = redis_Delete client,
     ns_Cleanup = redis_Cleanup\<rparr>"

section \<open>Concurrent requests on the store in memory\<close>

text \<open>
  The lock of the store covers one operation at a time, so another request or a started deletion
  can run between \<open>Exists\<close> and \<open>Store\<close> of a request. A request is idle, has found its nonce
  unused, or is finished; \<open>nq_accepted\<close> lists the nonces consumed so far, latest last.
\<close>

datatype noncePhase = NIdle | NChecked string | NDone

record nonceState =
  nq_mem :: InMemoryNonceStore
  nq_phase :: "nat \<Rightarrow> noncePhase"
  nq_accepted :: "(string \<times> instant) list"

inductive nonce_step :: "duration \<Rightarrow> instant \<Rightarrow> nonceState \<Rightarrow> nonceState \<Rightarrow> bool" for ttl now where
  seen: "nq_phase q i = NIdle \<Longrightarrow> im_Exists now n (nq_mem q) = (Inr True, s) \<Longrightarrow>
     nonce_step ttl now q (q\<lparr>nq_mem := s, nq_phase := (nq_phase q)(i := NDone)\<rparr>)"
| unseen: "nq_phase q i = NIdle \<Longrightarrow> n \<noteq> [] \<Longrightarrow> im_Exists now n (nq_mem q) = (Inr False, s) \<Longrightarrow>
     nonce_step ttl now q (q\<lparr>nq_mem := s, nq_phase := (nq_phase q)(i := NChecked n)\<rparr>)"
| consumed: "nq_phase q i = NChecked n \<Longrightarrow> im_Store now n ttl (nq_mem q) = (None, s) \<Longrightarrow>
     nonce_step ttl now q (q\<lparr>nq_mem := s, nq_phase := (nq_phase q)(i := NDone),
       nq_accepted := nq_accepted q @ [(n, now)]\<rparr>)"
| refused: "nq_phase q i = NChecked n \<Longrightarrow> im_Store now n ttl (nq_mem q) = (Some e, s) \<Longrightarrow>
     nonce_step ttl now q (q\<lparr>nq_mem := s, nq_phase := (nq_phase q)(i := NDone)\<rparr>)"
| deleted: "n \<in> set (im_pending (nq_mem q)) \<Longrightarrow>
     nonce_step ttl now q (q\<lparr>nq_mem := runDelete n (nq_mem q)\<rparr>)"

lemma nonce_step_eq: "nonce_step ttl now q q' \<Longrightarrow> q' = q'' \<Longrightarrow> nonce_step ttl now q q''"
  by simp

text \<open>A run whose steps all happen not later than \<open>bound\<close>.\<close>

definition nonce_run :: "duration \<Rightarrow> instant \<Rightarrow> nonceState \<Rightarrow> nonceState \<Rightarrow> bool" where
  "nonce_run ttl bound = (\<lambda>q q'. \<exists>now \<le> bound. nonce_step ttl now q q')\<^sup>*\<^sup>*"

definition accepts :: "string \<Rightarrow> nonceState \<Rightarrow> nat" where
  "accepts n q = length (filter (\<lambda>x. fst x = n) (nq_accepted q))"

text \<open>A nonce is guarded until \<open>e\<close> when it is stored with that expiry and no deletion of it is due.\<close>

definition guarded :: "string \<Rightarrow> instant \<Rightarrow> InMemoryNonceStore \<Rightarrow> bool" where
  "guarded n e s = (im_store s n = Some e \<and> n \<notin> set (im_pending s))"

lemmas im_defs = im_Store_def im_Exists_def im_Delete_def runDelete_def

lemma runDelete_guarded: "guarded n e s \<Longrightarrow> m \<in> set (im_pending s) \<Longrightarrow> guarded n e (runDelete m s)"
  by (auto simp: guarded_def im_defs notin_set_remove1)

lemma nonce_step_guarded:
  assumes "nonce_step ttl now q q'" and "guarded n e (nq_mem q)" and "now \<le> e"
  shows "guarded n e (nq_mem q') \<and> accepts n q' = accepts n q"
  using assms(1)
proof (cases rule: nonce_step.cases)
  case (deleted m)
  with assms show ?thesis by (auto simp: runDelete_guarded accepts_def)
qed (use assms(2,3) in \<open>auto simp: guarded_def im_defs accepts_def split: option.splits if_splits\<close>)

lemma nonce_run_guarded:
  assumes "nonce_run ttl bound q q'" and "guarded n e (nq_mem q)" and "bound \<le> e"
  shows "guarded n e (nq_mem q') \<and> accepts n q' = accepts n q"
  using assms(1) unfolding nonce_run_def
proof (induction rule: rtranclp_induct)
  case base
  show ?case using assms(2) by simp
next
  case (step q1 q2)
  then obtain now where "nonce_step ttl now q1 q2" "now \<le> bound" by blast
  with nonce_step_guarded [OF this(1), of n e] step.IH assms(3) show ?case by simp
qed

text \<open>A whole call of \<open>ValidateNonce\<close> refuses a guarded nonce up to its expiry, and keeps every guarded nonce guarded.\<close>

lemma ValidateNonce_guarded:
  assumes "ValidateNonce inMemoryNonces ttl now m s = (r, s')" and "guarded n e s" and "now \<le> e"
  shows "guarded n e s' \<and> (m = n \<longrightarrow> r \<noteq> None)"
  using assms by (auto simp: ValidateNonce_def inMemoryNonces_def guarded_def im_defs split: if_splits option.splits)

lemma ValidateNonce_guards:
  assumes "ValidateNonce inMemoryNonces ttl now n s = (None, s')" and "n \<notin> set (im_pending s)"
  shows "guarded n (now + ttl) s'"
  using assms
  by (auto simp: ValidateNonce_def inMemoryNonces_def guarded_def im_defs time_Add_def split: if_splits option.splits)

section \<open>The contract\<close>

definition validateAsAccept ::
    "'s nonceStore \<Rightarrow> instant \<Rightarrow> string \<Rightarrow> duration \<Rightarrow> 's \<Rightarrow> bool result \<times> 's" where
  "validateAsAccept store now nonce ttl s = (case ValidateNonce store ttl now nonce s of
     (None, s1) \<Rightarrow> (Inr True, s1) | (Some e, s1) \<Rightarrow> (Inl e, s1))"

lemma validateAsAccept_True:
  "fst (validateAsAccept store now n ttl s) = Inr True \<longleftrightarrow> fst (ValidateNonce store ttl now n s) = None"
  by (simp add: validateAsAccept_def split: prod.splits option.splits)

section \<open>Properties\<close>

text \<open>
  C24: However requests and deletions interleave, a nonce that is stored and has no deletion due
  is not consumed again up to its expiry: two requests that both found it unused cannot both
  store it.
\<close>

theorem nonce_consumed_once:
  assumes "nonce_run ttl bound q q'" and "im_store (nq_mem q) n = Some e"
    and "n \<notin> set (im_pending (nq_mem q))" and "bound \<le> e"
  shows "accepts n q' = accepts n q"
  using nonce_run_guarded [OF assms(1) _ assms(4), of n] assms(2,3) by (simp add: guarded_def)

definition raceStart :: "string \<Rightarrow> instant \<Rightarrow> nonceState" where
  "raceStart n e = \<lparr>nq_mem = \<lparr>im_store = [n \<mapsto> e], im_pending = []\<rparr>, nq_phase = (\<lambda>_. NIdle), nq_accepted = []\<rparr>"

definition checkedBefore :: nonceState where
  "checkedBefore = (raceStart ''n'' 10)\<lparr>nq_phase := (\<lambda>_. NIdle)(0 := NChecked ''n'')\<rparr>"

lemma demo_refused: "nonce_step 5 7 checkedBefore (checkedBefore\<lparr>nq_phase := (\<lambda>_. NIdle)(0 := NDone)\<rparr>)"
  using nonce_step.refused [of checkedBefore 0 "''n''" 7 5]
  by (simp add: checkedBefore_def raceStart_def im_Store_def)

theorem nonce_consumed_once_witness: "accepts ''n'' (checkedBefore\<lparr>nq_phase := (\<lambda>_. NIdle)(0 := NDone)\<rparr>) = accepts ''n'' checkedBefore"
  by (rule nonce_consumed_once [of 5 9 _ _ _ 10])
    (use demo_refused in \<open>auto simp: nonce_run_def checkedBefore_def raceStart_def intro!: r_into_rtranclp exI [of _ 7]\<close>)

text \<open>
  The deletions may run late, and then the promise breaks: when a nonce has just expired, two
  requests that both see the expired entry start two deletions; if one runs before and one after
  the first request stores the nonce anew, the second request stores it again at the same time.
\<close>

theorem late_deletion_admits_replay:
  assumes "n \<noteq> []"
  shows "\<exists>q. (nonce_step ttl (e + 1))\<^sup>*\<^sup>* (raceStart n e) q \<and> nq_accepted q = [(n, e + 1), (n, e + 1)]"
proof -
  let ?t = "e + 1"
  define st where "st m ps p0 p1 l = \<lparr>nq_mem = \<lparr>im_store = m, im_pending = ps\<rparr>,
    nq_phase = (\<lambda>i :: nat. if i = 0 then p0 else if i = 1 then p1 else NIdle), nq_accepted = l\<rparr>" for m ps p0 p1 l
  let ?new = "[n \<mapsto> ?t + ttl]" and ?C = "NChecked n"
  note upd = st_def fun_eq_iff
  have "raceStart n e = st [n \<mapsto> e] [] NIdle NIdle []" by (simp add: raceStart_def upd)
  also have "nonce_step ttl ?t \<dots> (st [n \<mapsto> e] [n] ?C NIdle [])"
    by (rule nonce_step_eq [OF nonce_step.unseen [where i = 0 and n = n]]) (use assms in \<open>auto simp: upd im_Exists_def\<close>)
  finally have 1: "nonce_step ttl ?t (raceStart n e) (st [n \<mapsto> e] [n] ?C NIdle [])" .
  have 2: "nonce_step ttl ?t (st [n \<mapsto> e] [n] ?C NIdle []) (st [n \<mapsto> e] [n, n] ?C ?C [])"
    by (rule nonce_step_eq [OF nonce_step.unseen [where i = 1 and n = n]]) (use assms in \<open>auto simp: upd im_Exists_def\<close>)
  have 3: "nonce_step ttl ?t (st [n \<mapsto> e] [n, n] ?C ?C []) (st Map.empty [n] ?C ?C [])"
    by (rule nonce_step_eq [OF nonce_step.deleted [where n = n]]) (auto simp: upd im_defs)
  have 4: "nonce_step ttl ?t (st Map.empty [n] ?C ?C []) (st ?new [n] NDone ?C [(n, ?t)])"
    by (rule nonce_step_eq [OF nonce_step.consumed [where i = 0 and n = n]]) (auto simp: upd im_Store_def time_Add_def)
  have 5: "nonce_step ttl ?t (st ?new [n] NDone ?C [(n, ?t)]) (st Map.empty [] NDone ?C [(n, ?t)])"
    by (rule nonce_step_eq [OF nonce_step.deleted [where n = n]]) (auto simp: upd im_defs)
  have 6: "nonce_step ttl ?t (st Map.empty [] NDone ?C [(n, ?t)]) (st ?new [] NDone NDone [(n, ?t), (n, ?t)])"
    by (rule nonce_step_eq [OF nonce_step.consumed [where i = 1 and n = n]]) (auto simp: upd im_Store_def time_Add_def)
  from 1 2 3 4 5 6 have "(nonce_step ttl ?t)\<^sup>*\<^sup>* (raceStart n e) (st ?new [] NDone NDone [(n, ?t), (n, ?t)])"
    by (meson converse_rtranclp_into_rtranclp rtranclp.rtrancl_refl)
  then show ?thesis by (intro exI [of _ "st ?new [] NDone NDone [(n, ?t), (n, ?t)]"]) (simp add: st_def)
qed

theorem late_deletion_admits_replay_witness:
  "\<exists>q. (nonce_step 300 (100 + 1))\<^sup>*\<^sup>* (raceStart ''n'' 100) q \<and> nq_accepted q = [(''n'', 100 + 1), (''n'', 100 + 1)]"
  by (rule late_deletion_admits_replay) simp

text \<open>
  What the store relies on of the Redis server, as its documentation states it for lifetimes of whole
  milliseconds: \<open>SET NX\<close> with a lifetime creates the key only when it is absent or has expired, the key
  then lives for that long, and neither \<open>SET NX\<close> (answered or not) nor \<open>EXISTS\<close> touches a key that is alive.
  \<open>expiry\<close> reads the expiry of a key off the server's state.
\<close>

definition aliveKey :: "('r \<Rightarrow> string \<rightharpoonup> instant) \<Rightarrow> instant \<Rightarrow> string \<Rightarrow> instant \<Rightarrow> 'r \<Rightarrow> bool" where
  "aliveKey expiry now k e s \<longleftrightarrow> expiry s k = Some e \<and> now \<le> e"

definition redisLaws :: "'r redisClient \<Rightarrow> ('r \<Rightarrow> string \<rightharpoonup> instant) \<Rightarrow> bool" where
  "redisLaws c expiry \<longleftrightarrow>
     (\<forall>now k v d s s'. 0 < d \<longrightarrow> millisecond dvd d \<longrightarrow> SetNX c now k v d s = (Inr True, s') \<longrightarrow>
        (\<forall>e. \<not> aliveKey expiry now k e s) \<and> expiry s' k = Some (now + d)) \<and>
     (\<forall>now k v d s r s' k' e. SetNX c now k v d s = (r, s') \<longrightarrow> aliveKey expiry now k' e s \<longrightarrow> expiry s' k' = Some e) \<and>
     (\<forall>now k s r s' k' e. redisExists c now k s = (r, s') \<longrightarrow> aliveKey expiry now k' e s \<longrightarrow> expiry s' k' = Some e)"

lemma SetNX_created:
  assumes "redisLaws c expiry" and "0 < d" and "millisecond dvd d" and "SetNX c now k v d s = (Inr True, s')"
  shows "(\<forall>e. \<not> aliveKey expiry now k e s) \<and> expiry s' k = Some (now + d)"
  using assms(1) [unfolded redisLaws_def, THEN conjunct1, rule_format, OF assms(2-4)] .

lemma SetNX_keeps:
  "redisLaws c expiry \<Longrightarrow> SetNX c now k v d s = (r, s') \<Longrightarrow> aliveKey expiry now k' e s \<Longrightarrow> aliveKey expiry now k' e s'"
  unfolding redisLaws_def aliveKey_def by blast

lemma redisExists_keeps:
  "redisLaws c expiry \<Longrightarrow> redisExists c now k s = (r, s') \<Longrightarrow> aliveKey expiry now k' e s \<Longrightarrow> aliveKey expiry now k' e s'"
  unfolding redisLaws_def aliveKey_def by blast

lemma ValidateNonce_redis:
  assumes "ValidateNonce (redisNonces (Some c)) ttl now n s = (r, s')"
  obtains (absent) "n = []" "r \<noteq> None" "s' = s"
    | (looked) x where "redisExists c now (redisKey n) s = (x, s')" "r \<noteq> None"
    | (stored) x s1 y where "redisExists c now (redisKey n) s = (x, s1)"
        "SetNX c now (redisKey n) ''1'' ttl s1 = (y, s')" "r = None \<longleftrightarrow> y = Inr True"
proof -
  obtain x s1 where x: "redisExists c now (redisKey n) s = (x, s1)" by fastforce
  obtain y s2 where y: "SetNX c now (redisKey n) ''1'' ttl s1 = (y, s2)" by fastforce
  show thesis
  proof (cases "n = []")
    case True
    with assms absent show thesis by (auto simp: ValidateNonce_def)
  next
    case False
    then show thesis
    proof (cases "\<exists>val. x = Inr val \<and> val \<le> 0")
      case True
      with False assms x y have "s' = s2 \<and> (r = None \<longleftrightarrow> y = Inr True)"
        by (auto simp: ValidateNonce_def redisNonces_def redis_Exists_def redis_Store_def split: sum.splits if_splits)
      with x y stored show thesis by blast
    next
      case found: False
      with False assms x have "s' = s1 \<and> r \<noteq> None"
        by (auto simp: ValidateNonce_def redisNonces_def redis_Exists_def split: sum.splits bool.splits)
      with x looked show thesis by blast
    qed
  qed
qed

text \<open>The manager on such a server, with the lifetime it was configured with, is a nonce acceptor.\<close>

lemma redis_acceptor:
  assumes "redisLaws c expiry" and "0 < ttl" and "millisecond dvd ttl"
  shows "nonce_acceptor (\<lambda>now n d. validateAsAccept (redisNonces (Some c)) now n ttl)
    (\<lambda>s n. expiry s (redisKey n)) (\<lambda>d. ttl)"
proof -
  note laws = SetNX_keeps [OF assms(1)] redisExists_keeps [OF assms(1)]
  have keeps: "aliveKey expiry now k e s'"
    if "aliveKey expiry now k e s" "ValidateNonce (redisNonces (Some c)) ttl now n s = (r, s')" for now k e s n r s'
    using that(2) by (cases rule: ValidateNonce_redis) (use that(1) laws in blast)+
  have fresh: "(\<forall>e. \<not> aliveKey expiry now (redisKey n) e s) \<and> expiry s' (redisKey n) = Some (now + ttl)"
    if "ValidateNonce (redisNonces (Some c)) ttl now n s = (None, s')" for now n s s'
    using that
  proof (cases rule: ValidateNonce_redis)
    case (stored x s1 y)
    then have "SetNX c now (redisKey n) ''1'' ttl s1 = (Inr True, s')" by simp
    note new = SetNX_created [OF assms this]
    show ?thesis using new laws(2) [OF stored(1)] by blast
  qed simp_all
  show ?thesis
  proof (unfold_locales, goal_cases)
    case (1 now n d s s')
    then show ?case using fresh by (auto simp: validateAsAccept_def split: prod.splits option.splits)
  next
    case (2 s n e now d r s')
    then show ?case using fresh by (auto simp: validateAsAccept_def aliveKey_def split: prod.splits option.splits)
  next
    case (3 s n e now m d r s')
    then show ?case using keeps [of now "redisKey n" e s m]
      by (auto simp: validateAsAccept_def aliveKey_def split: prod.splits option.splits)
  qed
qed

text \<open>
  C38: On a Redis server that keeps its documented promises, \<open>ValidateNonce\<close> with the manager's lifetime never
  accepts a nonce twice within that lifetime, whatever other requests are validated in between and whichever of
  their commands fail.
\<close>

theorem redis_nonce_accepted_once:
  assumes "redisLaws c expiry" and "0 < ttl" and "millisecond dvd ttl"
    and "ValidateNonce (redisNonces (Some c)) ttl t n s = (None, s1)"
    and "\<forall>(now, m, d) \<in> set calls. now \<le> t + ttl" and "t2 \<le> t + ttl"
  shows "fst (ValidateNonce (redisNonces (Some c)) ttl t2 n
    (accept_all (\<lambda>now m d. validateAsAccept (redisNonces (Some c)) now m ttl) calls s1)) \<noteq> None"
proof -
  from assms(4) have "validateAsAccept (redisNonces (Some c)) t n ttl s = (Inr True, s1)"
    by (simp add: validateAsAccept_def)
  from nonce_acceptor.no_replay [OF redis_acceptor [OF assms(1-3)] this assms(5,6)] show ?thesis
    by (simp add: validateAsAccept_True)
qed

definition demoRedis :: "(string \<rightharpoonup> instant) redisClient" where
  "demoRedis = \<lparr>SetNX = (\<lambda>now k v d m. if (case m k of None \<Rightarrow> True | Some e \<Rightarrow> e < now)
       then (Inr True, m(k \<mapsto> now + d)) else (Inr False, m)),
     redisExists = (\<lambda>now k m. (Inr (case m k of None \<Rightarrow> 0 | Some e \<Rightarrow> if e < now then 0 else 1), m)),
     redisDel = (\<lambda>k m. (None, m(k := None))), redisPing = (\<lambda>m. (None, m)), redisClose = (\<lambda>m. (None, m))\<rparr>"

lemma demoRedis_laws: "redisLaws demoRedis (\<lambda>m. m)"
  by (auto simp: redisLaws_def demoRedis_def aliveKey_def split: if_splits option.splits)

lemma demoRedis_accepts: "ValidateNonce (redisNonces (Some demoRedis)) 60000000000 0 ''n'' Map.empty =
    (None, [redisKey ''n'' \<mapsto> 60000000000])"
  by (simp add: ValidateNonce_def redisNonces_def redis_Exists_def redis_Store_def demoRedis_def)

theorem redis_nonce_accepted_once_witness:
  "fst (ValidateNonce (redisNonces (Some demoRedis)) 60000000000 50000000000 ''n''
    (accept_all (\<lambda>now m d. validateAsAccept (redisNonces (Some demoRedis)) now m 60000000000) [(5, ''m'', 0)]
      [redisKey ''n'' \<mapsto> 60000000000])) \<noteq> None"
  by (rule redis_nonce_accepted_once [OF demoRedis_laws _ _ demoRedis_accepts]) (simp_all add: millisecond_def)

end
