(* ===== verification/Rate_Limit.thy ===== *)
theory Rate_Limit
  imports Go_Float64
begin

text \<open>
  Model of \<open>src/internal/security/ratelimit.go\<close>: the token bucket, the sliding window and the factory
  that picks one. A mutex makes every method atomic. \<open>now\<close> is \<open>time.Now()\<close>; where a method reads
  the clock twice (a new bucket), one reading stands for both.
\<close>

section \<open>Token bucket\<close>

record tokenBucket =
  tb_tokens :: f64
  tb_lastRefill :: instant

record TokenBucket =
  tb_buckets :: "string \<rightharpoonup> tokenBucket"
  tb_rate :: f64
  tb_burst :: int

definition NewTokenBucket :: "f64 \<Rightarrow> int \<Rightarrow> TokenBucket" where
  "NewTokenBucket rate burst = \<lparr>tb_buckets = Map.empty, tb_rate = rate, tb_burst = burst\<rparr>"

definition minF :: "f64 \<Rightarrow> f64 \<Rightarrow> f64" where
  "minF a b = (if a < b then a else b)"

definition refill :: "instant \<Rightarrow> int \<Rightarrow> f64 \<Rightarrow> tokenBucket \<Rightarrow> f64" where
  "refill now limit rate bucket =
     minF (f64OfInt limit) (tb_tokens bucket + durationSeconds (time_Sub now (tb_lastRefill bucket)) * rate)"

definition tb_AllowWithLimit :: "instant \<Rightarrow> string \<Rightarrow> int \<Rightarrow> duration \<Rightarrow> TokenBucket \<Rightarrow> bool \<times> TokenBucket" where
  "tb_AllowWithLimit now key limit window tb = (let
     bucket = (case tb_buckets tb key of Some b \<Rightarrow> b
       | None \<Rightarrow> \<lparr>tb_tokens = f64OfInt limit, tb_lastRefill = now\<rparr>);
     tokens = refill now limit (tb_rate tb) bucket;
     allowed = (Fin 1 \<le> tokens)
     in (allowed, tb\<lparr>tb_buckets := (tb_buckets tb)(key \<mapsto>
          \<lparr>tb_tokens = (if allowed then tokens - Fin 1 else tokens), tb_lastRefill = now\<rparr>)\<rparr>))"

definition tb_Allow :: "instant \<Rightarrow> string \<Rightarrow> TokenBucket \<Rightarrow> bool \<times> TokenBucket" where
  "tb_Allow now key tb = tb_AllowWithLimit now key (tb_burst tb) second tb"

definition tb_Reset :: "string \<Rightarrow> TokenBucket \<Rightarrow> TokenBucket" where
  "tb_Reset key tb = tb\<lparr>tb_buckets := (tb_buckets tb)(key := None)\<rparr>"

section \<open>Sliding window\<close>

record SlidingWindow =
  sw_windows :: "string \<rightharpoonup> instant list"
  sw_limit :: int
  sw_window :: duration

definition NewSlidingWindow :: "int \<Rightarrow> duration \<Rightarrow> SlidingWindow" where
  "NewSlidingWindow limit window = \<lparr>sw_windows = Map.empty, sw_limit = limit, sw_window = window\<rparr>"

definition sw_AllowWithLimit :: "instant \<Rightarrow> string \<Rightarrow> int \<Rightarrow> duration \<Rightarrow> SlidingWindow \<Rightarrow> bool \<times> SlidingWindow" where
  "sw_AllowWithLimit now key limit window sw = (let cutoff = time_Add now (wrap64 (- window)) in
     case sw_windows sw key of
       None \<Rightarrow> (True, sw\<lparr>sw_windows := (sw_windows sw)(key \<mapsto> [now])\<rparr>)
     | Some requests \<Rightarrow> (let valid = filter (\<lambda>t. t > cutoff) requests in
         if int (length valid) \<ge> limit then (False, sw\<lparr>sw_windows := (sw_windows sw)(key \<mapsto> valid)\<rparr>)
         else (True, sw\<lparr>sw_windows := (sw_windows sw)(key \<mapsto> valid @ [now])\<rparr>)))"

definition sw_Allow :: "instant \<Rightarrow> string \<Rightarrow> SlidingWindow \<Rightarrow> bool \<times> SlidingWindow" where
  "sw_Allow now key sw = sw_AllowWithLimit now key (sw_limit sw) (sw_window sw) sw"

definition sw_Reset :: "string \<Rightarrow> SlidingWindow \<Rightarrow> SlidingWindow" where
  "sw_Reset key sw = sw\<lparr>sw_windows := (sw_windows sw)(key := None)\<rparr>"

section \<open>The interface and the factory\<close>

datatype rateLimiter = TokenBucketLimiter TokenBucket | SlidingWindowLimiter SlidingWindow

definition TokenBucketType :: string where
  [simp]: "TokenBucketType = ''token_bucket''"

definition SlidingWindowType :: string where
  [simp]: "SlidingWindowType = ''sliding_window''"

definition NewRateLimiter :: "string \<Rightarrow> int \<Rightarrow> duration \<Rightarrow> rateLimiter" where
  "NewRateLimiter limiterType limit window =
     (if limiterType = TokenBucketType
      then TokenBucketLimiter (NewTokenBucket (f64OfInt limit / durationSeconds window) limit)
      else if limiterType = SlidingWindowType then SlidingWindowLimiter (NewSlidingWindow limit window)
      else TokenBucketLimiter (NewTokenBucket (f64OfInt limit / durationSeconds window) limit))"

definition limiter_Allow :: "instant \<Rightarrow> string \<Rightarrow> rateLimiter \<Rightarrow> bool \<times> rateLimiter" where
  "limiter_Allow now key l = (case l of
     TokenBucketLimiter tb \<Rightarrow> (let (ok, tb') = tb_Allow now key tb in (ok, TokenBucketLimiter tb'))
   | SlidingWindowLimiter sw \<Rightarrow> (let (ok, sw') = sw_Allow now key sw in (ok, SlidingWindowLimiter sw')))"

definition limiter_Reset :: "string \<Rightarrow> rateLimiter \<Rightarrow> rateLimiter" where
  "limiter_Reset key l = (case l of
     TokenBucketLimiter tb \<Rightarrow> TokenBucketLimiter (tb_Reset key tb)
   | SlidingWindowLimiter sw \<Rightarrow> SlidingWindowLimiter (sw_Reset key sw))"

text \<open>\<open>Metrics\<close>: the number of keys with an entry and the clock; the counters of requests stay zero.\<close>

record RateLimitMetrics =
  rm_TotalRequests :: int
  rm_Allowed :: int
  rm_Rejected :: int
  rm_CurrentActive :: int
  rm_LastReset :: instant

definition tb_Metrics :: "instant \<Rightarrow> TokenBucket \<Rightarrow> RateLimitMetrics" where
  "tb_Metrics now tb = \<lparr>rm_TotalRequests = 0, rm_Allowed = 0, rm_Rejected = 0,
     rm_CurrentActive = int (card (dom (tb_buckets tb))), rm_LastReset = now\<rparr>"

definition sw_Metrics :: "instant \<Rightarrow> SlidingWindow \<Rightarrow> RateLimitMetrics" where
  "sw_Metrics now sw = \<lparr>rm_TotalRequests = 0, rm_Allowed = 0, rm_Rejected = 0,
     rm_CurrentActive = int (card (dom (sw_windows sw))), rm_LastReset = now\<rparr>"

definition limiter_Metrics :: "instant \<Rightarrow> rateLimiter \<Rightarrow> RateLimitMetrics" where
  "limiter_Metrics now l = (case l of
     TokenBucketLimiter tb \<Rightarrow> tb_Metrics now tb | SlidingWindowLimiter sw \<Rightarrow> sw_Metrics now sw)"

section \<open>Lemmas on the token bucket\<close>

lemma f64_betweenE:
  assumes "Fin 0 \<le> a" and "a \<le> Fin c"
  obtains x where "a = Fin x" "0 \<le> x" "x \<le> c"
  using assms by (cases a) (auto simp: less_eq_f64_def)

lemma f64_le_simps [simp]:
  "Fin x \<le> Fin y \<longleftrightarrow> x \<le> y" "Fin x \<le> PosInf" "\<not> Fin x \<le> NaN" "\<not> Fin x \<le> NegInf"
  by (auto simp: less_eq_f64_def)

lemma f64_plus_nonneg: "Fin 0 \<le> a \<Longrightarrow> Fin 0 \<le> b \<Longrightarrow> Fin 0 \<le> a + b"
  by (cases a; cases b) (simp_all add: f64Round_nonneg)

lemma f64Round_between: "0 \<le> x \<Longrightarrow> x \<le> of_int c \<Longrightarrow> \<bar>c\<bar> \<le> 2 ^ 53 \<Longrightarrow> Fin 0 \<le> f64Round x \<and> f64Round x \<le> Fin (of_int c)"
  using f64Round_nonneg [of x] f64Round_mono [of x "of_int c"] f64OfInt_exact [of c] by (simp add: f64OfInt_def)

lemma durationSeconds_nonneg:
  assumes "0 \<le> d" and "int64 d"
  obtains x where "durationSeconds d = Fin x" "0 \<le> x"
proof -
  have q: "go_quot d second = d div second" "go_rem d second = d mod second"
    using assms(1) by (auto simp: go_quot_def go_rem_def second_def sgn_if minus_mult_div_eq_mod)
  have "d div second \<le> 9223372036" "0 \<le> d div second"
    using assms zdiv_mono1 [of d 9223372036854775807 second] by (auto simp: int64_def second_def)
  then have a: "f64OfInt (d div second) = Fin (of_int (d div second))" by (intro f64OfInt_exact) simp
  have r: "0 \<le> d mod second" "d mod second < 1000000000" by (simp_all add: second_def)
  then have b: "f64OfInt (d mod second) = Fin (of_int (d mod second))" "f64OfInt 1000000000 = Fin 1000000000"
    using f64OfInt_exact [of "d mod second"] f64OfInt_exact [of 1000000000] by simp_all
  have "Fin 0 \<le> f64Round (of_int (d mod second) / 1000000000) \<and>
      f64Round (of_int (d mod second) / 1000000000) \<le> Fin (of_int 1)"
    using r by (intro f64Round_between) (simp_all add: divide_le_eq)
  then obtain y where y: "f64Round (of_int (d mod second) / 1000000000) = Fin y" "0 \<le> y" "y \<le> 1"
    by (auto elim: f64_betweenE)
  have "Fin 0 \<le> f64Round (of_int (d div second) + y) \<and> f64Round (of_int (d div second) + y) \<le> Fin (of_int 9223372037)"
    using y \<open>d div second \<le> 9223372036\<close> \<open>0 \<le> d div second\<close> by (intro f64Round_between) simp_all
  then obtain x where "f64Round (of_int (d div second) + y) = Fin x" "0 \<le> x" by (auto elim: f64_betweenE)
  then show thesis using that by (simp add: durationSeconds_def q a b y)
qed

text \<open>A bucket holds a finite number of tokens between zero and the limit.\<close>

definition bucket_ok :: "int \<Rightarrow> tokenBucket \<Rightarrow> bool" where
  "bucket_ok limit b = (Fin 0 \<le> tb_tokens b \<and> tb_tokens b \<le> Fin (of_int limit))"

lemma refill_between:
  assumes "0 \<le> limit" and "limit \<le> 2 ^ 53" and "rate = Fin r" and "0 \<le> r"
    and "bucket_ok limit b" and "tb_lastRefill b \<le> now"
  shows "Fin 0 \<le> refill now limit rate b \<and> refill now limit rate b \<le> Fin (of_int limit)"
proof -
  have l: "f64OfInt limit = Fin (of_int limit)" using assms(1,2) by (intro f64OfInt_exact) simp
  have "0 \<le> time_Sub now (tb_lastRefill b)" using assms(6) by (simp add: time_Sub_def clamp64_def)
  then obtain x where x: "durationSeconds (time_Sub now (tb_lastRefill b)) = Fin x" "0 \<le> x"
    using clamp64_int64 by (auto simp: time_Sub_def elim: durationSeconds_nonneg)
  have "Fin 0 \<le> Fin x * rate" using x(2) assms(3,4) by (simp add: f64Round_nonneg)
  with assms(5) have "Fin 0 \<le> tb_tokens b + Fin x * rate" by (intro f64_plus_nonneg) (simp_all add: bucket_ok_def)
  then show ?thesis
    using assms(1) unfolding refill_def l x(1) minF_def
    by (cases "tb_tokens b + Fin x * rate") (auto simp: less_eq_f64_def)
qed

lemma take_token_between:
  assumes "0 \<le> limit" and "limit \<le> 2 ^ 53" and "Fin 1 \<le> t" and "t \<le> Fin (of_int limit)"
  shows "Fin 0 \<le> t - Fin 1 \<and> t - Fin 1 \<le> Fin (of_int limit)"
proof -
  from assms(3,4) obtain x where x: "t = Fin x" "1 \<le> x" "x \<le> of_int limit"
    by (cases t) (auto simp: less_eq_f64_def)
  have "t - Fin 1 = f64Round (x - 1)" by (simp add: x(1) minus_f64_def)
  then show ?thesis using x assms(1,2) f64Round_between [of "x - 1" limit] by simp
qed

lemma tb_Allow_bucket:
  assumes "0 \<le> tb_burst tb" and "tb_burst tb \<le> 2 ^ 53" and "tb_rate tb = Fin r" and "0 \<le> r"
    and "\<And>b. tb_buckets tb key = Some b \<Longrightarrow> bucket_ok (tb_burst tb) b \<and> tb_lastRefill b \<le> now"
    and "tb_Allow now key tb = (ok, tb')"
  shows "\<exists>b. tb_buckets tb' = (tb_buckets tb)(key \<mapsto> b) \<and> bucket_ok (tb_burst tb) b \<and> tb_lastRefill b = now"
proof -
  define b where "b = (case tb_buckets tb key of Some b \<Rightarrow> b
    | None \<Rightarrow> \<lparr>tb_tokens = f64OfInt (tb_burst tb), tb_lastRefill = now\<rparr>)"
  have "f64OfInt (tb_burst tb) = Fin (of_int (tb_burst tb))" using assms(1,2) by (intro f64OfInt_exact) simp
  then have b: "bucket_ok (tb_burst tb) b" "tb_lastRefill b \<le> now"
    using assms(1,5) by (auto simp: b_def bucket_ok_def split: option.splits)
  let ?t = "refill now (tb_burst tb) (tb_rate tb) b"
  have t: "Fin 0 \<le> ?t \<and> ?t \<le> Fin (of_int (tb_burst tb))" by (rule refill_between [OF assms(1-4) b])
  moreover have "Fin 0 \<le> ?t - Fin 1 \<and> ?t - Fin 1 \<le> Fin (of_int (tb_burst tb))" if "Fin 1 \<le> ?t"
    using take_token_between [OF assms(1,2) that] t by simp
  moreover have "tb_buckets tb' = (tb_buckets tb)(key \<mapsto> \<lparr>tb_tokens = (if Fin 1 \<le> ?t then ?t - Fin 1 else ?t), tb_lastRefill = now\<rparr>)"
    using assms(6) by (auto simp: tb_Allow_def tb_AllowWithLimit_def Let_def b_def [symmetric])
  ultimately show ?thesis by (auto simp: bucket_ok_def)
qed

text \<open>A bucket read at the instant of its last refill: nothing is added.\<close>

lemma durationSeconds_0: "durationSeconds 0 = Fin 0"
  by code_simp

lemma refill_same_instant:
  assumes "0 \<le> k" and "k \<le> limit" and "limit \<le> 2 ^ 53" and "rate = Fin r"
  shows "refill now limit rate \<lparr>tb_tokens = Fin (of_int k), tb_lastRefill = now\<rparr> = Fin (of_int k)"
proof -
  have "f64OfInt limit = Fin (of_int limit)" "f64Round (of_int k) = Fin (of_int k)"
    using assms f64OfInt_exact [of limit] f64OfInt_exact [of k] by (simp_all add: f64OfInt_def)
  then show ?thesis
    using assms by (simp add: refill_def time_Sub_def clamp64_def durationSeconds_0 minF_def)
qed

section \<open>Calls in sequence\<close>

text \<open>The answers to a list of calls on one key, at given times, and the limiter after them.\<close>

fun tb_calls :: "instant list \<Rightarrow> string \<Rightarrow> TokenBucket \<Rightarrow> bool list" where
  "tb_calls [] key tb = []"
| "tb_calls (now # ts) key tb = (let (ok, tb') = tb_Allow now key tb in ok # tb_calls ts key tb')"

lemma tb_Allow_drain:
  assumes "tb_rate tb = Fin r" and "tb_burst tb \<le> 2 ^ 53" and "0 \<le> k" and "k \<le> tb_burst tb"
    and "tb_buckets tb key = Some \<lparr>tb_tokens = Fin (of_int k), tb_lastRefill = now\<rparr>"
  shows "tb_Allow now key tb = (k > 0, tb\<lparr>tb_buckets := (tb_buckets tb)(key \<mapsto>
      \<lparr>tb_tokens = Fin (of_int (if k > 0 then k - 1 else k)), tb_lastRefill = now\<rparr>)\<rparr>)"
proof -
  have "f64Round (of_int (k - 1)) = Fin (of_int (k - 1))"
    using f64OfInt_exact [of "k - 1"] assms(2-4) by (simp add: f64OfInt_def)
  then have "Fin (of_int k) - Fin 1 = Fin (of_int (k - 1))" by (simp add: minus_f64_def)
  moreover have "(1 :: rat) \<le> of_int k \<longleftrightarrow> 0 < k" by (simp add: int_one_le_iff_zero_less)
  ultimately show ?thesis
    using refill_same_instant [OF assms(3,4,2,1), of now]
    by (simp add: tb_Allow_def tb_AllowWithLimit_def assms(5))
qed

lemma tb_calls_drain:
  assumes "tb_rate tb = Fin r" and "tb_burst tb \<le> 2 ^ 53" and "0 \<le> k" and "k \<le> tb_burst tb"
    and "tb_buckets tb key = Some \<lparr>tb_tokens = Fin (of_int k), tb_lastRefill = now\<rparr>"
  shows "tb_calls (replicate m now) key tb = map (\<lambda>i. int i < k) [0..<m]"
  using assms
proof (induction m arbitrary: tb k)
  case 0
  then show ?case by simp
next
  case (Suc m)
  let ?k = "if k > 0 then k - 1 else k"
  let ?tb = "tb\<lparr>tb_buckets := (tb_buckets tb)(key \<mapsto> \<lparr>tb_tokens = Fin (of_int ?k), tb_lastRefill = now\<rparr>)\<rparr>"
  have "tb_calls (replicate m now) key ?tb = map (\<lambda>i. int i < ?k) [0..<m]"
    using Suc.prems by (intro Suc.IH) simp_all
  moreover have "map (\<lambda>i. int i < k) [0..<Suc m] = (k > 0) # map (\<lambda>i. int i < ?k) [0..<m]"
    by (simp add: map_upt_Suc del: upt_Suc) auto
  ultimately show ?case using tb_Allow_drain [OF Suc.prems] by simp
qed

fun sw_calls :: "(instant \<times> string) list \<Rightarrow> SlidingWindow \<Rightarrow> (instant \<times> string) list \<times> SlidingWindow" where
  "sw_calls [] sw = ([], sw)"
| "sw_calls ((now, key) # cs) sw = (let (ok, sw1) = sw_Allow now key sw; (acc, sw2) = sw_calls cs sw1
     in (if ok then (now, key) # acc else acc, sw2))"

section \<open>Lemmas on the sliding window\<close>

text \<open>How many of the accepted times \<open>A\<close> fall into the window of length \<open>w\<close> that ends at \<open>T\<close>.\<close>

definition inWindow :: "duration \<Rightarrow> instant \<Rightarrow> instant list \<Rightarrow> nat" where
  "inWindow w T A = length (filter (\<lambda>t. T - w < t \<and> t \<le> T) A)"

text \<open>
  The invariant for one key: what the limiter stores is the part of the accepted times \<open>A\<close> after
  some instant that has left the window, and no window holds more than the bound. \<open>L\<close> is the
  time of the last call.
\<close>

definition sw_inv :: "string \<Rightarrow> instant list \<Rightarrow> instant \<Rightarrow> SlidingWindow \<Rightarrow> bool" where
  "sw_inv k A L sw = ((\<forall>t \<in> set A. t \<le> L) \<and>
     (\<forall>T. int (inWindow (sw_window sw) T A) \<le> max 1 (sw_limit sw)) \<and>
     (case sw_windows sw k of None \<Rightarrow> A = []
      | Some W \<Rightarrow> int (length W) \<le> max 1 (sw_limit sw) \<and>
          (\<exists>c. c \<le> L - sw_window sw \<and> W = filter (\<lambda>t. c < t) A)))"

lemma inWindow_snoc:
  "inWindow w T (A @ [t]) = inWindow w T A + (if T - w < t \<and> t \<le> T then 1 else 0)"
  by (simp add: inWindow_def)

lemma inWindow_after:
  assumes "c \<le> T - w"
  shows "inWindow w T A \<le> length (filter (\<lambda>t. c < t) A)"
proof -
  have "filter (\<lambda>t. T - w < t \<and> t \<le> T) A = filter (\<lambda>t. T - w < t \<and> t \<le> T) (filter (\<lambda>t. c < t) A)"
    using assms by (auto simp: filter_filter intro: filter_cong)
  then show ?thesis unfolding inWindow_def by (metis length_filter_le)
qed

lemma sw_inv_later:
  assumes "sw_inv k A L sw" and "L \<le> L'"
  shows "sw_inv k A L' sw"
proof -
  have "\<exists>c. c \<le> L' - sw_window sw \<and> W = filter (\<lambda>t. c < t) A"
    if "c \<le> L - sw_window sw" "W = filter (\<lambda>t. c < t) A" for c W
    using that assms(2) by (intro exI [of _ c]) simp
  with assms show ?thesis by (auto simp: sw_inv_def split: option.splits)
qed

lemma sw_inv_accept:
  assumes "sw_inv k A L sw" and "L \<le> now" and "0 < sw_window sw"
    and "W = filter (\<lambda>t. now - sw_window sw < t) A" and "int (length W) < max 1 (sw_limit sw)"
  shows "sw_inv k (A @ [now]) now (sw\<lparr>sw_windows := (sw_windows sw)(k \<mapsto> W @ [now])\<rparr>)"
proof -
  have "int (inWindow (sw_window sw) T (A @ [now])) \<le> max 1 (sw_limit sw)" for T
  proof (cases "now \<le> T")
    case True
    then have "inWindow (sw_window sw) T (A @ [now]) \<le> length (filter (\<lambda>t. now - sw_window sw < t) (A @ [now]))"
      by (intro inWindow_after) simp
    with assms(3-5) show ?thesis by simp
  next
    case False
    with assms(1) show ?thesis by (simp add: inWindow_snoc sw_inv_def)
  qed
  moreover have "\<exists>c. c \<le> now - sw_window sw \<and> W @ [now] = filter (\<lambda>t. c < t) (A @ [now])"
    using assms(3,4) by (intro exI [of _ "now - sw_window sw"]) simp
  moreover have "\<forall>t \<in> set (A @ [now]). t \<le> now" using assms(1,2) by (auto simp: sw_inv_def)
  moreover have "int (length (W @ [now])) \<le> max 1 (sw_limit sw)" using assms(5) by simp
  ultimately show ?thesis by (simp add: sw_inv_def del: filter_append)
qed

lemma sw_Allow_inv:
  assumes "sw_inv k A L sw" and "L \<le> now" and "0 < sw_window sw" and "int64 (sw_window sw)"
    and "sw_Allow now key sw = (ok, sw')"
  shows "sw_inv k (if ok \<and> key = k then A @ [now] else A) now sw' \<and>
    sw_limit sw' = sw_limit sw \<and> sw_window sw' = sw_window sw"
proof -
  have w: "wrap64 (- sw_window sw) = - sw_window sw" using assms(3,4) by (intro wrap64_id) (simp add: int64_def)
  note inv = sw_inv_later [OF assms(1,2)]
  show ?thesis
  proof (cases "key = k")
    case False
    with inv assms(5) show ?thesis
      by (auto simp: sw_Allow_def sw_AllowWithLimit_def Let_def sw_inv_def split: option.splits if_splits)
  next
    case True
    show ?thesis
    proof (cases "sw_windows sw k")
      case None
      with assms(1) have "A = []" by (simp add: sw_inv_def)
      with None True assms(5) sw_inv_accept [OF assms(1-3), of "[]"] show ?thesis
        by (auto simp: sw_Allow_def sw_AllowWithLimit_def)
    next
      case (Some W)
      with assms(1) obtain c where c: "c \<le> L - sw_window sw" "W = filter (\<lambda>t. c < t) A" "int (length W) \<le> max 1 (sw_limit sw)"
        by (auto simp: sw_inv_def)
      define V where "V = filter (\<lambda>t. now - sw_window sw < t) W"
      have V: "V = filter (\<lambda>t. now - sw_window sw < t) A"
        using c(1) assms(2) unfolding V_def c(2) by (auto simp: filter_filter intro: filter_cong)
      have call: "(ok, sw') = (if int (length V) \<ge> sw_limit sw then (False, sw\<lparr>sw_windows := (sw_windows sw)(k \<mapsto> V)\<rparr>)
          else (True, sw\<lparr>sw_windows := (sw_windows sw)(k \<mapsto> V @ [now])\<rparr>))"
        using assms(5) Some True w
        by (auto simp: sw_Allow_def sw_AllowWithLimit_def Let_def V_def time_Add_def)
      show ?thesis
      proof (cases "int (length V) \<ge> sw_limit sw")
        case True
        have "length V \<le> length W" by (simp add: V_def)
        with c(3) have "int (length V) \<le> max 1 (sw_limit sw)" by simp
        with inv V True call show ?thesis by (auto simp: sw_inv_def)
      next
        case False
        then have "int (length V) < max 1 (sw_limit sw)" by simp
        from sw_inv_accept [OF assms(1-3) V this] call False \<open>key = k\<close> show ?thesis by simp
      qed
    qed
  qed
qed

lemma sw_calls_inv:
  assumes "sw_inv k A L sw" and "sorted (L # map fst cs)" and "0 < sw_window sw" and "int64 (sw_window sw)"
  shows "\<exists>L'. sw_inv k (A @ map fst (filter (\<lambda>c. snd c = k) (fst (sw_calls cs sw)))) L' (snd (sw_calls cs sw)) \<and>
    sw_limit (snd (sw_calls cs sw)) = sw_limit sw \<and> sw_window (snd (sw_calls cs sw)) = sw_window sw"
  using assms
proof (induction cs arbitrary: A L sw)
  case Nil
  then show ?case by auto
next
  case (Cons c cs)
  obtain now key where c: "c = (now, key)" by fastforce
  obtain ok sw1 where a: "sw_Allow now key sw = (ok, sw1)" by fastforce
  have "L \<le> now" "sorted (now # map fst cs)" using Cons.prems(2) by (simp_all add: c)
  with sw_Allow_inv [OF Cons.prems(1) _ Cons.prems(3,4) a] Cons.IH Cons.prems(3,4) a show ?case
    by (simp add: c split_beta Let_def split: if_splits) (metis append_Cons append_Nil append.assoc)+
qed

section \<open>Properties\<close>

text \<open>
  Calls on the token bucket with a finite non-negative rate and a clock that does not run
  backwards keep every bucket between zero tokens and the burst size, whatever rounding occurs,
  and touch no other key.
\<close>

theorem tb_Allow_keeps_bucket:
  assumes "0 \<le> tb_burst tb" and "tb_burst tb \<le> 2 ^ 53" and "tb_rate tb = Fin r" and "0 \<le> r"
    and "\<And>b. tb_buckets tb key = Some b \<Longrightarrow> bucket_ok (tb_burst tb) b \<and> tb_lastRefill b \<le> now"
    and "tb_Allow now key tb = (ok, tb')"
  shows "\<exists>b. tb_buckets tb' = (tb_buckets tb)(key \<mapsto> b) \<and> bucket_ok (tb_burst tb) b \<and> tb_lastRefill b = now"
  using assms by (rule tb_Allow_bucket)

definition demoBucket :: TokenBucket where
  "demoBucket = NewTokenBucket (Fin 2) 3"

theorem tb_Allow_keeps_bucket_witness:
  "\<exists>b. tb_buckets (snd (tb_Allow 500 ''k'' demoBucket)) = (tb_buckets demoBucket)(''k'' \<mapsto> b) \<and>
     bucket_ok (tb_burst demoBucket) b \<and> tb_lastRefill b = 500"
  by (rule tb_Allow_keeps_bucket [of _ 2 _ _ "fst (tb_Allow 500 ''k'' demoBucket)"])
    (simp_all add: demoBucket_def NewTokenBucket_def)

text \<open>
  C28: From a key not seen before, of \<open>m\<close> calls at one instant the token bucket allows exactly the
  first \<open>burst\<close> and refuses the rest: the limiter is neither stricter nor laxer than its burst.
\<close>

theorem tb_burst_exact:
  assumes "tb_rate tb = Fin r" and "0 \<le> tb_burst tb" and "tb_burst tb \<le> 2 ^ 53"
    and "tb_buckets tb key = None"
  shows "tb_calls (replicate m now) key tb = map (\<lambda>i. int i < tb_burst tb) [0..<m]"
proof (cases m)
  case 0
  then show ?thesis by simp
next
  case (Suc n)
  let ?full = "tb\<lparr>tb_buckets := (tb_buckets tb)(key \<mapsto> \<lparr>tb_tokens = Fin (of_int (tb_burst tb)), tb_lastRefill = now\<rparr>)\<rparr>"
  have "f64OfInt (tb_burst tb) = Fin (of_int (tb_burst tb))" using assms(2,3) by (intro f64OfInt_exact) simp
  then have "tb_Allow now key tb = tb_Allow now key ?full"
    by (simp add: tb_Allow_def tb_AllowWithLimit_def assms(4))
  then have "tb_calls (replicate m now) key tb = tb_calls (replicate m now) key ?full" by (simp add: Suc)
  with tb_calls_drain [of ?full r "tb_burst tb" key now m] assms(1-3) show ?thesis by simp
qed

theorem tb_burst_exact_witness: "tb_calls (replicate 5 0) ''k'' demoBucket = [True, True, True, False, False]"
  using tb_burst_exact [of demoBucket 2 "''k''" 5 0] by (simp add: demoBucket_def NewTokenBucket_def upt_rec)

text \<open>
  C27: Over any sequence of calls with a clock that does not run backwards, the sliding window
  accepts for each key at most \<open>limit\<close> requests (at least one) in every window of the configured length,
  wherever the window is placed.
\<close>

theorem sw_window_bound:
  assumes "sorted (map fst cs)" and "0 < window" and "int64 window"
  shows "int (inWindow window T (map fst (filter (\<lambda>c. snd c = k) (fst (sw_calls cs (NewSlidingWindow limit window))))))
    \<le> max 1 limit"
proof -
  let ?sw = "NewSlidingWindow limit window"
  define L where "L = (if cs = [] then 0 else fst (hd cs))"
  have inv: "sw_inv k [] L ?sw" by (simp add: sw_inv_def NewSlidingWindow_def inWindow_def)
  have "sorted (L # map fst cs)" using assms(1) by (cases cs) (auto simp: L_def)
  from sw_calls_inv [OF inv this] assms(2,3) show ?thesis
    by (auto simp: sw_inv_def NewSlidingWindow_def)
qed

theorem sw_window_bound_witness:
  "int (inWindow 10 13 (map fst (filter (\<lambda>c. snd c = ''k'')
     (fst (sw_calls [(0, ''k''), (5, ''k''), (6, ''k''), (11, ''k'')] (NewSlidingWindow 2 10)))))) \<le> max 1 2"
  by (rule sw_window_bound) (simp_all add: int64_def)

end
