(* ===== verification/Go_Json.thy ===== *)
theory Go_Json
  imports Go_Strings
begin

text \<open>
  The part of the Go package \<open>encoding/json\<close> that the source calls: \<open>Marshal\<close> and \<open>Encoder.Encode\<close> on strings, numbers,
  booleans and objects, with the escapes of the package and its treatment of UTF-8, and \<open>Unmarshal\<close> into a struct:
  the scanner with its limit on nesting, the unquoting of strings with surrogate pairs, the matching of keys with
  field names, exactly or up to letter case, and the conversions to \<open>string\<close>, \<open>uint64\<close> and \<open>*int\<close>. The text is read in two
  passes, first into tokens and then, by a machine with a stack, into a value. The theory ends with the round trip: the
  reader gives back every value the writer wrote.
\<close>

section \<open>Strings in JSON\<close>

text \<open>The length of the character at the head of a string in UTF-8; 0 when the bytes are not valid.\<close>

definition between :: "int \<Rightarrow> int \<Rightarrow> char \<Rightarrow> bool" where
  "between lo hi c = (lo \<le> of_char c \<and> of_char c \<le> hi)"

definition tailByte :: "char \<Rightarrow> bool" where
  "tailByte c = between 128 191 c"

fun runeLen :: "string \<Rightarrow> nat" where
  "runeLen [] = 0"
| "runeLen (a # cs) =
     (if between 0 127 a then 1
      else if between 194 223 a then (case cs of b # _ \<Rightarrow> if tailByte b then 2 else 0 | _ \<Rightarrow> 0)
      else if between 224 239 a then (case cs of b # c # _ \<Rightarrow>
          if (if a = CHR 0xE0 then between 160 191 b else if a = CHR 0xED then between 128 159 b else tailByte b) \<and> tailByte c
          then 3 else 0 | _ \<Rightarrow> 0)
      else if between 240 244 a then (case cs of b # c # d # _ \<Rightarrow>
          if (if a = CHR 0xF0 then between 144 191 b else if a = CHR 0xF4 then between 128 143 b else tailByte b)
             \<and> tailByte c \<and> tailByte d then 4 else 0 | _ \<Rightarrow> 0)
      else 0)"

declare runeLen.simps(2) [simp del]

fun validUtf8 :: "string \<Rightarrow> bool" where
  "validUtf8 [] = True"
| "validUtf8 (c # cs) = (runeLen (c # cs) \<noteq> 0 \<and> validUtf8 (drop (runeLen (c # cs) - 1) cs))"

definition backslash :: char where "backslash = CHR 0x5C"

definition quoteMark :: char where "quoteMark = CHR 0x22"

text \<open>An escape with four hexadecimal digits.\<close>

definition unicodeEscape :: "int \<Rightarrow> string" where
  "unicodeEscape n = [backslash, CHR ''u'', hexChar (n div 4096 mod 16), hexChar (n div 256 mod 16),
     hexChar (n div 16 mod 16), hexChar (n mod 16)]"

text \<open>A character of ASCII: the encoder of the standard library also escapes what is special in HTML.\<close>

definition jsonAscii :: "char \<Rightarrow> string" where
  "jsonAscii c =
     (if c = quoteMark \<or> c = backslash then [backslash, c]
      else if c = CHR 0x08 then [backslash, CHR ''b'']
      else if c = CHR 0x0C then [backslash, CHR ''f'']
      else if c = CHR 0x0A then [backslash, CHR ''n'']
      else if c = CHR 0x0D then [backslash, CHR ''r'']
      else if c = CHR 0x09 then [backslash, CHR ''t'']
      else if of_char c < (32 :: int) \<or> c = CHR ''<'' \<or> c = CHR ''>'' \<or> c = CHR ''&'' then unicodeEscape (of_char c)
      else [c])"

text \<open>Invalid bytes become U+FFFD; U+2028 and U+2029 are escaped, as JavaScript does not allow them in strings.\<close>

fun jsonChars :: "string \<Rightarrow> string" where
  "jsonChars [] = []"
| "jsonChars (c # cs) = (let n = runeLen (c # cs) in
     if n = 0 then unicodeEscape 65533 @ jsonChars cs
     else if n = 1 then jsonAscii c @ jsonChars cs
     else if take 3 (c # cs) = [CHR 0xE2, CHR 0x80, CHR 0xA8] then unicodeEscape 8232 @ jsonChars (drop 2 cs)
     else if take 3 (c # cs) = [CHR 0xE2, CHR 0x80, CHR 0xA9] then unicodeEscape 8233 @ jsonChars (drop 2 cs)
     else take n (c # cs) @ jsonChars (drop (n - 1) cs))"

definition quoted :: "string \<Rightarrow> string" where
  "quoted s = quoteMark # jsonChars s @ [quoteMark]"

section \<open>Bytes and numbers\<close>

definition bytesString :: "byte list \<Rightarrow> string" where
  "bytesString bs = map (\<lambda>b. char_of (uint b)) bs"

text \<open>\<open>strconv.ParseUint(s, 10, 64)\<close>: no sign is allowed.\<close>

definition ParseUint64 :: "string \<Rightarrow> int option" where
  "ParseUint64 s = (if s \<noteq> [] \<and> list_all isDigit s \<and> digitsVal s < 2 ^ 64 then Some (digitsVal s) else None)"

section \<open>Values and their text\<close>

text \<open>A number is kept as its text, as the decoder of the package does before it knows the target.\<close>

datatype jsonValue = JNull | JBool bool | JNumber string | JString string | JArray "jsonValue list"
  | JObject "(string \<times> jsonValue) list"

fun joinWith :: "'a list \<Rightarrow> 'a list list \<Rightarrow> 'a list" where
  "joinWith sep [] = []"
| "joinWith sep [x] = x"
| "joinWith sep (x # y # ys) = x @ sep @ joinWith sep (y # ys)"

fun jsonEncode :: "jsonValue \<Rightarrow> string" where
  "jsonEncode JNull = ''null''"
| "jsonEncode (JBool b) = (if b then ''true'' else ''false'')"
| "jsonEncode (JNumber t) = t"
| "jsonEncode (JString s) = quoted s"
| "jsonEncode (JArray vs) = ''['' @ joinWith '','' (map jsonEncode vs) @ '']''"
| "jsonEncode (JObject ms) = ''{'' @ joinWith '','' (map (\<lambda>(k, v). quoted k @ '':'' @ jsonEncode v) ms) @ ''}''"

section \<open>Reading tokens\<close>

definition simpleEscape :: "char \<Rightarrow> char option" where
  "simpleEscape c = map_of [(quoteMark, quoteMark), (backslash, backslash), (CHR ''/'', CHR ''/''), (CHR ''b'', CHR 0x08),
     (CHR ''f'', CHR 0x0C), (CHR ''n'', CHR 0x0A), (CHR ''r'', CHR 0x0D), (CHR ''t'', CHR 0x09)] c"

definition before :: "'a list \<Rightarrow> ('a list \<times> 'b) option \<Rightarrow> ('a list \<times> 'b) option" where
  "before p x = map_option (\<lambda>(s, rest). (p @ s, rest)) x"

text \<open>Four hexadecimal digits.\<close>

fun getu4 :: "string \<Rightarrow> (int \<times> string) option" where
  "getu4 (h1 # h2 # h3 # h4 # es) = (if list_all isHexDigit [h1, h2, h3, h4]
     then Some (((hexVal h1 * 16 + hexVal h2) * 16 + hexVal h3) * 16 + hexVal h4, es) else None)"
| "getu4 _ = None"

text \<open>
  The code point of an escape, given the text after it: two surrogates that belong together are one character, any other
  surrogate is U+FFFD, which \<open>runeToString\<close> gives for it.
\<close>

definition secondHalf :: "string \<Rightarrow> (int \<times> string) option" where
  "secondHalf es = (case es of b # u # ds \<Rightarrow> if b = backslash \<and> u = CHR ''u'' then getu4 ds else None | _ \<Rightarrow> None)"

definition surrogate :: "int \<Rightarrow> string \<Rightarrow> string \<times> string" where
  "surrogate n es = (case secondHalf es of
     Some (m, fs) \<Rightarrow> if 55296 \<le> n \<and> n < 56320 \<and> 56320 \<le> m \<and> m < 57344
       then (runeToString ((n - 55296) * 1024 + (m - 56320) + 65536), fs) else (runeToString n, es)
   | None \<Rightarrow> (runeToString n, es))"

lemma getu4_length: "getu4 s = Some (n, es) \<Longrightarrow> length es < length s"
  by (cases s rule: getu4.cases) (auto split: if_splits)

lemma surrogate_length: "surrogate n es = (p, fs) \<Longrightarrow> length fs \<le> length es"
  by (auto simp: surrogate_def secondHalf_def dest!: getu4_length split: option.splits list.splits if_splits)

text \<open>What a string starts with, before its closing quotation mark: the decoded bytes and the text after them.\<close>

definition readPiece :: "char \<Rightarrow> string \<Rightarrow> (string \<times> string) option" where
  "readPiece c cs =
     (if c = backslash then (case cs of
          [] \<Rightarrow> None
        | e # ds \<Rightarrow> if e = CHR ''u'' then map_option (\<lambda>(n, es). surrogate n es) (getu4 ds)
            else map_option (\<lambda>x. ([x], ds)) (simpleEscape e))
      else if of_char c < (32 :: int) then None
      else let n = runeLen (c # cs) in
        Some (if n = 0 then ([CHR 0xEF, CHR 0xBF, CHR 0xBD], cs) else (take n (c # cs), drop (n - 1) cs)))"

lemma readPiece_length: "readPiece c cs = Some (p, rest) \<Longrightarrow> length rest \<le> length cs"
  by (auto simp: readPiece_def Let_def dest!: getu4_length sym [THEN surrogate_length] surrogate_length
    split: if_splits list.splits)

text \<open>The characters of a string up to the closing quotation mark, and the text after it.\<close>

function readChars :: "string \<Rightarrow> (string \<times> string) option" where
  "readChars [] = None"
| "readChars (c # cs) =
     (if c = quoteMark then Some ([], cs)
      else case readPiece c cs of Some (p, rest) \<Rightarrow> before p (readChars rest) | None \<Rightarrow> None)"
  by pat_completeness auto
termination
  by (relation "measure length") (auto dest: readPiece_length)

lemma readChars_length: "readChars s = Some (t, rest) \<Longrightarrow> length rest < length s"
proof (induction s arbitrary: t rule: readChars.induct)
  case (2 c cs)
  then show ?case
    by (fastforce simp: before_def dest: readPiece_length split: if_splits option.splits)
qed simp

text \<open>Numbers: an optional minus sign, digits without a leading zero, a fraction and an exponent.\<close>

definition someDigits :: "string \<Rightarrow> (string \<times> string) option" where
  "someDigits s = (if takeWhile isDigit s = [] then None else Some (takeWhile isDigit s, dropWhile isDigit s))"

definition wholePart :: "string \<Rightarrow> (string \<times> string) option" where
  "wholePart s = (case s of c # cs \<Rightarrow> if c = CHR ''0'' then Some ([c], cs) else someDigits s | [] \<Rightarrow> None)"

definition fractionPart :: "string \<Rightarrow> (string \<times> string) option" where
  "fractionPart s = (case s of c # cs \<Rightarrow> if c = CHR ''.'' then before [c] (someDigits cs) else Some ([], s) | [] \<Rightarrow> Some ([], s))"

definition exponentPart :: "string \<Rightarrow> (string \<times> string) option" where
  "exponentPart s = (case s of
     c # cs \<Rightarrow> if c = CHR ''e'' \<or> c = CHR ''E'' then
         (case cs of d # ds \<Rightarrow> if d = CHR ''+'' \<or> d = CHR ''-'' then before [c, d] (someDigits ds) else before [c] (someDigits cs)
          | [] \<Rightarrow> None)
       else Some ([], s)
   | [] \<Rightarrow> Some ([], s))"

definition minusPart :: "string \<Rightarrow> string \<times> string" where
  "minusPart s = (case s of c # cs \<Rightarrow> if c = CHR ''-'' then ([c], cs) else ([], s) | [] \<Rightarrow> ([], s))"

definition readNumber :: "string \<Rightarrow> (string \<times> string) option" where
  "readNumber s = (let (m, s0) = minusPart s in
     Option.bind (wholePart s0) (\<lambda>(w, s1). Option.bind (fractionPart s1) (\<lambda>(f, s2). Option.bind (exponentPart s2) (\<lambda>(e, s3).
       Some (m @ w @ f @ e, s3)))))"

lemma someDigits_length: "someDigits s = Some (d, rest) \<Longrightarrow> length rest < length s"
  by (cases s) (auto simp: someDigits_def length_dropWhile_le less_Suc_eq_le split: if_splits)

lemma number_parts_length:
  "wholePart s = Some (d, rest) \<Longrightarrow> length rest < length s"
  "fractionPart s = Some (d, rest) \<Longrightarrow> length rest \<le> length s"
  "exponentPart s = Some (d, rest) \<Longrightarrow> length rest \<le> length s"
  by (fastforce simp: wholePart_def fractionPart_def exponentPart_def before_def dest: someDigits_length split: list.splits if_splits)+

lemma readNumber_length: "readNumber s = Some (t, rest) \<Longrightarrow> length rest < length s"
  by (fastforce simp: readNumber_def minusPart_def bind_eq_Some_conv dest: number_parts_length split: list.splits if_splits prod.splits)

section \<open>Tokens\<close>

datatype jsonToken = LBrace | RBrace | LBracket | RBracket | Colon | Comma | Scalar jsonValue

definition punctuation :: "char \<Rightarrow> jsonToken option" where
  "punctuation c = map_of [(CHR ''{'', LBrace), (CHR ''}'', RBrace), (CHR ''['', LBracket), (CHR '']'', RBracket),
     (CHR '':'', Colon), (CHR '','', Comma)] c"

definition jsonSpace :: "char \<Rightarrow> bool" where
  "jsonSpace c = (c \<in> {CHR '' '', CHR 0x09, CHR 0x0A, CHR 0x0D})"

definition literals :: "(string \<times> jsonValue) list" where
  "literals = [(''true'', JBool True), (''false'', JBool False), (''null'', JNull)]"

text \<open>A literal, a string or a number.\<close>

definition readScalar :: "string \<Rightarrow> (jsonValue \<times> string) option" where
  "readScalar s = (case find (\<lambda>(w, v). HasPrefix s w) literals of
     Some (w, v) \<Rightarrow> Some (v, drop (length w) s)
   | None \<Rightarrow> (case s of
       c # cs \<Rightarrow> if c = quoteMark then map_option (\<lambda>(t, rest). (JString t, rest)) (readChars cs)
         else map_option (\<lambda>(t, rest). (JNumber t, rest)) (readNumber s)
     | [] \<Rightarrow> None))"

lemma readScalar_length: "readScalar s = Some (v, rest) \<Longrightarrow> length rest < length s"
  by (cases s) (auto simp: readScalar_def literals_def HasPrefix_def dest!: readChars_length readNumber_length
    split: if_splits option.splits)

function tokens :: "string \<Rightarrow> jsonToken list option" where
  "tokens [] = Some []"
| "tokens (c # cs) =
     (if jsonSpace c then tokens cs
      else case punctuation c of
        Some t \<Rightarrow> map_option ((#) t) (tokens cs)
      | None \<Rightarrow> (case readScalar (c # cs) of
          Some (v, rest) \<Rightarrow> map_option ((#) (Scalar v)) (tokens rest)
        | None \<Rightarrow> None))"
  by pat_completeness auto
termination
  by (relation "measure length") (auto dest: readScalar_length)

section \<open>The machine that reads a value\<close>

text \<open>
  The containers around the place that is being read, innermost first, each with what it holds so far, and what may come
  next: a value; a value or the end of the array; a key or the end of the object; a key; a colon; or what follows a
  value. Containers nest up to a depth of 10000.
\<close>

datatype jsonFrame = ArrayFrame "jsonValue list" | ObjectFrame "(string \<times> jsonValue) list" string

datatype jsonState = BeginValue | BeginElement | BeginKey | NextKey "(string \<times> jsonValue) list"
  | AfterKey "(string \<times> jsonValue) list" string | After jsonValue

definition maxNestingDepth :: int where "maxNestingDepth = 10000"

definition beginValue :: "jsonToken \<Rightarrow> jsonFrame list \<Rightarrow> (jsonState \<times> jsonFrame list) option" where
  "beginValue t st = (case t of
     Scalar v \<Rightarrow> Some (After v, st)
   | LBracket \<Rightarrow> if int (length st) < maxNestingDepth then Some (BeginElement, st) else None
   | LBrace \<Rightarrow> if int (length st) < maxNestingDepth then Some (BeginKey, st) else None
   | _ \<Rightarrow> None)"

definition afterKey :: "(string \<times> jsonValue) list \<Rightarrow> jsonToken \<Rightarrow> jsonFrame list \<Rightarrow> (jsonState \<times> jsonFrame list) option" where
  "afterKey ms t st = (case t of Scalar (JString k) \<Rightarrow> Some (AfterKey ms k, st) | _ \<Rightarrow> None)"

fun endValue :: "jsonValue \<Rightarrow> jsonToken \<Rightarrow> jsonFrame list \<Rightarrow> (jsonState \<times> jsonFrame list) option" where
  "endValue v Comma (ArrayFrame vs # st) = Some (BeginValue, ArrayFrame (vs @ [v]) # st)"
| "endValue v RBracket (ArrayFrame vs # st) = Some (After (JArray (vs @ [v])), st)"
| "endValue v Comma (ObjectFrame ms k # st) = Some (NextKey (ms @ [(k, v)]), st)"
| "endValue v RBrace (ObjectFrame ms k # st) = Some (After (JObject (ms @ [(k, v)])), st)"
| "endValue v t st = None"

fun jsonStep :: "jsonToken \<Rightarrow> jsonState \<times> jsonFrame list \<Rightarrow> (jsonState \<times> jsonFrame list) option" where
  "jsonStep t (BeginValue, st) = beginValue t st"
| "jsonStep t (BeginElement, st) = (if t = RBracket then Some (After (JArray []), st) else beginValue t (ArrayFrame [] # st))"
| "jsonStep t (BeginKey, st) = (if t = RBrace then Some (After (JObject []), st) else afterKey [] t st)"
| "jsonStep t (NextKey ms, st) = afterKey ms t st"
| "jsonStep t (AfterKey ms k, st) = (if t = Colon then Some (BeginValue, ObjectFrame ms k # st) else None)"
| "jsonStep t (After v, st) = endValue v t st"

fun jsonRun :: "jsonToken list \<Rightarrow> jsonState \<times> jsonFrame list \<Rightarrow> (jsonState \<times> jsonFrame list) option" where
  "jsonRun [] s = Some s"
| "jsonRun (t # ts) s = Option.bind (jsonStep t s) (jsonRun ts)"

definition jsonParse :: "string \<Rightarrow> jsonValue option" where
  "jsonParse text = Option.bind (tokens text) (\<lambda>ts. case jsonRun ts (BeginValue, []) of
     Some (After v, []) \<Rightarrow> Some v
   | _ \<Rightarrow> None)"

section \<open>Decoding into a struct\<close>

text \<open>
  A field of a struct: its name in JSON, and how a value is stored in it, \<open>None\<close> when the value is of the wrong type. Of
  the characters outside ASCII only the long s and the Kelvin sign are letters of a name in another case.
\<close>

type_synonym 'r jsonField = "string \<times> (jsonValue \<Rightarrow> 'r \<Rightarrow> 'r option)"

fun foldName :: "string \<Rightarrow> string" where
  "foldName [] = []"
| "foldName [c] = [upperChar c]"
| "foldName [c, d] = (if [c, d] = [CHR 0xC5, CHR 0xBF] then ''S'' else upperChar c # foldName [d])"
| "foldName (c # d # e # cs) =
     (if [c, d] = [CHR 0xC5, CHR 0xBF] then CHR ''S'' # foldName (e # cs)
      else if [c, d, e] = [CHR 0xE2, CHR 0x84, CHR 0xAA] then CHR ''K'' # foldName cs
      else upperChar c # foldName (d # e # cs))"

definition fieldFor :: "'r jsonField list \<Rightarrow> string \<Rightarrow> 'r jsonField option" where
  "fieldFor fs key = (case find (\<lambda>(name, _). name = key) fs of
     Some f \<Rightarrow> Some f
   | None \<Rightarrow> find (\<lambda>(name, _). foldName name = foldName key) fs)"

text \<open>A value of the wrong type is skipped and makes the whole call fail in the end; unknown keys are ignored.\<close>

definition storeMember :: "'r jsonField list \<Rightarrow> string \<times> jsonValue \<Rightarrow> 'r \<times> bool \<Rightarrow> 'r \<times> bool" where
  "storeMember fs m x = (case fieldFor fs (fst m) of
     None \<Rightarrow> x
   | Some (_, set_to) \<Rightarrow> (case set_to (snd m) (fst x) of Some r \<Rightarrow> (r, snd x) | None \<Rightarrow> (fst x, False)))"

text \<open>The value of the struct afterwards, which the caller has even when there is an error.\<close>

definition Unmarshal :: "'r jsonField list \<Rightarrow> byte list \<Rightarrow> 'r \<Rightarrow> error option \<times> 'r" where
  "Unmarshal fs body r = (case jsonParse (bytesString body) of
     None \<Rightarrow> (Some (Err ''json: syntax error''), r)
   | Some JNull \<Rightarrow> (None, r)
   | Some (JObject ms) \<Rightarrow> (let (r', ok) = fold (storeMember fs) ms (r, True)
       in (if ok then None else Some (Err ''json: cannot unmarshal into Go struct field''), r'))
   | Some _ \<Rightarrow> (Some (Err ''json: cannot unmarshal into Go value''), r))"

definition stringField :: "((string \<Rightarrow> string) \<Rightarrow> 'r \<Rightarrow> 'r) \<Rightarrow> jsonValue \<Rightarrow> 'r \<Rightarrow> 'r option" where
  "stringField upd v r = (case v of JNull \<Rightarrow> Some r | JString s \<Rightarrow> Some (upd (\<lambda>_. s) r) | _ \<Rightarrow> None)"

definition uint64Field :: "((64 word \<Rightarrow> 64 word) \<Rightarrow> 'r \<Rightarrow> 'r) \<Rightarrow> jsonValue \<Rightarrow> 'r \<Rightarrow> 'r option" where
  "uint64Field upd v r = (case v of
     JNull \<Rightarrow> Some r
   | JNumber t \<Rightarrow> map_option (\<lambda>n. upd (\<lambda>_. word_of_int n) r) (ParseUint64 t)
   | _ \<Rightarrow> None)"

definition intPtrField :: "((int option \<Rightarrow> int option) \<Rightarrow> 'r \<Rightarrow> 'r) \<Rightarrow> jsonValue \<Rightarrow> 'r \<Rightarrow> 'r option" where
  "intPtrField upd v r = (case v of
     JNull \<Rightarrow> Some (upd (\<lambda>_. None) r)
   | JNumber t \<Rightarrow> (case ParseInt64 t of (n, None) \<Rightarrow> Some (upd (\<lambda>_. Some n) r) | (_, Some _) \<Rightarrow> None)
   | _ \<Rightarrow> None)"

section \<open>Round trip of strings\<close>

lemma before_Nil [simp]: "before [] x = x"
  by (cases x) (auto simp: before_def)

lemma before_before [simp]: "before p (before q x) = before (p @ q) x"
  by (cases x) (auto simp: before_def)

lemma before_Some [simp]: "before p (Some (s, rest)) = Some (p @ s, rest)"
  by (simp add: before_def)

lemma bytesString_stringBytes [simp]: "bytesString (stringBytes s) = s"
  by (induction s) (simp_all add: bytesString_def stringBytes_def unsigned_of_int take_bit_eq_mod)

lemma of_char_nonneg [simp]: "0 \<le> (of_char c :: int)"
  by (simp add: of_char_def horner_sum_nonnegative)

lemma runeLen_high:
  assumes "runeLen (c # cs) = n" "n \<noteq> 0" "n \<noteq> 1"
  shows "128 \<le> (of_char c :: int)"
  using assms by (auto simp: runeLen.simps(2) between_def split: if_splits list.splits)

lemma runeLen_ascii: "runeLen (c # cs) = Suc 0 \<longleftrightarrow> of_char c < (128 :: int)"
  by (auto simp: runeLen.simps(2) between_def split: list.splits)

lemma runeLen_take:
  assumes "runeLen (c # cs) = n" "n \<noteq> 0"
  shows "runeLen (take n (c # cs) @ rest) = n \<and> length (take n (c # cs)) = n"
  using assms by (auto simp: runeLen.simps(2) split: if_splits list.splits)

lemma special_marks: "backslash \<noteq> quoteMark" "of_char quoteMark = (34 :: int)" "of_char backslash = (92 :: int)"
  by (simp_all add: backslash_def quoteMark_def)

lemma readChars_piece:
  assumes "readPiece c cs = Some (p, rest)" "c \<noteq> quoteMark"
  shows "readChars (c # cs) = before p (readChars rest)"
  using assms by simp

lemma readChars_unicodeEscape:
  assumes "0 \<le> n" "n < 65536" "\<not> (55296 \<le> n \<and> n < 57344)"
  shows "readChars (unicodeEscape n @ rest) = before (runeToString n) (readChars rest)"
proof -
  have v: "((n div 4096 mod 16 * 16 + n div 256 mod 16) * 16 + n div 16 mod 16) * 16 + n mod 16 = n"
  proof -
    have "n div 4096 mod 16 = n div 4096" using assms by simp
    moreover have "n div 4096 = n div 256 div 16" "n div 256 = n div 16 div 16" by (simp_all add: div_mult2_eq)
    ultimately show ?thesis by (simp add: mult.commute)
  qed
  have h: "hexVal (hexChar (k mod 16)) = k mod 16" "isHexDigit (hexChar (k mod 16))" for k
    using hexChar_props [of "k mod 16"] by simp_all
  have "getu4 (tl (tl (unicodeEscape n)) @ rest) = Some (n, rest)"
    by (simp add: unicodeEscape_def h v [simplified])
  moreover have "surrogate n rest = (runeToString n, rest)"
    using assms by (auto simp: surrogate_def split: option.splits)
  ultimately show ?thesis
    by (simp add: unicodeEscape_def readPiece_def special_marks)
qed

lemma readChars_escape:
  assumes "simpleEscape e = Some x"
  shows "readChars (backslash # e # rest) = before [x] (readChars rest)"
proof -
  have "e \<noteq> CHR ''u''" using assms by (auto simp: backslash_def quoteMark_def simpleEscape_def)
  with assms show ?thesis by (simp add: readPiece_def special_marks)
qed

lemma readChars_jsonAscii:
  assumes "of_char c < (128 :: int)"
  shows "readChars (jsonAscii c @ rest) = before [c] (readChars rest)"
proof -
  have r: "runeToString (of_char c) = [c]" using assms by (simp add: runeToString_def)
  have u: "readChars (unicodeEscape (of_char c) @ rest) = before [c] (readChars rest)"
    using readChars_unicodeEscape [of "of_char c" rest] assms r by simp
  have p: "readChars (c # rest) = before [c] (readChars rest)" if "c \<noteq> quoteMark" "c \<noteq> backslash" "\<not> of_char c < (32 :: int)"
    using that assms runeLen_ascii [of c rest] by (simp add: readPiece_def)
  have e: "simpleEscape quoteMark = Some quoteMark" "simpleEscape backslash = Some backslash"
    "simpleEscape CHR ''b'' = Some CHR 0x08" "simpleEscape CHR ''f'' = Some CHR 0x0C"
    "simpleEscape CHR ''n'' = Some CHR 0x0A" "simpleEscape CHR ''r'' = Some CHR 0x0D" "simpleEscape CHR ''t'' = Some CHR 0x09"
    by (simp_all add: simpleEscape_def quoteMark_def backslash_def)
  show ?thesis
  proof (cases "c = quoteMark \<or> c = backslash")
    case True
    then show ?thesis by (elim disjE) (simp_all add: jsonAscii_def readChars_escape e del: readChars.simps)
  next
    case False
    then show ?thesis by (simp add: jsonAscii_def readChars_escape e u p del: readChars.simps)
  qed
qed

lemma readChars_rune:
  assumes "runeLen (c # cs) = n" "n \<noteq> 0" "n \<noteq> 1"
  shows "readChars (take n (c # cs) @ rest) = before (take n (c # cs)) (readChars rest)"
proof -
  have hi: "128 \<le> (of_char c :: int)" using assms by (rule runeLen_high)
  then have c: "c \<noteq> quoteMark" "c \<noteq> backslash" "\<not> of_char c < (32 :: int)" by (auto simp: special_marks)
  obtain ds where ds: "take n (c # cs) = c # ds" using assms(2) by (cases n) auto
  note len = runeLen_take [OF assms(1,2), of rest, unfolded ds]
  have "runeLen (c # ds @ rest) = Suc (length ds)" using len by simp
  then have "readPiece c (ds @ rest) = Some (c # ds, rest)" using c by (simp add: readPiece_def)
  then show ?thesis unfolding ds append_Cons using c(1) by (rule readChars_piece)
qed

text \<open>The line separators U+2028 and U+2029 are runes of three bytes, which the escapes stand for.\<close>

lemma separators: "runeToString 8232 = [CHR 0xE2, CHR 0x80, CHR 0xA8]" "runeToString 8233 = [CHR 0xE2, CHR 0x80, CHR 0xA9]"
  by code_simp+

lemma separator_rune:
  assumes "take 3 (c # cs) = [CHR 0xE2, CHR 0x80, x]" "x = CHR 0xA8 \<or> x = CHR 0xA9"
  shows "runeLen (c # cs) = 3"
    and "\<exists>k. 0 \<le> k \<and> k < 55296 \<and> jsonChars (c # cs) = unicodeEscape k @ jsonChars (drop 2 cs) \<and>
      c # cs = runeToString k @ drop 2 cs"
proof -
  from assms(1) obtain ds where s: "c = CHR 0xE2" "cs = CHR 0x80 # x # ds"
    by (cases cs; cases "tl cs") (auto simp: numeral_3_eq_3)
  with assms(2) show len: "runeLen (c # cs) = 3"
    by (auto simp: runeLen.simps(2) between_def tailByte_def)
  define k :: int where "k = (if x = CHR 0xA8 then 8232 else 8233)"
  have "jsonChars (c # cs) = unicodeEscape k @ jsonChars (drop 2 cs) \<and> c # cs = runeToString k @ drop 2 cs"
    using assms(2) len by (auto simp: s k_def Let_def separators)
  moreover have "0 \<le> k" "k < 55296" by (simp_all add: k_def)
  ultimately show "\<exists>k. 0 \<le> k \<and> k < 55296 \<and> jsonChars (c # cs) = unicodeEscape k @ jsonChars (drop 2 cs) \<and>
      c # cs = runeToString k @ drop 2 cs"
    by blast
qed

lemma readChars_jsonChars:
  assumes "validUtf8 s"
  shows "readChars (jsonChars s @ quoteMark # rest) = Some (s, rest)"
  using assms
proof (induction s rule: length_induct)
  case (1 s)
  show ?case
  proof (cases s)
    case Nil
    then show ?thesis by (simp add: readChars.simps(2))
  next
    case s: (Cons c cs)
    define n where "n = runeLen (c # cs)"
    with 1(2) s have ok: "n \<noteq> 0" "validUtf8 (drop (n - 1) cs)" by auto
    have IH: "readChars (jsonChars (drop (n - 1) cs) @ quoteMark # rest) = Some (drop (n - 1) cs, rest)"
      using 1(1) ok(2) s by simp
    have whole: "c # cs = take n (c # cs) @ drop (n - 1) cs" using ok(1) by (cases n) auto
    consider "n = 1" | x where "take 3 (c # cs) = [CHR 0xE2, CHR 0x80, x]" "x = CHR 0xA8 \<or> x = CHR 0xA9"
      | "n \<noteq> 1" "take 3 (c # cs) \<noteq> [CHR 0xE2, CHR 0x80, CHR 0xA8]" "take 3 (c # cs) \<noteq> [CHR 0xE2, CHR 0x80, CHR 0xA9]"
      by blast
    then have "readChars (jsonChars (c # cs) @ quoteMark # rest) = Some (c # cs, rest)"
    proof cases
      case 1
      then show ?thesis
        using IH runeLen_ascii [of c cs] by (simp add: n_def [symmetric] Let_def readChars_jsonAscii)
    next
      case 2
      note sep = separator_rune [OF this]
      from sep(1) IH have "readChars (jsonChars (drop 2 cs) @ quoteMark # rest) = Some (drop 2 cs, rest)"
        by (simp add: n_def)
      with sep(2) show ?thesis by (elim exE conjE) (simp add: readChars_unicodeEscape del: jsonChars.simps)
    next
      case 3
      then have "jsonChars (c # cs) = take n (c # cs) @ jsonChars (drop (n - 1) cs)"
        using ok(1) by (simp only: jsonChars.simps Let_def n_def [symmetric] if_False)
      with readChars_rune [OF n_def [symmetric] ok(1) 3(1)] IH whole show ?thesis by simp
    qed
    with s show ?thesis by simp
  qed
qed

section \<open>Round trip of numbers\<close>

text \<open>A text that is a number, and what may follow it.\<close>

definition numberText :: "string \<Rightarrow> bool" where
  "numberText t = (readNumber t = Some (t, []))"

definition stops :: "string \<Rightarrow> bool" where
  "stops rest = (case rest of [] \<Rightarrow> True | c # _ \<Rightarrow> \<not> isDigit c \<and> c \<noteq> CHR ''.'' \<and> c \<noteq> CHR ''e'' \<and> c \<noteq> CHR ''E'')"

lemma someDigits_stops: "someDigits s = Some (d, s') \<Longrightarrow> stops rest \<Longrightarrow> someDigits (s @ rest) = Some (d, s' @ rest)"
proof (cases "\<forall>x\<in>set s. isDigit x")
  case True
  moreover assume "stops rest"
  then have "takeWhile isDigit rest = []" "dropWhile isDigit rest = rest" by (auto simp: stops_def split: list.splits)
  moreover assume "someDigits s = Some (d, s')"
  moreover have "takeWhile isDigit s = s" "dropWhile isDigit s = []" using True by simp_all
  ultimately show ?thesis
    by (auto simp: someDigits_def takeWhile_append dropWhile_append simp del: takeWhile_eq_all_conv split: if_splits)
next
  case False
  moreover assume "someDigits s = Some (d, s')"
  ultimately show ?thesis by (auto simp: someDigits_def takeWhile_append dropWhile_append split: if_splits)
qed

lemma number_parts_stops:
  assumes "stops rest"
  shows "wholePart s = Some (d, s') \<Longrightarrow> wholePart (s @ rest) = Some (d, s' @ rest)"
    and "fractionPart s = Some (d, s') \<Longrightarrow> fractionPart (s @ rest) = Some (d, s' @ rest)"
    and "exponentPart s = Some (d, s') \<Longrightarrow> exponentPart (s @ rest) = Some (d, s' @ rest)"
proof -
  have n: "fractionPart rest = Some ([], rest)" "exponentPart rest = Some ([], rest)"
    using assms by (auto simp: fractionPart_def exponentPart_def stops_def split: list.splits)
  show "wholePart s = Some (d, s') \<Longrightarrow> wholePart (s @ rest) = Some (d, s' @ rest)"
    using someDigits_stops [OF _ assms] by (cases s) (fastforce simp: wholePart_def split: if_splits)+
  show "fractionPart s = Some (d, s') \<Longrightarrow> fractionPart (s @ rest) = Some (d, s' @ rest)"
    using someDigits_stops [OF _ assms] n
    by (cases s) (auto simp: fractionPart_def before_def split: if_splits)
  show "exponentPart s = Some (d, s') \<Longrightarrow> exponentPart (s @ rest) = Some (d, s' @ rest)"
    using someDigits_stops [OF _ assms] n
    by (cases s; cases "tl s") (fastforce simp: exponentPart_def before_def split: if_splits)+
qed

lemma readNumber_stops: "readNumber s = Some (t, s') \<Longrightarrow> stops rest \<Longrightarrow> readNumber (s @ rest) = Some (t, s' @ rest)"
proof -
  assume s: "readNumber s = Some (t, s')" and rest: "stops rest"
  obtain m s0 where m: "minusPart s = (m, s0)" by (cases "minusPart s") auto
  with s obtain w s1 f s2 e where p: "wholePart s0 = Some (w, s1)" "fractionPart s1 = Some (f, s2)" "exponentPart s2 = Some (e, s')"
      "t = m @ w @ f @ e"
    by (auto simp: readNumber_def bind_eq_Some_conv)
  from p(1) have "s \<noteq> []" using m by (auto simp: minusPart_def wholePart_def split: list.splits)
  then have "minusPart (s @ rest) = (m, s0 @ rest)" using m by (cases s) (auto simp: minusPart_def split: if_splits)
  with number_parts_stops(1) [OF rest p(1)] number_parts_stops(2) [OF rest p(2)] number_parts_stops(3) [OF rest p(3)] p(4)
  show ?thesis by (simp add: readNumber_def)
qed

lemma numberText_Nil [simp]: "\<not> numberText []"
  by (simp add: numberText_def readNumber_def minusPart_def wholePart_def)

text \<open>A number begins with a digit or a minus sign.\<close>

lemma numberText_head:
  assumes "numberText (c # cs)"
  shows "isDigit c \<or> c = CHR ''-''"
  using assms
  by (auto simp: numberText_def readNumber_def minusPart_def wholePart_def someDigits_def isDigit_def bind_eq_Some_conv split: if_splits)

lemma natDigits_zero: "0 \<le> n \<Longrightarrow> natDigits n = c # cs \<Longrightarrow> c = CHR ''0'' \<Longrightarrow> cs = []"
proof (induction n arbitrary: cs rule: natDigits.induct)
  case (1 n)
  show ?case
  proof (cases "n < 10")
    case True
    with 1 show ?thesis by (simp add: natDigits.simps [of n])
  next
    case False
    then have "natDigits (n div 10) \<noteq> []" using natDigits_digits [of "n div 10"] by simp
    then obtain d ds where ds: "natDigits (n div 10) = d # ds" by (cases "natDigits (n div 10)") auto
    with False 1(3) have "d = c" by (simp add: natDigits.simps [of n])
    with 1(1) [OF False] ds False 1(4) have "natDigits (n div 10) = [CHR ''0'']" by simp
    then have "digitsVal (natDigits (n div 10)) = 0" by (simp add: digitsVal_def digitVal_def)
    moreover have "0 < n div 10" using False by (simp add: pos_imp_zdiv_pos_iff)
    ultimately show ?thesis using digitsVal_natDigits [of "n div 10"] by simp
  qed
qed

lemma numberText_natDigits:
  assumes "0 \<le> n"
  shows "wholePart (natDigits n) = Some (natDigits n, [])"
proof -
  obtain c cs where s: "natDigits n = c # cs" using natDigits_digits [OF assms] by (cases "natDigits n") auto
  show ?thesis
  proof (cases "c = CHR ''0''")
    case True
    with natDigits_zero [OF assms s] show ?thesis by (simp add: s wholePart_def)
  next
    case False
    have "takeWhile isDigit (c # cs) = c # cs" "dropWhile isDigit (c # cs) = []"
      using natDigits_digits [OF assms] s by (auto simp: list_all_iff)
    with False show ?thesis by (simp only: s wholePart_def someDigits_def list.case if_False list.distinct simp_thms)
  qed
qed

lemma numberText_FormatInt [simp]: "numberText (FormatInt n)"
proof (cases "n < 0")
  case True
  then show ?thesis
    using numberText_natDigits [of "- n"]
    by (simp add: numberText_def FormatInt_def readNumber_def minusPart_def fractionPart_def exponentPart_def)
next
  case False
  then obtain c cs where "natDigits n = c # cs" "c \<noteq> CHR ''-''"
    using natDigits_digits [of n] that by (cases "natDigits n"; cases "hd (natDigits n) = CHR ''-''") (auto simp: isDigit_def)
  with False show ?thesis
    using numberText_natDigits [of n]
    by (simp add: numberText_def FormatInt_def readNumber_def minusPart_def fractionPart_def exponentPart_def)
qed

section \<open>Round trip of values\<close>

text \<open>What the writer and the reader agree on: strings in UTF-8 and texts of numbers.\<close>

fun jsonOk :: "jsonValue \<Rightarrow> bool" where
  "jsonOk (JNumber t) = numberText t"
| "jsonOk (JString s) = validUtf8 s"
| "jsonOk (JArray vs) = list_all jsonOk vs"
| "jsonOk (JObject ms) = list_all (\<lambda>(k, v). validUtf8 k \<and> jsonOk v) ms"
| "jsonOk _ = True"

fun valueTokens :: "jsonValue \<Rightarrow> jsonToken list" where
  "valueTokens (JArray vs) = LBracket # joinWith [Comma] (map valueTokens vs) @ [RBracket]"
| "valueTokens (JObject ms) = LBrace # joinWith [Comma] (map (\<lambda>(k, v). Scalar (JString k) # Colon # valueTokens v) ms) @ [RBrace]"
| "valueTokens v = [Scalar v]"

fun nesting :: "jsonValue \<Rightarrow> nat" where
  "nesting (JArray vs) = Suc (fold max (map nesting vs) 0)"
| "nesting (JObject ms) = Suc (fold max (map (\<lambda>(k, v). nesting v) ms) 0)"
| "nesting v = 0"

lemma readScalar_words:
  "readScalar (''true'' @ rest) = Some (JBool True, rest)" "readScalar (''false'' @ rest) = Some (JBool False, rest)"
  "readScalar (''null'' @ rest) = Some (JNull, rest)"
  by (simp_all add: readScalar_def literals_def HasPrefix_def)

lemma readScalar_other:
  assumes "\<not> c \<in> {CHR ''t'', CHR ''f'', CHR ''n''}"
  shows "readScalar (c # cs) = (if c = quoteMark then map_option (\<lambda>(t, rest). (JString t, rest)) (readChars cs)
    else map_option (\<lambda>(t, rest). (JNumber t, rest)) (readNumber (c # cs)))"
  using assms by (simp add: readScalar_def literals_def HasPrefix_def)

lemma tokens_scalar:
  assumes "readScalar (c # cs) = Some (v, rest)" "\<not> jsonSpace c" "punctuation c = None"
  shows "tokens (c # cs) = map_option ((#) (Scalar v)) (tokens rest)"
  using assms by simp

lemma tokens_quoted:
  assumes "validUtf8 s"
  shows "tokens (quoted s @ rest) = map_option ((#) (Scalar (JString s))) (tokens rest)"
proof -
  have "readScalar (quoteMark # jsonChars s @ quoteMark # rest) = Some (JString s, rest)"
    using readChars_jsonChars [OF assms, of rest] by (subst readScalar_other) (simp_all add: quoteMark_def)
  from tokens_scalar [OF this] show ?thesis
    by (simp add: quoted_def quoteMark_def jsonSpace_def punctuation_def del: tokens.simps)
qed

lemma tokens_number:
  assumes "numberText t" "stops rest"
  shows "tokens (t @ rest) = map_option ((#) (Scalar (JNumber t))) (tokens rest)"
proof -
  obtain c cs where t: "t = c # cs" using assms(1) by (cases t) auto
  have c: "isDigit c \<or> c = CHR ''-''" using numberText_head assms(1) t by blast
  then have "\<not> c \<in> {CHR ''t'', CHR ''f'', CHR ''n''}" "c \<noteq> quoteMark" "\<not> jsonSpace c" "punctuation c = None"
    by (auto simp: isDigit_def quoteMark_def jsonSpace_def punctuation_def)
  moreover have "readNumber (t @ rest) = Some (t, [] @ rest)"
    using readNumber_stops [of t t "[]" rest] assms by (simp add: numberText_def)
  ultimately show ?thesis
    using readScalar_other [of c "cs @ rest"] tokens_scalar [of c "cs @ rest"] t by (simp del: tokens.simps)
qed

lemma tokens_punctuation:
  "tokens (CHR ''{'' # s) = map_option ((#) LBrace) (tokens s)" "tokens (CHR ''}'' # s) = map_option ((#) RBrace) (tokens s)"
  "tokens (CHR ''['' # s) = map_option ((#) LBracket) (tokens s)" "tokens (CHR '']'' # s) = map_option ((#) RBracket) (tokens s)"
  "tokens (CHR '':'' # s) = map_option ((#) Colon) (tokens s)" "tokens (CHR '','' # s) = map_option ((#) Comma) (tokens s)"
  by (simp_all add: jsonSpace_def punctuation_def)

lemma stops_punctuation: "stops (CHR '','' # s)" "stops (CHR '']'' # s)" "stops (CHR ''}'' # s)" "stops []" "stops (CHR 0x0A # s)"
  by (simp_all add: stops_def isDigit_def)

lemma tokens_joined:
  assumes "\<And>x rest. x \<in> set xs \<Longrightarrow> stops rest \<Longrightarrow> tokens (f x @ rest) = map_option ((@) (g x)) (tokens rest)" "stops rest"
  shows "tokens (joinWith '','' (map f xs) @ rest) = map_option ((@) (joinWith [Comma] (map g xs))) (tokens rest)"
  using assms
proof (induction xs)
  case Nil
  then show ?case by (simp add: option.map_ident)
next
  case (Cons x xs)
  show ?case
  proof (cases xs)
    case Nil
    with Cons.prems show ?thesis by simp
  next
    case (Cons y ys)
    with Cons.IH Cons.prems show ?thesis
      by (simp add: stops_punctuation tokens_punctuation option.map_comp comp_def del: tokens.simps)
  qed
qed

lemma tokens_jsonEncode:
  assumes "jsonOk v" "stops rest"
  shows "tokens (jsonEncode v @ rest) = map_option ((@) (valueTokens v)) (tokens rest)"
  using assms
proof (induction v arbitrary: rest rule: jsonEncode.induct)
  case 1
  show ?case using readScalar_words(3) [of rest] tokens_scalar [of "CHR ''n''" "''ull'' @ rest" JNull rest]
    by (simp add: jsonSpace_def punctuation_def del: tokens.simps)
next
  case (2 b)
  show ?case
    using readScalar_words(1,2) [of rest] tokens_scalar [of "CHR ''t''" "''rue'' @ rest" "JBool True" rest]
      tokens_scalar [of "CHR ''f''" "''alse'' @ rest" "JBool False" rest]
    by (simp add: jsonSpace_def punctuation_def del: tokens.simps)
next
  case (3 t)
  then show ?case using tokens_number [of t rest] by simp
next
  case (4 s)
  then show ?case using tokens_quoted [of s rest] by simp
next
  case (5 vs)
  have "tokens (joinWith '','' (map jsonEncode vs) @ ('']'' @ rest)) = map_option ((@) (joinWith [Comma] (map valueTokens vs))) (tokens ('']'' @ rest))"
    using 5 by (intro tokens_joined) (auto simp: list_all_iff stops_punctuation simp del: tokens.simps)
  then show ?case by (simp add: tokens_punctuation option.map_comp comp_def del: tokens.simps)
next
  case (6 ms)
  have member: "tokens (quoted k @ '':'' @ jsonEncode v @ r) = map_option ((@) (Scalar (JString k) # Colon # valueTokens v)) (tokens r)"
    if "(k, v) \<in> set ms" "stops r" for k v r
  proof -
    have "validUtf8 k" "jsonOk v" using 6(2) that by (auto simp: list_all_iff)
    with 6(1) [OF that(1) refl _ that(2)] show ?thesis
      by (cases "tokens r") (simp_all add: tokens_quoted tokens_punctuation del: tokens.simps)
  qed
  have "tokens (joinWith '','' (map (\<lambda>(k, v). quoted k @ '':'' @ jsonEncode v) ms) @ (''}'' @ rest))
      = map_option ((@) (joinWith [Comma] (map (\<lambda>(k, v). Scalar (JString k) # Colon # valueTokens v) ms))) (tokens (''}'' @ rest))"
    using member by (intro tokens_joined) (auto simp: stops_punctuation simp del: tokens.simps)
  then show ?case by (simp add: tokens_punctuation option.map_comp comp_def del: tokens.simps)
qed

lemma fold_max_le: "fold max ns (a :: nat) \<le> n \<longleftrightarrow> a \<le> n \<and> (\<forall>x\<in>set ns. x \<le> n)"
  by (induction ns arbitrary: a) auto

lemma valueTokens_head: "\<exists>t ts. valueTokens v = t # ts \<and> t \<noteq> RBracket"
  by (cases v) auto

lemma jsonRun_elements:
  assumes "vs \<noteq> []"
    and "\<And>v us ts. v \<in> set vs \<Longrightarrow> jsonRun (valueTokens v @ ts) (BeginValue, ArrayFrame us # st) = jsonRun ts (After v, ArrayFrame us # st)"
  shows "jsonRun (joinWith [Comma] (map valueTokens vs) @ RBracket # ts) (BeginValue, ArrayFrame us # st)
    = jsonRun ts (After (JArray (us @ vs)), st)"
  using assms
proof (induction vs arbitrary: us rule: list_nonempty_induct)
  case (cons v vs)
  then obtain w ws where "vs = w # ws" by (cases vs) auto
  with cons show ?case by simp
qed simp

lemma jsonRun_members:
  assumes "ms \<noteq> []"
    and "\<And>k v us ts. (k, v) \<in> set ms \<Longrightarrow>
      jsonRun (valueTokens v @ ts) (BeginValue, ObjectFrame us k # st) = jsonRun ts (After v, ObjectFrame us k # st)"
  shows "jsonRun (joinWith [Comma] (map (\<lambda>(k, v). Scalar (JString k) # Colon # valueTokens v) ms) @ RBrace # ts) (NextKey us, st)
    = jsonRun ts (After (JObject (us @ ms)), st)"
  using assms
proof (induction ms arbitrary: us rule: list_nonempty_induct)
  case (single m)
  then show ?case by (cases m) (simp add: afterKey_def)
next
  case (cons m ms)
  then obtain w ws where "ms = w # ws" by (cases ms) auto
  with cons show ?case by (cases m) (simp add: afterKey_def)
qed

lemma jsonRun_value:
  assumes "int (nesting v) + int (length st) \<le> maxNestingDepth"
  shows "jsonRun (valueTokens v @ ts) (BeginValue, st) = jsonRun ts (After v, st)"
  using assms
proof (induction v arbitrary: st ts rule: valueTokens.induct)
  case (1 vs)
  have deep: "int (nesting v) + int (length (f # st)) \<le> maxNestingDepth" if "v \<in> set vs" for v f
    using 1(2) that fold_max_le [of "map nesting vs" 0 "fold max (map nesting vs) 0"] by force
  show ?case
  proof (cases vs)
    case Nil
    with 1(2) show ?thesis by (simp add: beginValue_def)
  next
    case (Cons v ws)
    obtain t us where head: "joinWith [Comma] (map valueTokens vs) = t # us" "t \<noteq> RBracket"
      using valueTokens_head [of v] Cons by (cases ws) auto
    have "jsonRun (joinWith [Comma] (map valueTokens vs) @ RBracket # ts) (BeginValue, ArrayFrame [] # st)
        = jsonRun ts (After (JArray ([] @ vs)), st)"
      using Cons 1(1) deep by (intro jsonRun_elements) auto
    then show ?thesis using 1(2) head by (simp add: beginValue_def [of LBracket])
  qed
next
  case (2 ms)
  have deep: "int (nesting v) + int (length (f # st)) \<le> maxNestingDepth" if "(k, v) \<in> set ms" for k v f
    using 2(2) that fold_max_le [of "map (\<lambda>(k, v). nesting v) ms" 0 "fold max (map (\<lambda>(k, v). nesting v) ms) 0"] by force
  show ?case
  proof (cases ms)
    case Nil
    with 2(2) show ?thesis by (simp add: beginValue_def)
  next
    case (Cons m ws)
    obtain k us where head: "joinWith [Comma] (map (\<lambda>(k, v). Scalar (JString k) # Colon # valueTokens v) ms) = Scalar (JString k) # us"
      using Cons by (cases m; cases ws) auto
    have "jsonRun (joinWith [Comma] (map (\<lambda>(k, v). Scalar (JString k) # Colon # valueTokens v) ms) @ RBrace # ts) (NextKey [], st)
        = jsonRun ts (After (JObject ([] @ ms)), st)"
      using Cons 2(1) deep by (intro jsonRun_members) auto
    then show ?thesis using 2(2) head by (simp add: beginValue_def)
  qed
qed (simp_all add: beginValue_def)

text \<open>The reader gives back what the writer wrote, followed by the newline of \<open>Encoder.Encode\<close> or not.\<close>

lemma jsonParse_jsonEncode:
  assumes "jsonOk v" "int (nesting v) \<le> maxNestingDepth" "rest = [] \<or> rest = [CHR 0x0A]"
  shows "jsonParse (jsonEncode v @ rest) = Some v"
proof -
  have "stops rest" "tokens rest = Some []" using assms(3) by (auto simp: stops_punctuation jsonSpace_def)
  then have "tokens (jsonEncode v @ rest) = Some (valueTokens v)"
    using tokens_jsonEncode [OF assms(1)] by simp
  moreover have "jsonRun (valueTokens v) (BeginValue, []) = Some (After v, [])"
    using jsonRun_value [of v "[]" "[]"] assms(2) by simp
  ultimately show ?thesis by (simp add: jsonParse_def)
qed

section \<open>Unclosed objects\<close>

text \<open>A body cut off before the end of its object is refused: only a closing brace leaves an object.\<close>

lemma set_readChars: "readChars s = Some (t, rest) \<Longrightarrow> set rest \<subseteq> set s"
proof (induction s arbitrary: t rule: readChars.induct)
  case (2 c cs)
  have "set r \<subseteq> set cs" if "readPiece c cs = Some (p, r)" for p r
  proof -
    have g: "getu4 xs = Some (n, es) \<Longrightarrow> set es \<subseteq> set xs" for xs n es
      by (cases xs rule: getu4.cases) (auto split: if_splits)
    have s: "surrogate n es = (q, fs) \<Longrightarrow> set fs \<subseteq> set es" for n es q fs
      by (auto simp: surrogate_def secondHalf_def dest!: g split: option.splits list.splits if_splits)
    from that show ?thesis
      by (auto simp: readPiece_def Let_def dest!: g s sym [THEN s] in_set_dropD split: if_splits list.splits)
  qed
  with 2 show ?case by (fastforce simp: before_def split: if_splits option.splits)
qed simp

lemma set_readNumber: "readNumber s = Some (t, rest) \<Longrightarrow> set rest \<subseteq> set s"
proof -
  have d: "set r \<subseteq> set xs" if "someDigits xs = Some (ds, r)" for xs ds r
    using that by (auto simp: someDigits_def dest: set_dropWhileD split: if_splits)
  have w: "set r \<subseteq> set xs" if "wholePart xs = Some (ds, r)" for xs ds r
    using that d [of xs] by (cases xs) (auto simp: wholePart_def split: if_splits)
  have f: "set r \<subseteq> set xs" if "fractionPart xs = Some (ds, r)" for xs ds r
    using that by (auto simp: fractionPart_def before_def dest!: d split: if_splits list.splits)
  have e: "set r \<subseteq> set xs" if "exponentPart xs = Some (ds, r)" for xs ds r
    using that by (cases xs; cases "tl xs") (fastforce simp: exponentPart_def before_def dest: d split: if_splits)+
  have m: "set (snd (minusPart s)) \<subseteq> set s" by (auto simp: minusPart_def split: list.splits)
  assume "readNumber s = Some (t, rest)"
  then obtain ws s1 fs s2 es where "wholePart (snd (minusPart s)) = Some (ws, s1)" "fractionPart s1 = Some (fs, s2)"
      "exponentPart s2 = Some (es, rest)"
    by (auto simp: readNumber_def bind_eq_Some_conv split: prod.splits)
  with w f e m show ?thesis by (meson subset_trans)
qed

lemma set_readScalar: "readScalar s = Some (v, rest) \<Longrightarrow> set rest \<subseteq> set s"
  by (cases s) (auto simp: readScalar_def literals_def dest!: set_readChars set_readNumber in_set_dropD split: if_splits option.splits)

lemma tokens_no_brace: "tokens s = Some ts \<Longrightarrow> CHR ''}'' \<notin> set s \<Longrightarrow> RBrace \<notin> set ts"
proof (induction s arbitrary: ts rule: tokens.induct)
  case (2 c cs)
  show ?case
  proof (cases "jsonSpace c")
    case True
    with 2 show ?thesis by simp
  next
    case space: False
    show ?thesis
    proof (cases "punctuation c")
      case None
      with 2(4) space obtain v rest us where r: "readScalar (c # cs) = Some (v, rest)" "tokens rest = Some us" "ts = Scalar v # us"
        by (auto split: option.splits)
      with set_readScalar [OF r(1)] 2(5) have "CHR ''}'' \<notin> set rest" by auto
      with 2(2) [OF space None r(1) refl r(2)] r(3) show ?thesis by simp
    next
      case (Some t)
      then have "t \<noteq> RBrace" using 2(5) by (auto simp: punctuation_def split: if_splits)
      with 2 space Some show ?thesis by auto
    qed
  qed
qed simp

fun unclosed :: "jsonState \<times> jsonFrame list \<Rightarrow> bool" where
  "unclosed (m, st) = ((case m of BeginKey \<Rightarrow> True | NextKey _ \<Rightarrow> True | AfterKey _ _ \<Rightarrow> True | _ \<Rightarrow> False)
     \<or> list_ex (\<lambda>f. case f of ObjectFrame _ _ \<Rightarrow> True | ArrayFrame _ \<Rightarrow> False) st)"

lemma jsonStep_unclosed:
  assumes "jsonStep t s = Some s'" "unclosed s" "t \<noteq> RBrace"
  shows "unclosed s'"
  using assms
  by (cases "(t, s)" rule: jsonStep.cases; cases t)
    (auto simp: beginValue_def afterKey_def split: if_splits jsonValue.splits elim!: endValue.elims)

lemma jsonRun_unclosed: "jsonRun ts s = Some s' \<Longrightarrow> unclosed s \<Longrightarrow> RBrace \<notin> set ts \<Longrightarrow> unclosed s'"
proof (induction ts arbitrary: s)
  case (Cons t ts)
  then obtain s1 where "jsonStep t s = Some s1" "jsonRun ts s1 = Some s'" by (auto simp: bind_eq_Some_conv)
  moreover have "t \<noteq> RBrace" "RBrace \<notin> set ts" using Cons.prems(3) by auto
  ultimately show ?case using Cons.IH Cons.prems(2) jsonStep_unclosed by blast
qed simp

lemma jsonParse_unclosed:
  assumes "CHR ''}'' \<notin> set cs"
  shows "jsonParse (CHR ''{'' # cs) = None"
proof (cases "tokens cs")
  case None
  then show ?thesis by (simp add: jsonParse_def tokens_punctuation del: tokens.simps)
next
  case (Some ts)
  have "unclosed s'" if "jsonRun ts (BeginKey, []) = Some s'" for s'
    using jsonRun_unclosed [OF that] tokens_no_brace [OF Some assms] by simp
  then show ?thesis
    using Some by (fastforce simp: jsonParse_def tokens_punctuation beginValue_def maxNestingDepth_def
      simp del: tokens.simps split: option.splits prod.splits jsonState.splits list.splits)
qed

end
