(* ===== verification/Middleware.thy ===== *)
theory Middleware
  imports Hmac Nonce Rate_Limit Go_Json
begin

text \<open>
  Model of \<open>src/internal/security/request.go\<close> and \<open>middleware.go\<close>: the validation of a request (body
  size, signature, nonce, rate) and the HTTP middleware that lets only validated requests through
  to a handler. The random bytes of the request id and the clock are arguments.
\<close>

section \<open>Requests\<close>

text \<open>
  The fields of \<open>http.Request\<close> the code reads. The body is what its reader delivers: the bytes and
  the error, if any, that follows them.
\<close>

record HttpRequest =
  rq_Method :: string
  rq_Path :: string
  rq_Header :: "(string \<times> string) list"
  rq_RemoteAddr :: string
  rq_ContentLength :: int
  rq_Body :: "byte list"
  rq_BodyErr :: "error option"

text \<open>\<open>Header.Get\<close>: the first value under the name, whatever its case.\<close>

definition headerGet :: "HttpRequest \<Rightarrow> string \<Rightarrow> string" where
  "headerGet r name = (case find (\<lambda>(k, v). EqualFold k name) (rq_Header r) of
     Some (k, v) \<Rightarrow> v | None \<Rightarrow> [])"

text \<open>\<open>io.ReadAll(io.LimitReader(r.Body, n))\<close>\<close>

definition readLimited :: "int \<Rightarrow> HttpRequest \<Rightarrow> byte list result" where
  "readLimited n r = (if int (length (rq_Body r)) \<ge> n then Inr (take (nat n) (rq_Body r))
     else case rq_BodyErr r of None \<Rightarrow> Inr (rq_Body r) | Some e \<Rightarrow> Inl e)"

record RequestContext =
  rc_RequestID :: string
  rc_Timestamp :: int
  rc_Nonce :: string
  rc_APIKey :: string
  rc_ClientIP :: string
  rc_UserAgent :: string
  rc_Path :: string
  rc_Method :: string
  rc_BodyHash :: string
  rc_Validated :: bool
  rc_StartTime :: instant

definition generateRequestID :: "instant \<Rightarrow> byte list option \<Rightarrow> string" where
  "generateRequestID now rnd = (let nonce = GenerateNonce now rnd in
     ''req-'' @ FormatInt (wrap64 now) @ ''-'' @
       hexEncodeToString (stringBytes (if length nonce > 8 then take 8 nonce else nonce)))"

definition getClientIP :: "HttpRequest \<Rightarrow> string" where
  "getClientIP r =
     (if headerGet r ''X-Forwarded-For'' \<noteq> [] then headerGet r ''X-Forwarded-For''
      else if headerGet r ''X-Real-IP'' \<noteq> [] then headerGet r ''X-Real-IP''
      else rq_RemoteAddr r)"

section \<open>The validator\<close>

record 's RequestValidator =
  rv_hmac :: HMACValidator
  rv_nonceStore :: "'s nonceStore"
  rv_nonceTTL :: duration
  rv_nonces :: 's
  rv_limiter :: rateLimiter
  rv_maxBodySize :: int

record 's RequestValidatorConfig =
  vc_HMACSecret :: string
  vc_HMACMaxSkew :: int
  vc_NonceStore :: "'s nonceStore"
  vc_Nonces :: 's
  vc_NonceTTL :: duration
  vc_RateLimit :: int
  vc_RateWindow :: duration
  vc_RateLimiterType :: string
  vc_MaxBodySize :: int
  vc_OldSecret :: string

definition NewRequestValidator :: "'s RequestValidatorConfig \<Rightarrow> 's RequestValidator" where
  "NewRequestValidator c = (let h = NewHMACValidator (vc_HMACSecret c) (vc_HMACMaxSkew c);
       m = NewNonceManager (vc_NonceStore c) (vc_NonceTTL c) in
     \<lparr>rv_hmac = (if vc_OldSecret c \<noteq> [] then SetOldSecret (vc_OldSecret c) h else h),
      rv_nonceStore = nm_store m, rv_nonceTTL = nm_ttl m, rv_nonces = vc_Nonces c,
      rv_limiter = NewRateLimiter (vc_RateLimiterType c) (vc_RateLimit c) (vc_RateWindow c),
      rv_maxBodySize = vc_MaxBodySize c\<rparr>)"

text \<open>
  The credentials of a request: timestamp, nonce, signature, and whether they come from the legacy
  headers, which are read only when none of the current ones is set.
\<close>

definition credentials :: "HttpRequest \<Rightarrow> string \<times> string \<times> string \<times> bool" where
  "credentials r = (let
     tsStr = headerGet r ''X-Request-Timestamp'';
     nonce = headerGet r ''X-Request-Nonce'';
     hmacHeader = headerGet r ''X-Request-Signature''
     in if tsStr = [] \<and> nonce = [] \<and> hmacHeader = []
        then (headerGet r ''x-ts'', headerGet r ''x-nonce'', headerGet r ''x-signer-hmac'',
              headerGet r ''x-signer-hmac'' \<noteq> [])
        else (tsStr, nonce, hmacHeader, False))"

definition checkSignature :: "instant \<Rightarrow> HMACValidator \<Rightarrow> HttpRequest \<Rightarrow> byte list \<Rightarrow> error option" where
  "checkSignature now h r body = (case credentials r of (tsStr, nonce, hmacHeader, legacy) \<Rightarrow>
     if legacy then ValidateRawBodyHMAC now h tsStr nonce hmacHeader body
     else ValidateHMAC now h tsStr nonce hmacHeader body)"

definition initialContext :: "instant \<Rightarrow> byte list option \<Rightarrow> HttpRequest \<Rightarrow> RequestContext" where
  "initialContext now rnd r = \<lparr>rc_RequestID = generateRequestID now rnd, rc_Timestamp = 0, rc_Nonce = [],
     rc_APIKey = [], rc_ClientIP = getClientIP r, rc_UserAgent = headerGet r ''User-Agent'',
     rc_Path = rq_Path r, rc_Method = rq_Method r, rc_BodyHash = [], rc_Validated = False, rc_StartTime = now\<rparr>"

definition rateKey :: "RequestContext \<Rightarrow> string" where
  "rateKey ctx = (if rc_APIKey ctx \<noteq> [] then rc_APIKey ctx else rc_ClientIP ctx)"

text \<open>
  \<open>ValidateRequest\<close>: the context with a nil error or the error, the request whose body is replaced
  by the bytes read, and the validator with its nonce store and limiter after the call.
\<close>

definition ValidateRequest ::
    "instant \<Rightarrow> byte list option \<Rightarrow> HttpRequest \<Rightarrow> 's RequestValidator \<Rightarrow>
      (RequestContext \<times> error option) \<times> HttpRequest \<times> 's RequestValidator" where
  "ValidateRequest now rnd r rv = (let ctx0 = initialContext now rnd r in
     if rv_maxBodySize rv > 0 \<and> rq_ContentLength r > rv_maxBodySize rv
     then ((ctx0, Some (Err (''body size exceeds limit: '' @ FormatInt (rq_ContentLength r) @ '' > ''
             @ FormatInt (rv_maxBodySize rv)))), r, rv)
     else case readLimited (rv_maxBodySize rv) r of
       Inl e \<Rightarrow> ((ctx0, Some (Wrap ''failed to read body'' e)), r, rv)
     | Inr body \<Rightarrow> (let
         r1 = r\<lparr>rq_Body := body, rq_BodyErr := None\<rparr>;
         (tsStr, nonce, hmacHeader, legacy) = credentials r;
         ctx1 = ctx0\<lparr>rc_BodyHash := hexEncodeToString (sha256 body), rc_APIKey := headerGet r ''X-API-Key''\<rparr>
         in case (if hmacHeader \<noteq> [] then checkSignature now (rv_hmac rv) r body else None) of
           Some e \<Rightarrow> ((ctx1, Some (Wrap ''hmac validation failed'' e)), r1, rv)
         | None \<Rightarrow> (let
             ctx2 = ctx1\<lparr>rc_Validated := (hmacHeader \<noteq> [])\<rparr>;
             (nonceErr, nonces) = (if nonce \<noteq> []
               then ValidateNonce (rv_nonceStore rv) (rv_nonceTTL rv) now nonce (rv_nonces rv)
               else (None, rv_nonces rv));
             rv1 = rv\<lparr>rv_nonces := nonces\<rparr>
             in case nonceErr of
               Some e \<Rightarrow> ((ctx2, Some (Wrap ''nonce validation failed'' e)), r1, rv1)
             | None \<Rightarrow> (let
                 (allowed, limiter) = limiter_Allow now (rateKey ctx2) (rv_limiter rv1);
                 rv2 = rv1\<lparr>rv_limiter := limiter\<rparr>
                 in if \<not> allowed
                    then ((ctx2, Some (Err (''rate limit exceeded for key: '' @ rateKey ctx2))), r1, rv2)
                    else ((ctx2\<lparr>rc_Timestamp := (if tsStr \<noteq> [] then fst (ParseInt64 tsStr) else 0),
                                rc_Nonce := nonce\<rparr>, None), r1, rv2)))))"

section \<open>The middleware\<close>

record SecurityOptions =
  so_Enabled :: bool
  so_RequireHMAC :: bool
  so_RequireNonce :: bool
  so_RequireAPIKey :: bool
  so_AllowedMethods :: "string list"
  so_ExcludePaths :: "string list"

text \<open>
  What the middleware does with a request: hand it to the next handler with the context it puts
  into the request, or answer with a status and a text, in plain text (\<open>Refuse\<close>, a call of \<open>http.Error\<close>) or as
  JSON (\<open>Reject\<close>, a call of \<open>respondWithError\<close>).
\<close>

datatype verdict = Forward HttpRequest "RequestContext option" | Refuse int string | Reject int string

definition isExcluded :: "SecurityOptions \<Rightarrow> string \<Rightarrow> bool" where
  "isExcluded opts path = (path \<in> set (so_ExcludePaths opts))"

definition isMethodAllowed :: "SecurityOptions \<Rightarrow> string \<Rightarrow> bool" where
  "isMethodAllowed opts method = (so_AllowedMethods opts = [] \<or> method \<in> set (so_AllowedMethods opts))"

definition Handler ::
    "SecurityOptions \<Rightarrow> instant \<Rightarrow> byte list option \<Rightarrow> HttpRequest \<Rightarrow> 's RequestValidator \<Rightarrow>
      verdict \<times> 's RequestValidator" where
  "Handler opts now rnd r rv =
     (if isExcluded opts (rq_Path r) then (Forward r None, rv)
      else if \<not> isMethodAllowed opts (rq_Method r) then (Refuse 405 ''Method not allowed'', rv)
      else if \<not> so_Enabled opts then (Forward r None, rv)
      else case ValidateRequest now rnd r rv of
        ((ctx, Some e), r1, rv1) \<Rightarrow> (Reject 401 (errorText e), rv1)
      | ((ctx, None), r1, rv1) \<Rightarrow>
          if so_RequireHMAC opts \<and> \<not> rc_Validated ctx then (Reject 401 ''HMAC signature required'', rv1)
          else if so_RequireNonce opts \<and> rc_Nonce ctx = [] then (Reject 401 ''nonce required'', rv1)
          else if so_RequireAPIKey opts \<and> rc_APIKey ctx = [] then (Reject 401 ''API key required'', rv1)
          else (Forward r1 (Some ctx), rv1))"

text \<open>\<open>SecurityMiddleware\<close>, the simpler middleware of the validator.\<close>

definition SecurityMiddleware ::
    "instant \<Rightarrow> byte list option \<Rightarrow> HttpRequest \<Rightarrow> 's RequestValidator \<Rightarrow> verdict \<times> 's RequestValidator" where
  "SecurityMiddleware now rnd r rv = (case ValidateRequest now rnd r rv of
     ((ctx, Some e), r1, rv1) \<Rightarrow> (Refuse 401 (''Security validation failed: '' @ errorText e), rv1)
   | ((ctx, None), r1, rv1) \<Rightarrow> (Forward r1 (Some ctx), rv1))"

section \<open>Lemmas\<close>

lemma initialContext_simps [simp]:
  "rc_Validated (initialContext now rnd r) = False" "rc_ClientIP (initialContext now rnd r) = getClientIP r"
  by (simp_all add: initialContext_def)

text \<open>What an accepted request has passed.\<close>

lemma ValidateRequest_ok:
  assumes "ValidateRequest now rnd r rv = ((ctx, None), r1, rv1)"
    and "credentials r = (tsStr, nonce, hmacHeader, legacy)"
  shows "rc_Validated ctx = (hmacHeader \<noteq> []) \<and> rc_Nonce ctx = nonce \<and>
    readLimited (rv_maxBodySize rv) r = Inr (rq_Body r1) \<and> rq_BodyErr r1 = None \<and>
    rc_BodyHash ctx = hexEncodeToString (sha256 (rq_Body r1)) \<and>
    (hmacHeader \<noteq> [] \<longrightarrow> checkSignature now (rv_hmac rv) r (rq_Body r1) = None) \<and>
    (nonce \<noteq> [] \<longrightarrow> ValidateNonce (rv_nonceStore rv) (rv_nonceTTL rv) now nonce (rv_nonces rv) = (None, rv_nonces rv1))"
  using assms unfolding ValidateRequest_def
  by (auto simp: Let_def split: if_splits sum.splits option.splits prod.splits)








lemma ValidateRequest_accept:
  assumes "\<not> (rv_maxBodySize rv > 0 \<and> rq_ContentLength r > rv_maxBodySize rv)"
    and "readLimited (rv_maxBodySize rv) r = Inr body"
    and "credentials r = (tsStr, nonce, hdr, legacy)" and "hdr \<noteq> []" and "nonce \<noteq> []"
    and "checkSignature now (rv_hmac rv) r body = None"
    and "ValidateNonce (rv_nonceStore rv) (rv_nonceTTL rv) now nonce (rv_nonces rv) = (None, ns)"
    and "limiter_Allow now (if headerGet r ''X-API-Key'' \<noteq> [] then headerGet r ''X-API-Key'' else getClientIP r)
      (rv_limiter rv) = (True, l)"
  shows "\<exists>ctx. ValidateRequest now rnd r rv = ((ctx, None), r\<lparr>rq_Body := body, rq_BodyErr := None\<rparr>,
      rv\<lparr>rv_nonces := ns, rv_limiter := l\<rparr>) \<and> rc_Validated ctx \<and> rc_Nonce ctx = nonce \<and>
      rc_APIKey ctx = headerGet r ''X-API-Key''"
proof -
  let ?ctx = "(initialContext now rnd r)\<lparr>rc_BodyHash := hexEncodeToString (sha256 body),
    rc_APIKey := headerGet r ''X-API-Key'', rc_Validated := True\<rparr>"
  have "rateKey ?ctx = (if headerGet r ''X-API-Key'' \<noteq> [] then headerGet r ''X-API-Key'' else getClientIP r)"
    by (simp add: rateKey_def)
  with assms show ?thesis by (simp add: ValidateRequest_def Let_def)
qed

section \<open>Properties\<close>

text \<open>
  With signatures and nonces required, the middleware hands a request on (outside the
  excluded paths) only after it verified the signature over exactly the body bytes the
  handler will read, and the nonce store accepted its nonce in this call; the context it passes
  says so.
\<close>

theorem middleware_forwards_only_authenticated:
  assumes "Handler opts now rnd r rv = (Forward r' c, rv')"
    and "\<not> isExcluded opts (rq_Path r)" and "so_Enabled opts" and "so_RequireHMAC opts" and "so_RequireNonce opts"
  shows "\<exists>ctx tsStr nonce hdr legacy. c = Some ctx \<and> credentials r = (tsStr, nonce, hdr, legacy) \<and>
    rc_Validated ctx \<and> rc_Nonce ctx = nonce \<and> nonce \<noteq> [] \<and>
    checkSignature now (rv_hmac rv) r (rq_Body r') = None \<and> rq_BodyErr r' = None \<and>
    ValidateNonce (rv_nonceStore rv) (rv_nonceTTL rv) now nonce (rv_nonces rv) = (None, rv_nonces rv')"
proof -
  obtain tsStr nonce hdr legacy where cr: "credentials r = (tsStr, nonce, hdr, legacy)" by (cases "credentials r") auto
  from assms obtain ctx where v: "ValidateRequest now rnd r rv = ((ctx, None), r', rv')"
      and c: "c = Some ctx" "rc_Validated ctx" "rc_Nonce ctx \<noteq> []"
    unfolding Handler_def by (auto split: prod.splits option.splits if_splits)
  from ValidateRequest_ok [OF v cr] c cr show ?thesis by auto
qed

text \<open>
  A request whose signature does not verify changes nothing: neither the nonce store nor the
  rate limiter is touched, and the answer is 401.
\<close>

theorem bad_signature_changes_nothing:
  assumes "credentials r = (tsStr, nonce, hdr, legacy)" and "hdr \<noteq> []"
    and "\<not> (rv_maxBodySize rv > 0 \<and> rq_ContentLength r > rv_maxBodySize rv)"
    and "readLimited (rv_maxBodySize rv) r = Inr body" and "checkSignature now (rv_hmac rv) r body = Some e"
    and "so_Enabled opts" and "\<not> isExcluded opts (rq_Path r)" and "isMethodAllowed opts (rq_Method r)"
  shows "Handler opts now rnd r rv = (Reject 401 (''hmac validation failed: '' @ errorText e), rv)"
  using assms by (simp add: Handler_def ValidateRequest_def Let_def)

text \<open>
  A request without a signature but with a nonce consumes that nonce although the middleware
  rejects it: the nonce is checked before the missing signature is noticed.
\<close>

theorem unsigned_request_consumes_nonce:
  assumes "credentials r = (tsStr, nonce, [], legacy)" and "nonce \<noteq> []"
    and "\<not> (rv_maxBodySize rv > 0 \<and> rq_ContentLength r > rv_maxBodySize rv)"
    and "readLimited (rv_maxBodySize rv) r = Inr body"
    and "ValidateNonce (rv_nonceStore rv) (rv_nonceTTL rv) now nonce (rv_nonces rv) = (None, ns)"
    and "so_Enabled opts" and "so_RequireHMAC opts" and "\<not> isExcluded opts (rq_Path r)"
  shows "(\<nexists>q c. fst (Handler opts now rnd r rv) = Forward q c) \<and>
    (isMethodAllowed opts (rq_Method r) \<longrightarrow> rv_nonces (snd (Handler opts now rnd r rv)) = ns)"
proof -
  let ?ctx = "(initialContext now rnd r)\<lparr>rc_BodyHash := hexEncodeToString (sha256 body),
    rc_APIKey := headerGet r ''X-API-Key'', rc_Validated := False\<rparr>"
  obtain ok l where l: "limiter_Allow now (rateKey ?ctx) (rv_limiter rv) = (ok, l)" by fastforce
  obtain ctx e r1 where "ValidateRequest now rnd r rv = ((ctx, e), r1, rv\<lparr>rv_nonces := ns, rv_limiter := l\<rparr>)"
      "\<not> rc_Validated ctx"
    using assms(1-5) l by (cases ok) (simp_all add: ValidateRequest_def Let_def)
  then show ?thesis using assms(6-8) by (cases e) (simp_all add: Handler_def)
qed


text \<open>
  C35: Conversely a client that signs correctly gets through: a request with a verifying signature, a
  nonce the store takes, a body within the limit and a rate the limiter allows is handed to the
  handler with its whole body.
\<close>

theorem signed_request_forwarded:
  assumes "rq_BodyErr r = None" and "int (length (rq_Body r)) \<le> rv_maxBodySize rv"
    and "rq_ContentLength r \<le> rv_maxBodySize rv"
    and "credentials r = (tsStr, nonce, hdr, legacy)" and "hdr \<noteq> []" and "nonce \<noteq> []"
    and "checkSignature now (rv_hmac rv) r (rq_Body r) = None"
    and "ValidateNonce (rv_nonceStore rv) (rv_nonceTTL rv) now nonce (rv_nonces rv) = (None, ns)"
    and "limiter_Allow now (if headerGet r ''X-API-Key'' \<noteq> [] then headerGet r ''X-API-Key'' else getClientIP r)
      (rv_limiter rv) = (True, l)"
    and "isMethodAllowed opts (rq_Method r)" and "so_RequireAPIKey opts \<longrightarrow> headerGet r ''X-API-Key'' \<noteq> []"
    and "so_Enabled opts" and "\<not> isExcluded opts (rq_Path r)"
  shows "\<exists>ctx rv'. Handler opts now rnd r rv = (Forward r (Some ctx), rv') \<and> rc_Nonce ctx = nonce \<and> rv_nonces rv' = ns"
proof -
  have "readLimited (rv_maxBodySize rv) r = Inr (rq_Body r)" using assms(1,2) by (auto simp: readLimited_def)
  from ValidateRequest_accept [OF _ this assms(4-9), of rnd] assms(3) obtain ctx where
    "ValidateRequest now rnd r rv = ((ctx, None), r\<lparr>rq_Body := rq_Body r, rq_BodyErr := None\<rparr>,
      rv\<lparr>rv_nonces := ns, rv_limiter := l\<rparr>)" "rc_Validated ctx" "rc_Nonce ctx = nonce"
    "rc_APIKey ctx = headerGet r ''X-API-Key''" by auto
  moreover have "r\<lparr>rq_Body := rq_Body r, rq_BodyErr := None\<rparr> = r" using assms(1) by simp
  ultimately show ?thesis using assms(6,10-13) by (simp add: Handler_def)
qed

text \<open>Concrete data for the witnesses: one signed request and a validator with a given nonce lifetime.\<close>

definition demoBody :: "byte list" where
  "demoBody = stringBytes (jsonEncode (JObject [(''to'', JString ''0x7777777777777777777777777777777777777777''),
     (''amount'', JString ''12.5''), (''idempotencyKey'', JString ''k'')]))"

definition demoRequest :: "string \<Rightarrow> HttpRequest" where
  "demoRequest sig = \<lparr>rq_Method = ''POST'', rq_Path = ''/hd/transfer'',
     rq_Header = [(''x-request-timestamp'', ''1600''), (''X-Request-Nonce'', ''n1''), (''X-Request-Signature'', sig)],
     rq_RemoteAddr = ''10.0.0.1'', rq_ContentLength = 88, rq_Body = demoBody, rq_BodyErr = None\<rparr>"

definition demoConfig :: "duration \<Rightarrow> InMemoryNonceStore RequestValidatorConfig" where
  "demoConfig ttl = \<lparr>vc_HMACSecret = ''secret'', vc_HMACMaxSkew = 300, vc_NonceStore = inMemoryNonces,
     vc_Nonces = NewInMemoryNonceStore, vc_NonceTTL = ttl, vc_RateLimit = 100, vc_RateWindow = minute,
     vc_RateLimiterType = ''sliding_window'', vc_MaxBodySize = 1048576, vc_OldSecret = []\<rparr>"

definition demoRV :: "duration \<Rightarrow> InMemoryNonceStore RequestValidator" where
  "demoRV ttl = NewRequestValidator (demoConfig ttl)"

definition demoOpts :: SecurityOptions where
  "demoOpts = \<lparr>so_Enabled = True, so_RequireHMAC = True, so_RequireNonce = True, so_RequireAPIKey = False,
     so_AllowedMethods = [''POST'', ''GET''], so_ExcludePaths = [''/healthz'', ''/readyz'']\<rparr>"

definition demoSig :: string where
  "demoSig = GenerateHMAC ''secret'' ''1600'' ''n1'' demoBody"

lemma demoBody_length: "length demoBody = 88"
  by code_simp

lemma demo_credentials: "credentials (demoRequest sig) = (''1600'', ''n1'', sig, False)"
  by code_simp

lemma demo_client: "headerGet (demoRequest sig) ''X-API-Key'' = []" "getClientIP (demoRequest sig) = ''10.0.0.1''"
  by code_simp+

lemma demo_rv [simp]:
  "rv_hmac (demoRV ttl) = NewHMACValidator ''secret'' 300" "rv_nonceStore (demoRV ttl) = inMemoryNonces"
  "rv_nonceTTL (demoRV ttl) = ttl" "rv_nonces (demoRV ttl) = NewInMemoryNonceStore"
  "rv_maxBodySize (demoRV ttl) = 1048576" "rv_limiter (demoRV ttl) = SlidingWindowLimiter (NewSlidingWindow 100 minute)"
  by (simp_all add: demoRV_def demoConfig_def NewRequestValidator_def NewRateLimiter_def)

lemma demo_signature:
  assumes "skewSeconds now 1600 \<le> 300"
  shows "checkSignature now (NewHMACValidator ''secret'' 300) (demoRequest demoSig) demoBody = None"
proof -
  have "ParseInt64 ''1600'' = (1600, None)" by code_simp
  with assms show ?thesis
    by (simp add: checkSignature_def demo_credentials demoSig_def ValidateHMAC_None timestamp_ok_iff NewHMACValidator_def)
qed

lemma demo_skew: "skewSeconds 1300000000000 1600 \<le> 300" "skewSeconds 1601000000000 1600 \<le> 300"
  by code_simp+

lemma demo_ValidateNonce:
  "ValidateNonce inMemoryNonces ttl now ''n1'' NewInMemoryNonceStore =
     (None, \<lparr>im_store = [''n1'' \<mapsto> now + ttl], im_pending = []\<rparr>)"
  by (simp add: ValidateNonce_def inMemoryNonces_def im_Exists_def im_Store_def
      NewInMemoryNonceStore_def time_Add_def)

lemma demo_limiter:
  "limiter_Allow now key (SlidingWindowLimiter (NewSlidingWindow 100 minute)) =
     (True, SlidingWindowLimiter ((NewSlidingWindow 100 minute)\<lparr>sw_windows := [key \<mapsto> [now]]\<rparr>))"
  by (simp add: limiter_Allow_def sw_Allow_def sw_AllowWithLimit_def NewSlidingWindow_def)

lemmas demo_facts = demo_credentials demo_client demo_signature demo_skew demo_ValidateNonce demo_limiter

lemma demoSig_not_Nil [simp]: "demoSig \<noteq> []"
  by (simp add: demoSig_def)

theorem signed_request_forwarded_witness:
  "\<exists>ctx rv'. Handler demoOpts 1300000000000 None (demoRequest demoSig) (demoRV 300000000000)
      = (Forward (demoRequest demoSig) (Some ctx), rv') \<and> rc_Nonce ctx = ''n1'' \<and>
      rv_nonces rv' = \<lparr>im_store = [''n1'' \<mapsto> 1300000000000 + 300000000000], im_pending = []\<rparr>"
proof (rule signed_request_forwarded)
  show "credentials (demoRequest demoSig) = (''1600'', ''n1'', demoSig, False)" by (rule demo_credentials)
qed (simp_all add: demo_facts demoOpts_def isMethodAllowed_def isExcluded_def, simp_all add: demoRequest_def demo_facts demoBody_length
      demo_signature [unfolded demoRequest_def])

lemma demo_ValidateRequest:
  assumes "skewSeconds now 1600 \<le> 300"
  shows "\<exists>ctx. ValidateRequest now None (demoRequest demoSig) (demoRV ttl) = ((ctx, None), demoRequest demoSig,
    (demoRV ttl)\<lparr>rv_nonces := \<lparr>im_store = [''n1'' \<mapsto> now + ttl], im_pending = []\<rparr>,
      rv_limiter := SlidingWindowLimiter ((NewSlidingWindow 100 minute)\<lparr>sw_windows := [''10.0.0.1'' \<mapsto> [now]]\<rparr>)\<rparr>) \<and>
    rc_Validated ctx \<and> rc_Nonce ctx = ''n1''"
proof -
  have r: "readLimited 1048576 (demoRequest demoSig) = Inr demoBody" "rq_ContentLength (demoRequest demoSig) = 88"
    by (simp_all add: readLimited_def demoRequest_def demoBody_length)
  have "(demoRequest demoSig)\<lparr>rq_Body := demoBody, rq_BodyErr := None\<rparr> = demoRequest demoSig" by (simp add: demoRequest_def)
  then show ?thesis
    using ValidateRequest_accept [of "demoRV ttl" "demoRequest demoSig" demoBody "''1600''" "''n1''" demoSig False now
        "\<lparr>im_store = [''n1'' \<mapsto> now + ttl], im_pending = []\<rparr>"
        "SlidingWindowLimiter ((NewSlidingWindow 100 minute)\<lparr>sw_windows := [''10.0.0.1'' \<mapsto> [now]]\<rparr>)" None] assms r
    by (auto simp: demo_facts)
qed

theorem middleware_forwards_only_authenticated_witness:
  "checkSignature 1300000000000 (rv_hmac (demoRV 300)) (demoRequest demoSig) (rq_Body (demoRequest demoSig)) = None"
proof -
  obtain ctx rv' where "Handler demoOpts 1300000000000 None (demoRequest demoSig) (demoRV 300)
      = (Forward (demoRequest demoSig) (Some ctx), rv')"
    using demo_ValidateRequest [OF demo_skew(1), of 300]
    by (auto simp: Handler_def demoOpts_def isExcluded_def isMethodAllowed_def demoRequest_def)
  from middleware_forwards_only_authenticated [OF this] show ?thesis
    by (auto simp: demoOpts_def isExcluded_def demoRequest_def)
qed

theorem bad_signature_changes_nothing_witness:
  "Handler demoOpts 1300000000000 None (demoRequest ''bad'') (demoRV 300) =
     (Reject 401 (''hmac validation failed: '' @ errorText (Err ''assinatura HMAC invalida'')), demoRV 300)"
proof (rule bad_signature_changes_nothing)
  show "credentials (demoRequest ''bad'') = (''1600'', ''n1'', ''bad'', False)" by (rule demo_credentials)
  have "ParseInt64 ''1600'' = (1600, None)" by code_simp
  then have "validateTimestampInputs 1300000000000 (NewHMACValidator ''secret'' 300) ''1600'' ''n1'' ''bad'' = None"
    using demo_skew(1) by (simp add: timestamp_ok_iff NewHMACValidator_def)
  moreover have "''bad'' \<noteq> GenerateHMAC ''secret'' ''1600'' ''n1'' demoBody"
  proof
    assume "''bad'' = GenerateHMAC ''secret'' ''1600'' ''n1'' demoBody"
    then have "length ''bad'' = 64" by (simp only: length_GenerateHMAC)
    then show False by simp
  qed
  ultimately show "checkSignature 1300000000000 (rv_hmac (demoRV 300)) (demoRequest ''bad'') demoBody
      = Some (Err ''assinatura HMAC invalida'')"
    by (simp add: checkSignature_def demo_credentials ValidateHMAC_def validateWithSecret_def GenerateHMAC_def
        NewHMACValidator_def Let_def)
  show "readLimited (rv_maxBodySize (demoRV 300)) (demoRequest ''bad'') = Inr demoBody"
    by (simp add: readLimited_def demoRequest_def demoBody_length)
qed (simp_all add: demoRequest_def demoOpts_def isExcluded_def isMethodAllowed_def)

theorem unsigned_request_consumes_nonce_witness:
  "rv_nonces (snd (Handler demoOpts 1300000000000 None (demoRequest []) (demoRV 300))) =
     \<lparr>im_store = [''n1'' \<mapsto> 1300000000300], im_pending = []\<rparr>"
  using unsigned_request_consumes_nonce [OF demo_credentials, of "demoRV 300" demoBody 1300000000000
      "\<lparr>im_store = [''n1'' \<mapsto> 1300000000300], im_pending = []\<rparr>" demoOpts None]
  by (simp add: demo_ValidateNonce readLimited_def demoRequest_def demoBody_length demoOpts_def isExcluded_def isMethodAllowed_def)


text \<open>
  The default settings (nonce lifetime equal to the window, 300 seconds) do not give that guarantee. A request signed
  with a timestamp 300 seconds ahead is accepted; sent again 301 seconds later it is refused, because the expired entry is
  still there, but it starts the deletion of that entry; once that ran, the third copy is accepted.
\<close>

theorem default_lifetime_admits_replay:
  "\<exists>c1 rv1 rv2 rv3 c3 rv4.
    ValidateRequest 1300000000000 None (demoRequest demoSig) (demoRV (300 * second)) = ((c1, None), demoRequest demoSig, rv1) \<and>
    rv2 = snd (snd (ValidateRequest 1601000000000 None (demoRequest demoSig) rv1)) \<and> im_pending (rv_nonces rv2) = [''n1''] \<and>
    rv3 = rv2\<lparr>rv_nonces := runDelete ''n1'' (rv_nonces rv2)\<rparr> \<and>
    ValidateRequest 1601000000000 None (demoRequest demoSig) rv3 = ((c3, None), demoRequest demoSig, rv4)"
proof -
  let ?ns = "\<lparr>im_store = [''n1'' \<mapsto> 1600000000000], im_pending = []\<rparr>"
  let ?l = "(NewSlidingWindow 100 minute)\<lparr>sw_windows := [''10.0.0.1'' \<mapsto> [1300000000000]]\<rparr>"
  let ?rv = "(demoRV (300 * second))\<lparr>rv_nonces := ?ns, rv_limiter := SlidingWindowLimiter ?l\<rparr>"
  let ?rv2 = "?rv\<lparr>rv_nonces := ?ns\<lparr>im_pending := [''n1'']\<rparr>\<rparr>"
  let ?rv3 = "?rv\<lparr>rv_nonces := NewInMemoryNonceStore\<rparr>"
  obtain c1 where v1: "ValidateRequest 1300000000000 None (demoRequest demoSig) (demoRV (300 * second))
      = ((c1, None), demoRequest demoSig, ?rv)"
    using demo_ValidateRequest [OF demo_skew(1), of "300 * second"] by (auto simp: second_def)
  have r: "readLimited 1048576 (demoRequest demoSig) = Inr demoBody" "rq_ContentLength (demoRequest demoSig) = 88"
    "(demoRequest demoSig)\<lparr>rq_Body := demoBody, rq_BodyErr := None\<rparr> = demoRequest demoSig"
    by (simp_all add: readLimited_def demoRequest_def demoBody_length)
  have n2: "ValidateNonce inMemoryNonces (300 * second) 1601000000000 ''n1'' ?ns =
      (Some (Wrap ''erro ao armazenar nonce'' (Err (''nonce j'' @ aAcute @ '' existe''))), ?ns\<lparr>im_pending := [''n1'']\<rparr>)"
    by (simp add: ValidateNonce_def inMemoryNonces_def im_Exists_def im_Store_def)
  have v2: "snd (snd (ValidateRequest 1601000000000 None (demoRequest demoSig) ?rv)) = ?rv2"
    using n2 r by (simp add: ValidateRequest_def demo_facts Let_def)
  have l: "limiter_Allow 1601000000000 ''10.0.0.1'' (SlidingWindowLimiter ?l) =
      (True, SlidingWindowLimiter (?l\<lparr>sw_windows := [''10.0.0.1'' \<mapsto> [1601000000000]]\<rparr>))"
    by (simp add: limiter_Allow_def sw_Allow_def sw_AllowWithLimit_def NewSlidingWindow_def minute_def wrap64_def time_Add_def)
  obtain c3 rv4 where v3: "ValidateRequest 1601000000000 None (demoRequest demoSig) ?rv3 = ((c3, None), demoRequest demoSig, rv4)"
    using ValidateRequest_accept [of ?rv3 "demoRequest demoSig" demoBody "''1600''" "''n1''" demoSig False 1601000000000 _ _ None]
      l r by (force simp: demo_credentials demo_client demo_signature demo_skew demo_ValidateNonce)
  have p: "im_pending (rv_nonces ?rv2) = [''n1'']" by simp
  have d: "?rv3 = ?rv2\<lparr>rv_nonces := runDelete ''n1'' (rv_nonces ?rv2)\<rparr>"
    by (simp add: im_defs NewInMemoryNonceStore_def)
  show ?thesis
    by (rule exI, rule exI, rule exI, rule exI, rule exI, rule exI) (rule conjI [OF v1 conjI [OF v2 [symmetric] conjI [OF p conjI [OF d v3]]]])
qed

end
