(* ===== verification/Custody_Guard.thy ===== *)
theory Custody_Guard
  imports Signer_Store
begin

text \<open>
  Model of \<open>src/custody_guard.go\<close>: the guard that watches EIP-7702 authorisations of protected wallets
  and locks the signer. The guard's atomics are fields of a record, its store is threaded beside it
  (\<open>None\<close> where the field \<open>store\<close> is nil), and the RPC network is an argument: what the nodes behind
  the configured URLs answer during the call, \<open>None\<close> when dialling or the call fails.
\<close>

section \<open>Data\<close>

record CustodyGuard =
  cg_cfg :: SignerConfig
  cg_protected :: "address set"
  cg_trusted :: "(address \<times> hash) list"
  cg_selectors :: "byte list set"
  cg_locked :: bool
  cg_reason :: string

text \<open>The parts of a transaction the guard inspects; \<open>None\<close> is a nil transaction.\<close>

record guardTx =
  gt_type :: nat
  gt_data :: "byte list"
  gt_auths :: "setCodeAuth list"
  gt_hash :: hash

record guardNet =
  net_block :: "string \<Rightarrow> string \<Rightarrow> guardTx option list option"
  net_codeAt :: "string \<Rightarrow> address \<Rightarrow> byte list option"

definition setCodeTxType :: nat where "setCodeTxType = 4"

definition eip7702DelegationPrefix :: string where
  "eip7702DelegationPrefix = ''0xef0100''"

section \<open>Construction\<close>

definition parseAddressSet :: "geth \<Rightarrow> string \<Rightarrow> address list" where
  "parseAddressSet eth raw = remdups (map (HexToAddress eth)
     (filter (IsHexAddress eth) (map TrimSpace (Split raw CHR '',''))))"

definition parseSelector :: "geth \<Rightarrow> string \<Rightarrow> byte list option" where
  "parseSelector eth part = (let item = TrimPrefix (TrimSpace part) ''0x'' in
     if length item \<noteq> 8 then None
     else case HexutilDecode eth (''0x'' @ item) of
       Inl _ \<Rightarrow> None
     | Inr bytes \<Rightarrow> if length bytes \<noteq> 4 then None else Some bytes)"

definition parseSelectorSet :: "geth \<Rightarrow> string \<Rightarrow> byte list set" where
  "parseSelectorSet eth raw = set (List.map_filter (parseSelector eth) (Split raw CHR '',''))"

definition NewCustodyGuard :: "geth \<Rightarrow> SignerConfig \<Rightarrow> CustodyGuard result" where
  "NewCustodyGuard eth cfg = (let
     listed = set (parseAddressSet eth (CustodyProtectedRaw cfg));
     key = (if EVMPrivateKey cfg = [] then Inr listed
       else case HexToECDSA eth (TrimPrefix (EVMPrivateKey cfg) ''0x'') of
         Inl e \<Rightarrow> Inl e
       | Inr privateKey \<Rightarrow> Inr (insert (PubkeyToAddress eth privateKey) listed))
     in case key of
       Inl e \<Rightarrow> Inl e
     | Inr protected \<Rightarrow>
         if protected = {} then Inl (Err ''custody guard sem wallet protegida'')
         else Inr \<lparr>cg_cfg = cfg, cg_protected = protected,
           cg_trusted = map (\<lambda>a. (a, zeroHash)) (parseAddressSet eth (CustodyTrustedRaw cfg)),
           cg_selectors = parseSelectorSet eth (CustodySelectorsRaw cfg), cg_locked = False, cg_reason = []\<rparr>)"

section \<open>Locking\<close>

text \<open>A call on the store when there is one.\<close>

definition onStored :: "(signerStore \<Rightarrow> 'a \<times> signerStore) \<Rightarrow> 'a \<Rightarrow> signerStore option \<Rightarrow> 'a \<times> signerStore option" where
  "onStored f skipped st = (case st of None \<Rightarrow> (skipped, None) | Some s \<Rightarrow> (let (a, s') = f s in (a, Some s')))"

definition guardMode :: "CustodyGuard \<Rightarrow> string" where
  "guardMode g = normalizeCustodyMode (CustodyMode (cg_cfg g))"

definition recordEvent ::
    "CustodyGuard \<Rightarrow> string \<Rightarrow> string \<Rightarrow> string \<Rightarrow> string \<Rightarrow> signerStore option \<Rightarrow> signerStore option" where
  "recordEvent g kind reason txHash wallet st = snd (onStored (RecordCustodyEvent
     \<lparr>ev_Kind = kind, ev_Reason = reason, ev_Mode = guardMode g, ev_TxHash = txHash, ev_Wallet = wallet, ev_Data = []\<rparr>) None st)"

definition Enabled :: "CustodyGuard option \<Rightarrow> bool" where
  "Enabled g = (case g of None \<Rightarrow> False | Some g \<Rightarrow> CustodyGuardEnabled (cg_cfg g))"

definition Locked :: "CustodyGuard option \<Rightarrow> bool \<times> string" where
  "Locked g = (case g of None \<Rightarrow> (False, []) | Some g \<Rightarrow> (cg_locked g, cg_reason g))"

definition Lock :: "instant \<Rightarrow> string \<Rightarrow> CustodyGuard \<times> signerStore option \<Rightarrow> CustodyGuard \<times> signerStore option" where
  "Lock now reason gs = (case gs of (g, st) \<Rightarrow> (let st1 = recordEvent g ''signer_locked'' reason [] [] st in
     if guardMode g = ''shadow'' then (g, st1)
     else (g\<lparr>cg_locked := True, cg_reason := reason\<rparr>,
           snd (onStored (OpenCustodyIncident now reason (guardMode g)) None st1))))"

text \<open>\<open>Unlock\<close> returns a nil error (\<open>None\<close>) or the error; a nil guard unlocks trivially.\<close>

definition unlocked :: "string \<Rightarrow> CustodyGuard \<Rightarrow> signerStore option \<Rightarrow> error option \<times> CustodyGuard \<times> signerStore option" where
  "unlocked note g st = (let g' = g\<lparr>cg_locked := False, cg_reason := []\<rparr> in
     (None, g', recordEvent g' ''signer_unlocked'' note [] [] st))"

definition Unlock ::
    "instant \<Rightarrow> string \<Rightarrow> CustodyGuard \<times> signerStore option \<Rightarrow> error option \<times> CustodyGuard \<times> signerStore option" where
  "Unlock now note gs = (case gs of
     (g, None) \<Rightarrow> unlocked note g None
   | (g, Some s) \<Rightarrow> (case ActiveCustodyIncident s of
       (Inl e, s1) \<Rightarrow> (Some e, g, Some s1)
     | (Inr None, s1) \<Rightarrow> unlocked note g (Some s1)
     | (Inr (Some incident), s1) \<Rightarrow> (let cooldown = wrap64 (CustodyUnlockCooldown (cg_cfg g) * second) in
         if cooldown > 0 \<and> time_Sub now (inc_CreatedAt incident) < cooldown
         then (Some (Err ''cooldown de custodia ainda ativo''), g, Some s1)
         else case ResolveCustodyIncident now note s1 of
           (Some e, s2) \<Rightarrow> (Some e, g, Some s2)
         | (None, s2) \<Rightarrow> unlocked note g (Some s2))))"

definition UnlockGuard ::
    "instant \<Rightarrow> string \<Rightarrow> CustodyGuard option \<Rightarrow> signerStore option \<Rightarrow>
      error option \<times> CustodyGuard option \<times> signerStore option" where
  "UnlockGuard now note g st = (case g of None \<Rightarrow> (None, None, st)
     | Some g \<Rightarrow> (let (e, g', st') = Unlock now note (g, st) in (e, Some g', st')))"

section \<open>Scanning\<close>

fun firstAnswer :: "(string \<Rightarrow> 'a option) \<Rightarrow> string list \<Rightarrow> 'a option" where
  "firstAnswer ask [] = None"
| "firstAnswer ask (url # urls) = (case ask url of Some a \<Rightarrow> Some a | None \<Rightarrow> firstAnswer ask urls)"

definition codeAtAnyRPC :: "guardNet \<Rightarrow> CustodyGuard \<Rightarrow> address \<Rightarrow> byte list result" where
  "codeAtAnyRPC net g address = (case firstAnswer (\<lambda>url. net_codeAt net url address) (RPCURLs (cg_cfg g)) of
     Some code \<Rightarrow> Inr code | None \<Rightarrow> Inl (Err ''sem RPC para ler bytecode''))"

definition verifyDelegateHash :: "geth \<Rightarrow> guardNet \<Rightarrow> CustodyGuard \<Rightarrow> address \<Rightarrow> hash \<Rightarrow> error option" where
  "verifyDelegateHash eth net g delegate expected =
     (case firstAnswer (\<lambda>url. net_codeAt net url delegate) (RPCURLs (cg_cfg g)) of
        Some code \<Rightarrow> if Keccak256 eth code \<noteq> expected then Some (Err (AddressHex eth delegate)) else None
      | None \<Rightarrow> Some (Err (''sem RPC para verificar delegate '' @ AddressHex eth delegate)))"

definition calldataSelector :: "byte list \<Rightarrow> byte list" where
  "calldataSelector data = take 4 (data @ replicate 4 0)"

text \<open>The loop of \<open>inspectTransaction\<close> over the authorisations.\<close>

fun inspectAuths ::
    "geth \<Rightarrow> guardNet \<Rightarrow> instant \<Rightarrow> string \<Rightarrow> guardTx \<Rightarrow> setCodeAuth list \<Rightarrow>
      CustodyGuard \<times> signerStore option \<Rightarrow> CustodyGuard \<times> signerStore option" where
  "inspectAuths eth net now source tx [] gs = gs"
| "inspectAuths eth net now source tx (auth # auths) (g, st) = (case Authority eth auth of
     Inl _ \<Rightarrow> inspectAuths eth net now source tx auths (g, st)
   | Inr authority \<Rightarrow>
       if authority \<notin> cg_protected g then inspectAuths eth net now source tx auths (g, st)
       else let h = HashHex eth (gt_hash tx); w = AddressHex eth authority in
         if cg_selectors g \<noteq> {} \<and> calldataSelector (gt_data tx) \<notin> cg_selectors g
         then Lock now (''EIP-7702 selector nao permitido source='' @ source @ '' tx='' @ h)
           (g, recordEvent g ''unknown_selector'' ''EIP-7702 selector nao permitido'' h w st)
         else case map_of (cg_trusted g) (auth_address auth) of
           None \<Rightarrow> Lock now (''EIP-7702 delegate desconhecido source='' @ source @ '' wallet='' @ w
               @ '' delegate='' @ AddressHex eth (auth_address auth) @ '' tx='' @ h)
             (g, recordEvent g ''unknown_delegate'' ''EIP-7702 delegate desconhecido'' h w st)
         | Some expectedHash \<Rightarrow>
             if expectedHash \<noteq> zeroHash then
               (case verifyDelegateHash eth net g (auth_address auth) expectedHash of
                  Some e \<Rightarrow> Lock now (''EIP-7702 delegate hash alterado: '' @ errorText e) (g, st)
                | None \<Rightarrow> inspectAuths eth net now source tx auths (g, st))
             else inspectAuths eth net now source tx auths (g, st))"

definition inspectTransaction ::
    "geth \<Rightarrow> guardNet \<Rightarrow> instant \<Rightarrow> string \<Rightarrow> guardTx option \<Rightarrow>
      CustodyGuard \<times> signerStore option \<Rightarrow> CustodyGuard \<times> signerStore option" where
  "inspectTransaction eth net now source tx gs = (case tx of
     None \<Rightarrow> gs
   | Some t \<Rightarrow> if gt_type t \<noteq> setCodeTxType then gs else inspectAuths eth net now source t (gt_auths t) gs)"

fun inspectAll ::
    "geth \<Rightarrow> guardNet \<Rightarrow> instant \<Rightarrow> string \<Rightarrow> guardTx option list \<Rightarrow>
      CustodyGuard \<times> signerStore option \<Rightarrow> CustodyGuard \<times> signerStore option" where
  "inspectAll eth net now tag [] gs = gs"
| "inspectAll eth net now tag (tx # txs) gs = (let gs1 = inspectTransaction eth net now tag tx gs in
     if cg_locked (fst gs1) then gs1 else inspectAll eth net now tag txs gs1)"

definition scanBlockTag ::
    "geth \<Rightarrow> guardNet \<Rightarrow> instant \<Rightarrow> string \<Rightarrow> CustodyGuard \<times> signerStore option \<Rightarrow>
      error option \<times> CustodyGuard \<times> signerStore option" where
  "scanBlockTag eth net now tag gs =
     (case firstAnswer (\<lambda>url. net_block net url tag) (RPCURLs (cg_cfg (fst gs))) of
        Some txs \<Rightarrow> (None, inspectAll eth net now tag txs gs)
      | None \<Rightarrow> (Some (Err ''nenhum RPC respondeu eth_getBlockByNumber''), gs))"

definition scanOnce ::
    "geth \<Rightarrow> guardNet \<Rightarrow> instant \<Rightarrow> CustodyGuard \<times> signerStore option \<Rightarrow> CustodyGuard \<times> signerStore option" where
  "scanOnce eth net now gs =
     (if cg_locked (fst gs) then gs
      else let gs1 = snd (scanBlockTag eth net now ''pending'' gs) in
        if cg_locked (fst gs1) then gs1 else snd (scanBlockTag eth net now ''latest'' gs1))"

section \<open>Start-up\<close>

text \<open>
  \<open>loadTrustedDelegateHashes\<close> ranges over the trusted delegates, here in the order of the list.
  The first error stops it; the hashes read before stay.
\<close>

fun loadHashes :: "geth \<Rightarrow> guardNet \<Rightarrow> CustodyGuard \<Rightarrow> (address \<times> hash) list \<Rightarrow> error option \<times> (address \<times> hash) list" where
  "loadHashes eth net g [] = (None, [])"
| "loadHashes eth net g ((delegate, h) # rest) = (case codeAtAnyRPC net g delegate of
     Inl e \<Rightarrow> (Some e, (delegate, h) # rest)
   | Inr code \<Rightarrow>
       if code = [] then (Some (Err (''trusted delegate sem bytecode: '' @ AddressHex eth delegate)), (delegate, h) # rest)
       else let (e, rest') = loadHashes eth net g rest in (e, (delegate, Keccak256 eth code) # rest'))"

definition loadTrustedDelegateHashes :: "geth \<Rightarrow> guardNet \<Rightarrow> CustodyGuard \<Rightarrow> error option \<times> CustodyGuard" where
  "loadTrustedDelegateHashes eth net g = (let (e, trusted) = loadHashes eth net g (cg_trusted g) in
     (e, g\<lparr>cg_trusted := trusted\<rparr>))"

text \<open>
  \<open>Start\<close> up to its ticker loop: whether the loop is entered, and the guard and store then. An
  iteration of the loop is \<open>scanOnce\<close>.
\<close>

definition Start ::
    "geth \<Rightarrow> guardNet \<Rightarrow> instant \<Rightarrow> CustodyGuard \<times> signerStore option \<Rightarrow> bool \<times> CustodyGuard \<times> signerStore option" where
  "Start eth net now gs = (case gs of (g, st) \<Rightarrow>
     if \<not> CustodyGuardEnabled (cg_cfg g) then (False, g, st)
     else let
       (active, st1) = onStored ActiveCustodyIncident (Inr None) st;
       g1 = (case active of Inr (Some incident) \<Rightarrow>
           g\<lparr>cg_locked := True, cg_reason := ''incidente persistente: '' @ inc_Reason incident\<rparr> | _ \<Rightarrow> g);
       (e, g2) = loadTrustedDelegateHashes eth net g1
       in case e of
         Some err \<Rightarrow> (False, Lock now (''falha ao carregar hashes dos delegates confiaveis: '' @ errorText err) (g2, st1))
       | None \<Rightarrow> (True, g2, st1))"

definition pollInterval :: "SignerConfig \<Rightarrow> duration" where
  "pollInterval cfg = (let poll = wrap64 (CustodyGuardPollMs cfg * millisecond) in
     if poll < 500 * millisecond then 500 * millisecond else poll)"

section \<open>EIP-7702 helpers\<close>

definition ExtractEIP7702Delegate :: "geth \<Rightarrow> byte list \<Rightarrow> address \<times> bool" where
  "ExtractEIP7702Delegate eth code =
     (if length code < 23 \<or> \<not> EqualFold (HexutilEncode eth (take 3 code)) eip7702DelegationPrefix
      then (zeroAddress, False)
      else (BytesToAddress eth (take 20 (drop 3 code)), True))"

definition uint256FromBig :: "geth \<Rightarrow> int option \<Rightarrow> int" where
  "uint256FromBig eth value = (case value of None \<Rightarrow> 0
     | Some v \<Rightarrow> (let (out, overflow) = Uint256FromBig eth v in if overflow then 0 else out))"

definition SignEIP7702Authorization ::
    "geth \<Rightarrow> privateKey \<Rightarrow> int option \<Rightarrow> address \<Rightarrow> 64 word \<Rightarrow> setCodeAuth result" where
  "SignEIP7702Authorization eth privateKey chainID delegate nonce = SignSetCode eth privateKey
     \<lparr>auth_chainID = uint256FromBig eth chainID, auth_address = delegate, auth_nonce = nonce, auth_signature = []\<rparr>"

section \<open>What makes an authorisation dangerous\<close>

definition dangerous :: "geth \<Rightarrow> guardNet \<Rightarrow> CustodyGuard \<Rightarrow> guardTx \<Rightarrow> setCodeAuth \<Rightarrow> bool" where
  "dangerous eth net g tx auth = (case Authority eth auth of
     Inl _ \<Rightarrow> False
   | Inr authority \<Rightarrow> authority \<in> cg_protected g \<and>
       (cg_selectors g \<noteq> {} \<and> calldataSelector (gt_data tx) \<notin> cg_selectors g \<or>
        (case map_of (cg_trusted g) (auth_address auth) of
           None \<Rightarrow> True
         | Some h \<Rightarrow> h \<noteq> zeroHash \<and> verifyDelegateHash eth net g (auth_address auth) h \<noteq> None)))"

definition dangerousTx :: "geth \<Rightarrow> guardNet \<Rightarrow> CustodyGuard \<Rightarrow> guardTx option \<Rightarrow> bool" where
  "dangerousTx eth net g tx = (case tx of None \<Rightarrow> False
     | Some t \<Rightarrow> gt_type t = setCodeTxType \<and> list_ex (dangerous eth net g t) (gt_auths t))"

lemma Lock_locks: "guardMode g \<noteq> ''shadow'' \<Longrightarrow> cg_locked (fst (Lock now reason (g, st)))"
  by (simp add: Lock_def Let_def)

lemma Lock_shadow: "guardMode g = ''shadow'' \<Longrightarrow> fst (Lock now reason (g, st)) = g"
  by (simp add: Lock_def Let_def)

lemma inspectAuths_step:
  "\<not> dangerous eth net g tx auth \<Longrightarrow>
     inspectAuths eth net now source tx (auth # auths) (g, st) = inspectAuths eth net now source tx auths (g, st)"
  by (auto simp: dangerous_def Let_def split: sum.splits option.splits if_splits)

lemma inspectAuths_danger:
  "dangerous eth net g tx auth \<Longrightarrow>
     \<exists>reason st'. inspectAuths eth net now source tx (auth # auths) (g, st) = Lock now reason (g, st')"
  by (auto simp: dangerous_def Let_def split: sum.splits option.splits if_splits)

lemma inspectAuths_cases:
  "inspectAuths eth net now source tx auths (g, st) = (g, st) \<and> \<not> list_ex (dangerous eth net g tx) auths \<or>
   list_ex (dangerous eth net g tx) auths \<and>
     (\<exists>reason st'. inspectAuths eth net now source tx auths (g, st) = Lock now reason (g, st'))"
proof (induction auths)
  case Nil
  show ?case by simp
next
  case (Cons auth auths)
  show ?case
  proof (cases "dangerous eth net g tx auth")
    case True
    with inspectAuths_danger [OF True] show ?thesis by (simp del: inspectAuths.simps)
  next
    case False
    with Cons.IH show ?thesis by (simp add: inspectAuths_step del: inspectAuths.simps)
  qed
qed

lemma inspectTransaction_cases:
  "inspectTransaction eth net now source tx (g, st) = (g, st) \<and> \<not> dangerousTx eth net g tx \<or>
   dangerousTx eth net g tx \<and>
     (\<exists>reason st'. inspectTransaction eth net now source tx (g, st) = Lock now reason (g, st'))"
  using inspectAuths_cases [of eth net now source _ _ g st]
  by (cases tx) (auto simp: inspectTransaction_def dangerousTx_def)

lemma inspectAll_locks:
  assumes "guardMode g \<noteq> ''shadow''" and "\<not> cg_locked g"
  shows "if list_ex (dangerousTx eth net g) txs then cg_locked (fst (inspectAll eth net now tag txs (g, st)))
    else inspectAll eth net now tag txs (g, st) = (g, st)"
proof (induction txs)
  case Nil
  show ?case by simp
next
  case (Cons tx txs)
  from inspectTransaction_cases [of eth net now tag tx g st] show ?case
  proof (elim disjE conjE exE)
    assume "inspectTransaction eth net now tag tx (g, st) = (g, st)" "\<not> dangerousTx eth net g tx"
    with Cons.IH assms(2) show ?thesis by simp
  next
    fix reason st'
    assume "inspectTransaction eth net now tag tx (g, st) = Lock now reason (g, st')" "dangerousTx eth net g tx"
    then show ?thesis using Lock_locks [OF assms(1), of now reason st'] by simp
  qed
qed

lemma inspectAll_shadow:
  assumes "guardMode g = ''shadow''"
  shows "fst (inspectAll eth net now tag txs (g, st)) = g"
proof (induction txs arbitrary: st)
  case Nil
  show ?case by simp
next
  case (Cons tx txs)
  have "fst (inspectTransaction eth net now tag tx (g, st)) = g"
    using inspectTransaction_cases [of eth net now tag tx g st] Lock_shadow [OF assms] by auto
  then obtain st' where "inspectTransaction eth net now tag tx (g, st) = (g, st')" by (metis prod.collapse)
  with Cons.IH show ?case by (simp add: Let_def)
qed

lemma scanBlockTag_shadow:
  "guardMode g = ''shadow'' \<Longrightarrow> fst (snd (scanBlockTag eth net now tag (g, st))) = g"
  by (simp add: scanBlockTag_def inspectAll_shadow split: option.splits)

lemma scanOnce_locks:
  assumes "guardMode g \<noteq> ''shadow''" and "tag \<in> {''pending'', ''latest''}"
    and "firstAnswer (\<lambda>url. net_block net url tag) (RPCURLs (cg_cfg g)) = Some txs"
    and "tx \<in> set txs" and "dangerousTx eth net g tx"
  shows "cg_locked (fst (scanOnce eth net now (g, st)))"
proof (cases "cg_locked g")
  case True
  then show ?thesis by (simp add: scanOnce_def)
next
  case False
  have "list_ex (dangerousTx eth net g) txs" using assms(4,5) by (auto simp: list_ex_iff)
  with inspectAll_locks [OF assms(1) False, of eth net txs now tag]
  have here: "cg_locked (fst (inspectAll eth net now tag txs (g, st')))" for st' by simp
  let ?p = "snd (scanBlockTag eth net now ''pending'' (g, st))"
  have other: "cg_locked (fst ?p) \<or> fst ?p = g"
    using inspectAll_locks [OF assms(1) False, of eth net _ now "''pending''" st]
    by (auto simp: scanBlockTag_def split: option.splits if_splits) (metis fst_conv)
  show ?thesis
  proof (cases "cg_locked (fst ?p)")
    case True
    then show ?thesis by (simp add: scanOnce_def Let_def)
  next
    case unlocked: False
    with other obtain st' where p: "?p = (g, st')" by (metis prod.collapse)
    have "tag \<noteq> ''pending''"
    proof
      assume "tag = ''pending''"
      with assms(3) here [of st] have "cg_locked (fst ?p)" by (simp add: scanBlockTag_def)
      with unlocked show False by simp
    qed
    with assms(2) have "tag = ''latest''" by simp
    with assms(3) here [of st'] False p show ?thesis by (simp add: scanOnce_def scanBlockTag_def)
  qed
qed

section \<open>Properties\<close>

text \<open>
  If the first node that answers for the pending or the latest block reports an EIP-7702
  transaction with an authorisation of a protected wallet that has a forbidden selector, an
  unknown delegate or a delegate whose code changed or cannot be verified, then one scan locks the
  signer (unless the guard is in shadow mode), whatever the store or the other calls do.
\<close>

theorem scan_locks_on_danger:
  assumes "guardMode g \<noteq> ''shadow''" and "tag \<in> {''pending'', ''latest''}"
    and "firstAnswer (\<lambda>url. net_block net url tag) (RPCURLs (cg_cfg g)) = Some txs"
    and "tx \<in> set txs" and "dangerousTx eth net g tx"
  shows "cg_locked (fst (scanOnce eth net now (g, st)))"
  using assms by (rule scanOnce_locks)

text \<open>
  C29: No false alarm: a transaction without such an authorisation leaves the guard and the store as
  they are, and outside shadow mode an unlocked guard is locked by a transaction exactly when the
  transaction has one.
\<close>

theorem inspectTransaction_exact:
  assumes "guardMode g \<noteq> ''shadow''" and "\<not> cg_locked g"
  shows "(cg_locked (fst (inspectTransaction eth net now source tx (g, st))) \<longleftrightarrow> dangerousTx eth net g tx) \<and>
    (dangerousTx eth net g tx \<or> inspectTransaction eth net now source tx (g, st) = (g, st))"
  using inspectTransaction_cases [of eth net now source tx g st] assms(2) Lock_locks [OF assms(1)] by auto

text \<open>
  In shadow mode a scan never changes the guard: it records events and nothing is locked.
\<close>

theorem shadow_mode_never_locks:
  assumes "guardMode g = ''shadow''"
  shows "fst (scanOnce eth net now (g, st)) = g"
proof (cases "cg_locked g")
  case True
  then show ?thesis by (simp add: scanOnce_def)
next
  case False
  obtain st' where "snd (scanBlockTag eth net now ''pending'' (g, st)) = (g, st')"
    using scanBlockTag_shadow [OF assms, of eth net now "''pending''" st] by (metis prod.collapse)
  with False scanBlockTag_shadow [OF assms, of eth net now "''latest''" st'] show ?thesis
    by (simp add: scanOnce_def)
qed

text \<open>
  C30: \<open>Unlock\<close> respects the cooldown: when it succeeds while an incident is active, at least the
  configured number of seconds has passed since the incident was opened, and the signer is unlocked;
  when it fails, the guard is unchanged.
\<close>

theorem unlock_respects_cooldown:
  assumes "ActiveCustodyIncident s = (Inr (Some incident), s1)"
    and "0 \<le> CustodyUnlockCooldown (cg_cfg g)" and "CustodyUnlockCooldown (cg_cfg g) * second \<le> 9223372036854775807"
    and "Unlock now note (g, Some s) = (r, g', st')"
  shows "(r = None \<longrightarrow> CustodyUnlockCooldown (cg_cfg g) * second \<le> now - inc_CreatedAt incident \<or>
        CustodyUnlockCooldown (cg_cfg g) = 0) \<and>
    (r = None \<longrightarrow> \<not> cg_locked g') \<and> (r \<noteq> None \<longrightarrow> g' = g)"
proof -
  have w: "wrap64 (CustodyUnlockCooldown (cg_cfg g) * second) = CustodyUnlockCooldown (cg_cfg g) * second"
    using assms(2,3) by (intro wrap64_id) (simp add: int64_def second_def)
  have c: "x \<le> clamp64 d \<Longrightarrow> 0 < x \<Longrightarrow> x \<le> d" for x d by (auto simp: clamp64_def split: if_splits)
  have pos: "CustodyUnlockCooldown (cg_cfg g) \<noteq> 0 \<Longrightarrow> 0 < CustodyUnlockCooldown (cg_cfg g) * second"
    using assms(2) by (simp add: second_def)
  show ?thesis
  proof (cases "CustodyUnlockCooldown (cg_cfg g) = 0")
    case True
    with assms(4) show ?thesis
      by (auto simp: Unlock_def assms(1) Let_def unlocked_def wrap64_def split: prod.splits option.splits)
  next
    case False
    note p = pos [OF False]
    with assms(4) c [OF _ p, of "now - inc_CreatedAt incident"] show ?thesis
      by (auto simp: Unlock_def assms(1) w Let_def unlocked_def time_Sub_def not_less
          split: if_splits prod.splits option.splits)
  qed
qed

lemma mem_lock_active:
  "fst (ActiveCustodyIncident (snd (OpenCustodyIncident now reason mode (MemStore s)))) \<noteq> Inr None \<and>
   (\<exists>i s'. ActiveCustodyIncident (snd (OpenCustodyIncident now reason mode (MemStore s))) = (Inr (Some i), s'))"
  by (auto simp: ActiveCustodyIncident_def OpenCustodyIncident_def onStore_def mem_OpenCustodyIncident_def
      mem_ActiveCustodyIncident_def)

lemma pgStmt_no_fault: "pg_faults s = [] \<Longrightarrow> pgStmt f s = f s"
  by (simp add: pgStmt_def popFault_def)

lemma pg_lock_active:
  assumes "pg_faults s = []"
  shows "\<exists>i s'. ActiveCustodyIncident (snd (OpenCustodyIncident now reason mode (PgStore s))) = (Inr (Some i), s')"
proof -
  let ?s = "snd (pg_OpenCustodyIncident now reason mode s)"
  have f: "pg_faults ?s = []" and a: "list_ex isActive (pg_incidents ?s)"
    using assms by (auto simp: pg_OpenCustodyIncident_def insertIncident_def pgStmt_no_fault isActive_def)
  then have "filter isActive (pg_incidents ?s) \<noteq> []" by (simp add: list_ex_iff filter_empty_conv)
  then have "sort_key (\<lambda>i. - pi_createdAt i) (filter isActive (pg_incidents ?s)) \<noteq> []"
    by (metis length_0_conv length_sort)
  then obtain x xs where "sort_key (\<lambda>i. - pi_createdAt i) (filter isActive (pg_incidents ?s)) = x # xs"
    by (meson neq_Nil_conv)
  with f show ?thesis
    by (simp add: ActiveCustodyIncident_def OpenCustodyIncident_def onStore_def split_beta pg_ActiveCustodyIncident_def
        pgStmt_no_fault)
qed

lemma recordEvent_no_fault:
  assumes "pg_faults s = []"
  obtains s' where "recordEvent g kind reason h w (Some (PgStore s)) = Some (PgStore s')" "pg_faults s' = []"
  using assms that
  by (simp add: recordEvent_def onStored_def RecordCustodyEvent_def onStore_def pg_RecordCustodyEvent_def
      insertEvent_def pgStmt_no_fault split_beta)

text \<open>
  C31: A lock outside shadow mode survives a restart of the signer: the incident it wrote to a working
  database makes \<open>Start\<close> of a new guard on that database lock again, whatever the nodes answer.
\<close>

theorem lock_survives_restart:
  assumes "pg_faults s = []" and "guardMode g \<noteq> ''shadow''"
    and "Lock now reason (g, Some (PgStore s)) = (g1, st1)"
    and "CustodyGuardEnabled (cg_cfg g2)" and "Start eth net now2 (g2, st1) = (running, g3, st3)"
  shows "cg_locked g3"
proof -
  from assms(1) obtain s' where s': "recordEvent g ''signer_locked'' reason [] [] (Some (PgStore s)) = Some (PgStore s')"
      "pg_faults s' = []"
    by (rule recordEvent_no_fault)
  with assms(2,3) have "st1 = Some (snd (OpenCustodyIncident now reason (guardMode g) (PgStore s')))"
    by (auto simp: Lock_def Let_def onStored_def split_beta)
  with pg_lock_active [OF s'(2), of now reason "guardMode g"]
  obtain i st2 where "onStored ActiveCustodyIncident (Inr None) st1 = (Inr (Some i), Some st2)"
    by (auto simp: onStored_def)
  with assms(4,5) show ?thesis
    by (auto simp: Start_def Let_def loadTrustedDelegateHashes_def Lock_def split: prod.splits option.splits if_splits)
qed

text \<open>Steps of the guard other than a successful unlock.\<close>

inductive guard_step :: "geth \<Rightarrow> CustodyGuard \<times> signerStore option \<Rightarrow> CustodyGuard \<times> signerStore option \<Rightarrow> bool"
  for eth where
  scan: "guard_step eth gs (scanOnce eth net now gs)"
| lock: "guard_step eth gs (Lock now reason gs)"
| refused: "Unlock now note gs = (Some e, gs') \<Longrightarrow> guard_step eth gs gs'"

lemma guard_step_locked:
  assumes "guard_step eth gs gs'" and "cg_locked (fst gs)"
  shows "cg_locked (fst gs')"
  using assms
proof (cases rule: guard_step.cases)
  case (scan net now)
  with assms(2) show ?thesis by (simp add: scanOnce_def)
next
  case (lock now reason)
  with assms(2) show ?thesis by (cases gs) (simp add: Lock_def Let_def)
next
  case (refused now memo e)
  with assms(2) show ?thesis
    by (cases gs) (auto simp: Unlock_def unlocked_def Let_def split: prod.splits option.splits sum.splits if_splits)
qed

text \<open>
  Once the signer is locked it stays locked over any number of scans, further lock requests and
  refused unlocks: only a successful \<open>Unlock\<close> clears the flag.
\<close>

theorem lock_is_sticky:
  assumes "(guard_step eth)\<^sup>*\<^sup>* gs gs'" and "cg_locked (fst gs)"
  shows "cg_locked (fst gs')"
  using assms(1)
proof (induction rule: rtranclp_induct)
  case base
  show ?case by (rule assms(2))
next
  case (step y z)
  then show ?case by (metis guard_step_locked)
qed

text \<open>
  A delegation designator, the prefix \<open>0xef0100\<close> followed by the twenty bytes of an address, is
  read back as that address.
\<close>

theorem ExtractEIP7702Delegate_designator:
  assumes "HexutilEncode eth [0xef, 0x01, 0x00] = ''0xef0100''" and "\<And>a. length a = 20 \<Longrightarrow> BytesToAddress eth a = a"
    and "length a = 20"
  shows "ExtractEIP7702Delegate eth ([0xef, 0x01, 0x00] @ a @ rest) = (a, True)"
  using assms by (simp add: ExtractEIP7702Delegate_def eip7702DelegationPrefix_def)

section \<open>Witnesses\<close>

definition demoGuard :: CustodyGuard where
  "demoGuard = \<lparr>cg_cfg = (LoadSignerConfig Map.empty)\<lparr>CustodyMode := ''paper'', RPCURLs := [''u''],
       CustodyGuardEnabled := True, CustodyUnlockCooldown := 900\<rparr>,
     cg_protected = {replicate 20 1}, cg_trusted = [], cg_selectors = {}, cg_locked = False, cg_reason = []\<rparr>"

definition demoTx :: "guardTx option" where
  "demoTx = Some \<lparr>gt_type = 4, gt_data = [], gt_auths = [\<lparr>auth_chainID = 56, auth_address = replicate 20 2,
     auth_nonce = 0, auth_signature = replicate 20 1\<rparr>], gt_hash = replicate 32 0\<rparr>"

definition demoNet :: guardNet where
  "demoNet = \<lparr>net_block = (\<lambda>url tag. if tag = ''latest'' then Some [None, demoTx] else None), net_codeAt = (\<lambda>_ _. None)\<rparr>"

lemma demoGuard_mode: "guardMode demoGuard = ''paper''"
  by (simp add: guardMode_def demoGuard_def normalizeCustodyMode_fixed)

lemma demoTx_dangerous: "dangerousTx demoGeth demoNet demoGuard demoTx"
  by (simp add: dangerousTx_def demoTx_def dangerous_def demoGuard_def demoGeth_def padTo_def setCodeTxType_def)

theorem scan_locks_on_danger_witness: "cg_locked (fst (scanOnce demoGeth demoNet 5 (demoGuard, None)))"
  by (rule scan_locks_on_danger [of _ "''latest''" _ "[None, demoTx]" demoTx])
    (simp_all add: demoGuard_mode demoTx_dangerous, simp_all add: demoNet_def demoGuard_def)

theorem inspectTransaction_exact_witness:
  "cg_locked (fst (inspectTransaction demoGeth demoNet 5 ''latest'' demoTx (demoGuard, None)))"
  using inspectTransaction_exact [of demoGuard demoGeth demoNet 5 "''latest''" demoTx None]
  by (simp add: demoGuard_mode demoTx_dangerous) (simp add: demoGuard_def)

theorem shadow_mode_never_locks_witness:
  "fst (scanOnce demoGeth demoNet 5 (demoGuard\<lparr>cg_cfg := (cg_cfg demoGuard)\<lparr>CustodyMode := ''shadow''\<rparr>\<rparr>, None)) =
     demoGuard\<lparr>cg_cfg := (cg_cfg demoGuard)\<lparr>CustodyMode := ''shadow''\<rparr>\<rparr>"
  by (rule shadow_mode_never_locks) (simp add: guardMode_def normalizeCustodyMode_fixed)

definition demoIncidentStore :: signerStore where
  "demoIncidentStore = MemStore ((newMemorySignerStore id)\<lparr>ms_activeIncident :=
     Some \<lparr>inc_ID = 1, inc_Reason = ''x'', inc_Mode = ''paper'', inc_CreatedAt = 0\<rparr>\<rparr>)"

theorem unlock_respects_cooldown_witness:
  "fst (Unlock 1000000000 ''ok'' (demoGuard, Some demoIncidentStore)) \<noteq> None"
proof -
  obtain r g' st' where u: "Unlock 1000000000 ''ok'' (demoGuard, Some demoIncidentStore) = (r, g', st')"
    by (cases "Unlock 1000000000 ''ok'' (demoGuard, Some demoIncidentStore)") auto
  have "ActiveCustodyIncident demoIncidentStore =
      (Inr (Some \<lparr>inc_ID = 1, inc_Reason = ''x'', inc_Mode = ''paper'', inc_CreatedAt = 0\<rparr>), demoIncidentStore)"
    by (simp add: ActiveCustodyIncident_def onStore_def demoIncidentStore_def mem_ActiveCustodyIncident_def)
  from unlock_respects_cooldown [OF this _ _ u] have "r \<noteq> None" by (simp add: demoGuard_def second_def)
  with u show ?thesis by simp
qed

theorem lock_survives_restart_witness:
  "\<exists>running g3 st3. Start demoGeth demoNet 9 (demoGuard, snd (Lock 5 ''alarm'' (demoGuard, Some (PgStore (newPgStore [] id)))))
      = (running, g3, st3) \<and> cg_locked g3"
proof -
  obtain g1 st1 where l: "Lock 5 ''alarm'' (demoGuard, Some (PgStore (newPgStore [] id))) = (g1, st1)" by fastforce
  obtain running g3 st3 where s: "Start demoGeth demoNet 9 (demoGuard, st1) = (running, g3, st3)"
    by (cases "Start demoGeth demoNet 9 (demoGuard, st1)") auto
  have "cg_locked g3"
    by (rule lock_survives_restart [OF _ _ l _ s]) (simp_all add: newPgStore_def demoGuard_mode, simp add: demoGuard_def)
  with l s show ?thesis by simp
qed

theorem lock_is_sticky_witness:
  "cg_locked (fst (scanOnce demoGeth demoNet 5 (demoGuard\<lparr>cg_locked := True\<rparr>, None)))"
  by (rule lock_is_sticky [of demoGeth "(demoGuard\<lparr>cg_locked := True\<rparr>, None)"])
    (simp_all add: r_into_rtranclp guard_step.scan)

theorem ExtractEIP7702Delegate_designator_witness:
  "ExtractEIP7702Delegate demoGeth ([0xef, 0x01, 0x00] @ replicate 20 7 @ []) = (replicate 20 7, True)"
proof (rule ExtractEIP7702Delegate_designator)
  show "HexutilEncode demoGeth [0xef, 0x01, 0x00] = ''0xef0100''" by code_simp
qed (simp_all add: demoGeth_def padTo_def)

end
