(* ===== verification/Requests.thy ===== *)
theory Requests
  imports Go_Json Signer_Types
begin

text \<open>
  The JSON forms of the requests and of the response: the struct tags of \<open>src/main.go\<close> (lines 29-75) as the fields that
  \<open>json.Unmarshal\<close> fills, and the decoding calls of the handlers (lines 204-207, 252-253, 336-337, 422-423) and of
  \<open>GetResult\<close> in \<open>src/store.go\<close> (lines 187-190). The handlers only look at whether decoding failed, so the text of a
  decoding error is not that of the package. The lemmas show that a request written as JSON is read as that request.
\<close>

section \<open>Decoding requests\<close>

definition transferFields :: "TransferRequest jsonField list" where
  "transferFields = [
     (''to'', stringField tr_To_update), (''amount'', stringField tr_Amount_update),
     (''tokenContract'', stringField tr_TokenContract_update), (''network'', stringField tr_Network_update),
     (''idempotencyKey'', stringField tr_IdempotencyKey_update), (''derivationIndex'', intPtrField tr_DerivationIndex_update)]"

definition contractCallFields :: "ContractCallRequest jsonField list" where
  "contractCallFields = [
     (''to'', stringField cc_To_update), (''data'', stringField cc_Data_update), (''network'', stringField cc_Network_update),
     (''idempotencyKey'', stringField cc_IdempotencyKey_update), (''amount'', stringField cc_Amount_update),
     (''tokenContract'', stringField cc_TokenContract_update), (''derivationIndex'', intPtrField cc_DerivationIndex_update)]"

definition settlementFields :: "SettlementExecuteRequest jsonField list" where
  "settlementFields = [
     (''operationId'', stringField se_OperationID_update), (''settlementIntentId'', stringField se_SettlementIntentID_update),
     (''orderId'', stringField se_OrderID_update), (''side'', stringField se_Side_update), (''network'', stringField se_Network_update),
     (''chainId'', uint64Field se_ChainID_update), (''vault'', stringField se_Vault_update), (''token'', stringField se_Token_update),
     (''recipient'', stringField se_Recipient_update), (''amountRaw'', stringField se_AmountRaw_update),
     (''sourceChannel'', stringField se_SourceChannel_update), (''policyVersion'', stringField se_PolicyVersion_update),
     (''networkPolicy'', stringField se_NetworkPolicy_update), (''riskPolicy'', stringField se_RiskPolicy_update),
     (''contractVersion'', stringField se_ContractVersion_update), (''authorizedAt'', stringField se_AuthorizedAt_update),
     (''expiresAt'', stringField se_ExpiresAt_update), (''idempotencyKey'', stringField se_IdempotencyKey_update)]"

definition responseFields :: "TransferResponse jsonField list" where
  "responseFields = [(''txHash'', stringField resp_TxHash_update), (''from'', stringField resp_From_update),
     (''network'', stringField resp_Network_update)]"

text \<open>The body of \<open>/custody/unlock\<close> is a struct of one field, whose decoding error is ignored.\<close>

record unlockPayload =
  Note :: string

definition unlockFields :: "unlockPayload jsonField list" where
  "unlockFields = [(''note'', stringField Note_update)]"

definition zeroTransfer :: TransferRequest where
  "zeroTransfer = \<lparr>tr_To = [], tr_Amount = [], tr_TokenContract = [], tr_Network = [], tr_IdempotencyKey = [], tr_DerivationIndex = None\<rparr>"

definition zeroContractCall :: ContractCallRequest where
  "zeroContractCall = \<lparr>cc_To = [], cc_Data = [], cc_Network = [], cc_IdempotencyKey = [], cc_Amount = [], cc_TokenContract = [],
     cc_DerivationIndex = None\<rparr>"

definition zeroSettlement :: SettlementExecuteRequest where
  "zeroSettlement = \<lparr>se_OperationID = [], se_SettlementIntentID = [], se_OrderID = [], se_Side = [], se_Network = [], se_ChainID = 0,
     se_Vault = [], se_Token = [], se_Recipient = [], se_AmountRaw = [], se_SourceChannel = [], se_PolicyVersion = [],
     se_NetworkPolicy = [], se_RiskPolicy = [], se_ContractVersion = [], se_AuthorizedAt = [], se_ExpiresAt = [], se_IdempotencyKey = []\<rparr>"

definition decoded :: "error option \<times> 'r \<Rightarrow> 'r result" where
  "decoded x = (case fst x of None \<Rightarrow> Inr (snd x) | Some e \<Rightarrow> Inl e)"

definition decodeTransfer :: "byte list \<Rightarrow> TransferRequest result" where
  "decodeTransfer body = decoded (Unmarshal transferFields body zeroTransfer)"

definition decodeContractCall :: "byte list \<Rightarrow> ContractCallRequest result" where
  "decodeContractCall body = decoded (Unmarshal contractCallFields body zeroContractCall)"

definition decodeSettlement :: "byte list \<Rightarrow> SettlementExecuteRequest result" where
  "decodeSettlement body = decoded (Unmarshal settlementFields body zeroSettlement)"

definition decodeResponse :: "byte list \<Rightarrow> TransferResponse result" where
  "decodeResponse raw = decoded (Unmarshal responseFields raw emptyResponse)"

definition decodeNote :: "byte list \<Rightarrow> string" where
  "decodeNote body = Note (snd (Unmarshal unlockFields body \<lparr>Note = []\<rparr>))"

section \<open>Requests as JSON\<close>

text \<open>The structs as \<open>json.Marshal\<close> writes them, in the order of their fields; \<open>omitempty\<close> leaves out what is empty.\<close>

definition omitEmpty :: "string \<Rightarrow> string \<Rightarrow> (string \<times> jsonValue) list" where
  "omitEmpty name s = (if s = [] then [] else [(name, JString s)])"

definition omitNil :: "string \<Rightarrow> int option \<Rightarrow> (string \<times> jsonValue) list" where
  "omitNil name n = (case n of None \<Rightarrow> [] | Some k \<Rightarrow> [(name, JNumber (FormatInt k))])"

definition transferJSON :: "TransferRequest \<Rightarrow> jsonValue" where
  "transferJSON req = JObject ([
     (''to'', JString (tr_To req)), (''amount'', JString (tr_Amount req)), (''tokenContract'', JString (tr_TokenContract req)),
     (''network'', JString (tr_Network req)), (''idempotencyKey'', JString (tr_IdempotencyKey req))] @
     omitNil ''derivationIndex'' (tr_DerivationIndex req))"

definition contractCallJSON :: "ContractCallRequest \<Rightarrow> jsonValue" where
  "contractCallJSON req = JObject ([
     (''to'', JString (cc_To req)), (''data'', JString (cc_Data req)), (''network'', JString (cc_Network req)),
     (''idempotencyKey'', JString (cc_IdempotencyKey req))] @ omitEmpty ''amount'' (cc_Amount req) @
     omitEmpty ''tokenContract'' (cc_TokenContract req) @ omitNil ''derivationIndex'' (cc_DerivationIndex req))"

definition settlementJSON :: "SettlementExecuteRequest \<Rightarrow> jsonValue" where
  "settlementJSON req = JObject [
     (''operationId'', JString (se_OperationID req)), (''settlementIntentId'', JString (se_SettlementIntentID req)),
     (''orderId'', JString (se_OrderID req)), (''side'', JString (se_Side req)), (''network'', JString (se_Network req)),
     (''chainId'', JNumber (FormatInt (uint (se_ChainID req)))), (''vault'', JString (se_Vault req)), (''token'', JString (se_Token req)),
     (''recipient'', JString (se_Recipient req)), (''amountRaw'', JString (se_AmountRaw req)),
     (''sourceChannel'', JString (se_SourceChannel req)), (''policyVersion'', JString (se_PolicyVersion req)),
     (''networkPolicy'', JString (se_NetworkPolicy req)), (''riskPolicy'', JString (se_RiskPolicy req)),
     (''contractVersion'', JString (se_ContractVersion req)), (''authorizedAt'', JString (se_AuthorizedAt req)),
     (''expiresAt'', JString (se_ExpiresAt req)), (''idempotencyKey'', JString (se_IdempotencyKey req))]"

definition responseJSON :: "TransferResponse \<Rightarrow> jsonValue" where
  "responseJSON resp = JObject [(''txHash'', JString (resp_TxHash resp)), (''from'', JString (resp_From resp)),
     (''network'', JString (resp_Network resp))]"

section \<open>Lemmas\<close>

lemma storeMember_field [simp]: "fieldFor fs n = Some (n, g) \<Longrightarrow> g v r = Some r' \<Longrightarrow> storeMember fs (n, v) (r, ok) = (r', ok)"
  by (simp add: storeMember_def)

lemma field_stores [simp]:
  "stringField upd (JString s) r = Some (upd (\<lambda>_. s) r)"
  "int64 n \<Longrightarrow> intPtrField upd' (JNumber (FormatInt n)) q = Some (upd' (\<lambda>_. Some n) q)"
  by (simp_all add: stringField_def intPtrField_def ParseInt64_FormatInt)

lemma uint64Field_stores [simp]: "uint64Field upd (JNumber (FormatInt (uint (w :: 64 word)))) r = Some (upd (\<lambda>_. w) r)"
proof -
  have "0 \<le> uint w" "uint w < 2 ^ 64" using uint_lt2p [of w] by simp_all
  then have "ParseUint64 (FormatInt (uint w)) = Some (uint w)"
    using natDigits_digits [of "uint w"] digitsVal_natDigits [of "uint w"] by (simp add: ParseUint64_def FormatInt_def)
  then show ?thesis by (simp add: uint64Field_def)
qed

text \<open>Decoding what was encoded is storing the members one after the other.\<close>

lemma Unmarshal_jsonEncode:
  assumes "jsonOk (JObject ms)" "int (nesting (JObject ms)) \<le> maxNestingDepth" "rest = [] \<or> rest = [CHR 0x0A]"
    and "fold (storeMember fs) ms (r, True) = (r', True)"
  shows "Unmarshal fs (stringBytes (jsonEncode (JObject ms) @ rest)) r = (None, r')"
proof -
  have "jsonParse (jsonEncode (JObject ms) @ rest) = Some (JObject ms)" by (rule jsonParse_jsonEncode) (use assms in auto)
  with assms(4) show ?thesis
    by (simp only: Unmarshal_def bytesString_stringBytes option.case jsonValue.case prod.case Let_def if_True)
qed

text \<open>The fields by name.\<close>

lemma transfer_fieldFor [simp]:
  "fieldFor transferFields ''to'' = Some (''to'', stringField tr_To_update)"
  "fieldFor transferFields ''amount'' = Some (''amount'', stringField tr_Amount_update)"
  "fieldFor transferFields ''tokenContract'' = Some (''tokenContract'', stringField tr_TokenContract_update)"
  "fieldFor transferFields ''network'' = Some (''network'', stringField tr_Network_update)"
  "fieldFor transferFields ''idempotencyKey'' = Some (''idempotencyKey'', stringField tr_IdempotencyKey_update)"
  "fieldFor transferFields ''derivationIndex'' = Some (''derivationIndex'', intPtrField tr_DerivationIndex_update)"
  by (simp_all add: fieldFor_def transferFields_def)

lemma contractCall_fieldFor [simp]:
  "fieldFor contractCallFields ''to'' = Some (''to'', stringField cc_To_update)"
  "fieldFor contractCallFields ''data'' = Some (''data'', stringField cc_Data_update)"
  "fieldFor contractCallFields ''network'' = Some (''network'', stringField cc_Network_update)"
  "fieldFor contractCallFields ''idempotencyKey'' = Some (''idempotencyKey'', stringField cc_IdempotencyKey_update)"
  "fieldFor contractCallFields ''amount'' = Some (''amount'', stringField cc_Amount_update)"
  "fieldFor contractCallFields ''tokenContract'' = Some (''tokenContract'', stringField cc_TokenContract_update)"
  "fieldFor contractCallFields ''derivationIndex'' = Some (''derivationIndex'', intPtrField cc_DerivationIndex_update)"
  by (simp_all add: fieldFor_def contractCallFields_def)

lemma settlement_fieldFor [simp]:
  "fieldFor settlementFields ''operationId'' = Some (''operationId'', stringField se_OperationID_update)"
  "fieldFor settlementFields ''settlementIntentId'' = Some (''settlementIntentId'', stringField se_SettlementIntentID_update)"
  "fieldFor settlementFields ''orderId'' = Some (''orderId'', stringField se_OrderID_update)"
  "fieldFor settlementFields ''side'' = Some (''side'', stringField se_Side_update)"
  "fieldFor settlementFields ''network'' = Some (''network'', stringField se_Network_update)"
  "fieldFor settlementFields ''chainId'' = Some (''chainId'', uint64Field se_ChainID_update)"
  "fieldFor settlementFields ''vault'' = Some (''vault'', stringField se_Vault_update)"
  "fieldFor settlementFields ''token'' = Some (''token'', stringField se_Token_update)"
  "fieldFor settlementFields ''recipient'' = Some (''recipient'', stringField se_Recipient_update)"
  "fieldFor settlementFields ''amountRaw'' = Some (''amountRaw'', stringField se_AmountRaw_update)"
  "fieldFor settlementFields ''sourceChannel'' = Some (''sourceChannel'', stringField se_SourceChannel_update)"
  "fieldFor settlementFields ''policyVersion'' = Some (''policyVersion'', stringField se_PolicyVersion_update)"
  "fieldFor settlementFields ''networkPolicy'' = Some (''networkPolicy'', stringField se_NetworkPolicy_update)"
  "fieldFor settlementFields ''riskPolicy'' = Some (''riskPolicy'', stringField se_RiskPolicy_update)"
  "fieldFor settlementFields ''contractVersion'' = Some (''contractVersion'', stringField se_ContractVersion_update)"
  "fieldFor settlementFields ''authorizedAt'' = Some (''authorizedAt'', stringField se_AuthorizedAt_update)"
  "fieldFor settlementFields ''expiresAt'' = Some (''expiresAt'', stringField se_ExpiresAt_update)"
  "fieldFor settlementFields ''idempotencyKey'' = Some (''idempotencyKey'', stringField se_IdempotencyKey_update)"
  by (simp_all add: fieldFor_def settlementFields_def)

lemma response_fieldFor [simp]:
  "fieldFor responseFields ''txHash'' = Some (''txHash'', stringField resp_TxHash_update)"
  "fieldFor responseFields ''from'' = Some (''from'', stringField resp_From_update)"
  "fieldFor responseFields ''network'' = Some (''network'', stringField resp_Network_update)"
  by (simp_all add: fieldFor_def responseFields_def)

lemma transfer_stores:
  assumes "\<And>n. tr_DerivationIndex req = Some n \<Longrightarrow> int64 n" "transferJSON req = JObject ms"
  shows "fold (storeMember transferFields) ms (zeroTransfer, True) = (req, True)"
  using assms by (cases "tr_DerivationIndex req") (auto simp: transferJSON_def omitNil_def zeroTransfer_def)

lemma contractCall_stores:
  assumes "\<And>n. cc_DerivationIndex req = Some n \<Longrightarrow> int64 n" "contractCallJSON req = JObject ms"
  shows "fold (storeMember contractCallFields) ms (zeroContractCall, True) = (req, True)"
  using assms by (cases "cc_DerivationIndex req") (auto simp: contractCallJSON_def omitNil_def omitEmpty_def zeroContractCall_def)

lemma settlement_stores:
  assumes "settlementJSON req = JObject ms"
  shows "fold (storeMember settlementFields) ms (zeroSettlement, True) = (req, True)"
  using assms by (auto simp: settlementJSON_def zeroSettlement_def)

lemma response_stores:
  assumes "responseJSON resp = JObject ms"
  shows "fold (storeMember responseFields) ms (emptyResponse, True) = (resp, True)"
  using assms by (auto simp: responseJSON_def emptyResponse_def)

lemma flat_nesting:
  "nesting (transferJSON req) = 1" "nesting (contractCallJSON call) = 1" "nesting (settlementJSON order) = 1"
  "nesting (responseJSON resp) = 1"
  by (simp_all add: transferJSON_def contractCallJSON_def settlementJSON_def responseJSON_def omitNil_def omitEmpty_def split: option.split)

lemma decoded_jsonEncode:
  assumes "jsonOk js" "nesting js = 1" "js = JObject ms" "rest = [] \<or> rest = [CHR 0x0A]"
    and "fold (storeMember fs) ms (r, True) = (r', True)"
  shows "decoded (Unmarshal fs (stringBytes (jsonEncode js @ rest)) r) = Inr r'"
proof -
  have "int (nesting (JObject ms)) \<le> maxNestingDepth" using assms(2,3) by (simp add: maxNestingDepth_def)
  from Unmarshal_jsonEncode [OF _ this assms(4,5)] assms(1,3) show ?thesis by (simp add: decoded_def del: jsonEncode.simps)
qed

definition int64Index :: "int option \<Rightarrow> bool" where
  "int64Index i = (case i of Some n \<Rightarrow> int64 n | None \<Rightarrow> True)"

text \<open>
  C21: A request that a client writes with \<open>json.Marshal\<close> is read by the handler as exactly that request, on each of the
  three paying routes: every field is found under its name and every string, whatever must be escaped in it, and every
  number comes through, if the strings are UTF-8 and the derivation index is an \<open>int\<close>.
\<close>

theorem requests_roundtrip:
  assumes "jsonOk (transferJSON t)" "int64Index (tr_DerivationIndex t)"
    and "jsonOk (contractCallJSON c)" "int64Index (cc_DerivationIndex c)" and "jsonOk (settlementJSON s)"
  shows "decodeTransfer (stringBytes (jsonEncode (transferJSON t))) = Inr t \<and>
    decodeContractCall (stringBytes (jsonEncode (contractCallJSON c))) = Inr c \<and>
    decodeSettlement (stringBytes (jsonEncode (settlementJSON s))) = Inr s"
proof -
  obtain ms ns os where js: "transferJSON t = JObject ms" "contractCallJSON c = JObject ns" "settlementJSON s = JObject os"
    by (simp add: transferJSON_def contractCallJSON_def settlementJSON_def)
  have t: "fold (storeMember transferFields) ms (zeroTransfer, True) = (t, True)"
    using assms(2) by (intro transfer_stores js) (simp add: int64Index_def)
  have c: "fold (storeMember contractCallFields) ns (zeroContractCall, True) = (c, True)"
    using assms(4) by (intro contractCall_stores js) (simp add: int64Index_def)
  note s = settlement_stores [OF js(3)]
  show ?thesis
    unfolding decodeTransfer_def decodeContractCall_def decodeSettlement_def
    using decoded_jsonEncode [OF assms(1) flat_nesting(1) js(1) disjI1 [OF refl] t]
      decoded_jsonEncode [OF assms(3) flat_nesting(2) js(2) disjI1 [OF refl] c]
      decoded_jsonEncode [OF assms(5) flat_nesting(3) js(3) disjI1 [OF refl] s]
    by simp
qed

definition oddTransfer :: TransferRequest where
  "oddTransfer = \<lparr>tr_To = ''0x7777'', tr_Amount = ''12.5'', tr_TokenContract = [CHR 0x22, CHR ''<'', CHR 0x0A, CHR 0x5C],
     tr_Network = [CHR 0xC3, CHR 0xA9, CHR 0xE2, CHR 0x80, CHR 0xA8, CHR ''&''], tr_IdempotencyKey = ''k'', tr_DerivationIndex = Some (- 20)\<rparr>"

definition plainSettlement :: SettlementExecuteRequest where
  "plainSettlement = zeroSettlement\<lparr>se_OperationID := ''0xab'', se_ChainID := 56, se_AmountRaw := ''1000''\<rparr>"

theorem requests_roundtrip_witness:
  "decodeTransfer (stringBytes (jsonEncode (transferJSON oddTransfer))) = Inr oddTransfer \<and>
   decodeContractCall (stringBytes (jsonEncode (contractCallJSON (zeroContractCall\<lparr>cc_Data := ''0x82ad56cb''\<rparr>))))
     = Inr (zeroContractCall\<lparr>cc_Data := ''0x82ad56cb''\<rparr>) \<and>
   decodeSettlement (stringBytes (jsonEncode (settlementJSON plainSettlement))) = Inr plainSettlement"
  by (rule requests_roundtrip) code_simp+

text \<open>A body that is cut off before its only closing brace is refused.\<close>

lemma decode_unclosed:
  assumes "body = stringBytes (CHR ''{'' # cs)" "CHR ''}'' \<notin> set cs"
  shows "\<exists>e. decodeTransfer body = Inl e" and "\<exists>e. decodeContractCall body = Inl e" and "\<exists>e. decodeSettlement body = Inl e"
  using jsonParse_unclosed [OF assms(2)] assms(1)
  by (simp_all add: decodeTransfer_def decodeContractCall_def decodeSettlement_def decoded_def Unmarshal_def)

end
