(* ===== verification/Handlers.thy ===== *)
theory Handlers
  imports Execution_Safety Middleware Custody_Guard Requests
begin

text \<open>
  Model of \<open>main\<close>, its route handlers and \<open>setupSecurity\<close> (\<open>src/main.go\<close>, lines 77-543). A handler is a
  function from the request to its reply and the next state of the server; the clock shows one instant
  during a request, apart from the instants of the RPC attempts. A JSON body is decoded as
  in \<open>Requests\<close>. Logging is left out. A panic of an execution aborts the
  connection (\<open>Aborted\<close>), as \<open>net/http\<close> recovers it, and leaves the state as it is then.
\<close>

section \<open>State and replies\<close>

text \<open>The request validator with the store of request nonces behind the interface.\<close>

datatype 'r securityStack = MemorySecurity "InMemoryNonceStore RequestValidator" | RedisSecurity "'r RequestValidator"

record 'r server =
  sv_cfg :: SignerConfig
  sv_opts :: SecurityOptions
  sv_security :: "'r securityStack"
  sv_guard :: "CustodyGuard option"
  sv_run :: runState

text \<open>The map that \<open>/readyz\<close> answers with; the last three keys are there only when something is wrong.\<close>

record treasuryLimits =
  lim_minUSDT :: f64
  lim_targetUSDT :: f64
  lim_maxUSDT :: f64
  lim_maxDailyOutflow :: f64
  lim_lockdownDailyOutflow :: f64

record readyBody =
  ready_ok :: bool
  ready_service :: string
  ready_network :: string
  ready_nonceStore :: string
  ready_custodyGuard :: bool
  ready_custodyMode :: string
  ready_lockdown :: bool
  ready_treasury :: treasuryLimits
  ready_settlementVaultConfigured :: bool
  ready_lockReason :: "string option"
  ready_storage :: "string option"
  ready_bsc :: "string option"

datatype reply =
  HttpError int string
| Rejected int string
| Paid TransferResponse
| Unlocked string
| Healthy
| ReadyReply int readyBody
| Aborted

text \<open>What a request meets outside the server: the clock, random bytes, and the RPC nodes.\<close>

record outside =
  o_now :: instant
  o_rnd :: "byte list option"
  o_net :: "string \<Rightarrow> attempt"

section \<open>setupSecurity and start-up\<close>

definition validatorConfig :: "SignerConfig \<Rightarrow> 's nonceStore \<Rightarrow> 's \<Rightarrow> 's RequestValidatorConfig" where
  "validatorConfig cfg store nonces = \<lparr>vc_HMACSecret = HMACSecret (Security cfg), vc_HMACMaxSkew = HMACMaxSkewSec (Security cfg),
     vc_NonceStore = store, vc_Nonces = nonces, vc_NonceTTL = GetNonceTTL cfg, vc_RateLimit = GetRateLimit cfg,
     vc_RateWindow = GetRateWindow cfg, vc_RateLimiterType = GetRateLimiterType cfg, vc_MaxBodySize = GetMaxBodySize cfg,
     vc_OldSecret = HMACOldSecret (Security cfg)\<rparr>"

definition securityOptions :: "SignerConfig \<Rightarrow> SecurityOptions" where
  "securityOptions cfg = \<lparr>so_Enabled = True, so_RequireHMAC = RequireHMAC (Security cfg),
     so_RequireNonce = RequireNonce (Security cfg), so_RequireAPIKey = RequireAPIKey (Security cfg),
     so_AllowedMethods = [''POST'', ''GET''], so_ExcludePaths = [''/healthz'', ''/readyz'']\<rparr>"

text \<open>The Redis library is the argument \<open>redis\<close>.\<close>

definition NewMiddleware :: "'r securityStack \<Rightarrow> SecurityOptions \<Rightarrow> 'r securityStack \<times> SecurityOptions" where
  [simp]: "NewMiddleware validator options = (validator, options)"

definition setupSecurity ::
    "('o, 'r) redisLib \<Rightarrow> SignerConfig \<Rightarrow> ('r securityStack \<times> SecurityOptions) result" where
  "setupSecurity redis cfg =
     (if NonceStoreType (Security cfg) = ''redis'' then
        (if TrimSpace (RedisURL cfg) = [] then Inl (Err ''REDIS_URL obrigatorio quando NONCE_STORE_TYPE=redis'')
         else case NewRedisNonceStore redis (RedisURL cfg) of
           Inl e \<Rightarrow> Inl (Wrap ''redis nonce store indisponivel'' e)
         | Inr (client, s) \<Rightarrow> Inr (NewMiddleware
             (RedisSecurity (NewRequestValidator (validatorConfig cfg (redisNonces (Some client)) s))) (securityOptions cfg)))
      else Inr (NewMiddleware
             (MemorySecurity (NewRequestValidator (validatorConfig cfg inMemoryNonces NewInMemoryNonceStore))) (securityOptions cfg)))"

text \<open>\<open>main\<close> up to the routes: an error is \<open>os.Exit(1)\<close>.\<close>

definition startServer ::
    "geth \<Rightarrow> ('o, 'r) redisLib \<Rightarrow> (SignerTransaction list \<Rightarrow> SignerTransaction list) \<Rightarrow>
      (string \<Rightarrow> pgStore result) \<Rightarrow> instant \<Rightarrow> SignerConfig \<Rightarrow> 'r server result" where
  "startServer eth redis iter connect now cfg = (case ValidateProduction cfg of
     Some e \<Rightarrow> Inl e
   | None \<Rightarrow> (case setupSecurity redis cfg of
       Inl e \<Rightarrow> Inl e
     | Inr (stack, opts) \<Rightarrow>
         if HMACSecret (Security cfg) = [] then Inl (Err ''HMAC_SECRET obrigatorio'')
         else if (DefaultNetwork cfg = ''BSC'' \<or> DefaultNetwork cfg = ''EVM'') \<and> EVMPrivateKey cfg = []
         then Inl (Err ''EVM_PRIVATE_KEY obrigatorio para BSC/EVM'')
         else (case openSignerStore iter connect cfg of
           Inl e \<Rightarrow> Inl e
         | Inr st \<Rightarrow> (let server = (\<lambda>guard. \<lparr>sv_cfg = cfg, sv_opts = opts, sv_security = stack, sv_guard = guard,
               sv_run = \<lparr>w_store = st, w_fleet = Some (newRPCFleet now (RPCURLs cfg)), w_sent = []\<rparr>\<rparr>)
             in case NewCustodyGuard eth cfg of
               Inl e \<Rightarrow> if CustodyGuardEnabled cfg then Inl e else Inr (server None)
             | Inr guard \<Rightarrow> Inr (server (Some guard))))))"

section \<open>The routes\<close>

definition maxHandlerBody :: int where "maxHandlerBody = 1048576"

text \<open>
  What the protected handlers share after the lock check: the context of the request, its body, and the nonce
  recorded in the store. \<open>k\<close> is the rest of the handler.
\<close>

definition withAcceptedNonce ::
    "SignerConfig \<Rightarrow> instant \<Rightarrow> HttpRequest \<Rightarrow> RequestContext option \<Rightarrow>
      (RequestContext \<Rightarrow> byte list \<Rightarrow> runState \<Rightarrow> 'a) \<Rightarrow> (int \<Rightarrow> string \<Rightarrow> runState \<Rightarrow> 'a) \<Rightarrow> runState \<Rightarrow> 'a" where
  "withAcceptedNonce cfg now r ctx k fail w = (case ctx of
     None \<Rightarrow> fail 500 ''contexto nao encontrado'' w
   | Some reqCtx \<Rightarrow> (case readLimited maxHandlerBody r of
       Inl e \<Rightarrow> fail 400 ''erro ao ler body'' w
     | Inr body \<Rightarrow> (case AcceptNonce now (rc_Nonce reqCtx) (GetNonceTTL cfg) (w_store w) of
         (Inl e, st) \<Rightarrow> fail 503 ''storage indisponivel'' (w\<lparr>w_store := st\<rparr>)
       | (Inr accepted, st) \<Rightarrow>
           if \<not> accepted then fail 401 ''nonce ja utilizado'' (w\<lparr>w_store := st\<rparr>)
           else k reqCtx body (w\<lparr>w_store := st\<rparr>))))"

definition httpFail :: "int \<Rightarrow> string \<Rightarrow> runState \<Rightarrow> reply \<times> runState" where
  "httpFail code text w = (HttpError code text, w)"

text \<open>Claiming the idempotency key, executing, and saving the response or releasing the claim.\<close>

definition executeOnce :: "string \<Rightarrow> (runState \<Rightarrow> outcome \<times> runState) \<Rightarrow> runState \<Rightarrow> reply \<times> runState" where
  "executeOnce key exec w = (case ClaimResult key (w_store w) of
     (Inl e, st) \<Rightarrow> httpFail 503 ''storage indisponivel'' (w\<lparr>w_store := st\<rparr>)
   | (Inr (previous, isDone, claimed), st) \<Rightarrow>
       if isDone then (Paid previous, w\<lparr>w_store := st\<rparr>)
       else if \<not> claimed then httpFail 409 ''idempotency key em processamento'' (w\<lparr>w_store := st\<rparr>)
       else (case exec (w\<lparr>w_store := st\<rparr>) of
         (None, w1) \<Rightarrow> (Aborted, w1)
       | (Some (Inl e), w1) \<Rightarrow> httpFail 502 (errorText e) (w1\<lparr>w_store := snd (ReleaseClaim key (w_store w1))\<rparr>)
       | (Some (Inr resp), w1) \<Rightarrow> (case SaveResult key resp (w_store w1) of
           (Some e, st2) \<Rightarrow> httpFail 503 ''storage indisponivel'' (w1\<lparr>w_store := st2\<rparr>)
         | (None, st2) \<Rightarrow> (Paid resp, w1\<lparr>w_store := st2\<rparr>))))"

text \<open>The skeleton of the three paying routes; \<open>key\<close> is the idempotency key of a decoded request.\<close>

definition payRoute ::
    "SignerConfig \<Rightarrow> CustodyGuard option \<Rightarrow> (byte list \<Rightarrow> 'q result) \<Rightarrow> ('q \<Rightarrow> string) \<Rightarrow> ('q \<Rightarrow> runState \<Rightarrow> outcome \<times> runState) \<Rightarrow>
      instant \<Rightarrow> HttpRequest \<Rightarrow> RequestContext option \<Rightarrow> runState \<Rightarrow> reply \<times> runState" where
  "payRoute cfg guard decode key exec now r ctx w =
     (if rq_Method r \<noteq> ''POST'' then httpFail 405 ''metodo nao permitido'' w
      else if fst (Locked guard) then httpFail 423 ''custody guard lockdown'' w
      else withAcceptedNonce cfg now r ctx (\<lambda>reqCtx body w1. case decode body of
          Inl e \<Rightarrow> httpFail 400 ''JSON invalido'' w1
        | Inr req \<Rightarrow> executeOnce (key req) (exec req) w1) httpFail w)"

text \<open>An empty idempotency key of a settlement is replaced by its operation id.\<close>

definition settlementWithKey :: "SettlementExecuteRequest \<Rightarrow> SettlementExecuteRequest" where
  "settlementWithKey req = (if TrimSpace (se_IdempotencyKey req) = []
     then req\<lparr>se_IdempotencyKey := TrimSpace (se_OperationID req)\<rparr> else req)"

definition unlockRoute ::
    "SignerConfig \<Rightarrow> CustodyGuard option \<Rightarrow> instant \<Rightarrow> HttpRequest \<Rightarrow> RequestContext option \<Rightarrow> runState \<Rightarrow>
      reply \<times> CustodyGuard option \<times> runState" where
  "unlockRoute cfg guard now r ctx w =
     (if rq_Method r \<noteq> ''POST'' then (HttpError 405 ''metodo nao permitido'', guard, w)
      else withAcceptedNonce cfg now r ctx (\<lambda>reqCtx body w1.
          case UnlockGuard now (decodeNote body) guard (Some (w_store w1)) of
            (e, guard1, st) \<Rightarrow> (let w2 = (case st of Some s \<Rightarrow> w1\<lparr>w_store := s\<rparr> | None \<Rightarrow> w1) in
              case e of Some err \<Rightarrow> (HttpError 423 (errorText err), guard1, w2)
              | None \<Rightarrow> (Unlocked (rc_RequestID reqCtx), guard1, w2)))
        (\<lambda>code text w1. (HttpError code text, guard, w1)) w)"

definition readyInitial :: "SignerConfig \<Rightarrow> bool \<Rightarrow> string \<Rightarrow> readyBody" where
  "readyInitial cfg locked lockReason = \<lparr>ready_ok = (\<not> locked), ready_service = ''signer'', ready_network = DefaultNetwork cfg,
     ready_nonceStore = NonceStoreType (Security cfg), ready_custodyGuard = CustodyGuardEnabled cfg, ready_custodyMode = CustodyMode cfg,
     ready_lockdown = locked, ready_treasury = \<lparr>lim_minUSDT = TreasuryMinUSDT cfg, lim_targetUSDT = TreasuryTargetUSDT cfg,
       lim_maxUSDT = TreasuryMaxUSDT cfg, lim_maxDailyOutflow = TreasuryMaxDailyOut cfg, lim_lockdownDailyOutflow = TreasuryLockThreshold cfg\<rparr>,
     ready_settlementVaultConfigured = (TrimSpace (BSCTreasuryContract cfg) \<noteq> []),
     ready_lockReason = (if locked then Some lockReason else None), ready_storage = None, ready_bsc = None\<rparr>"

definition readyRoute :: "SignerConfig \<Rightarrow> CustodyGuard option \<Rightarrow> runState \<Rightarrow> reply \<times> runState" where
  "readyRoute cfg guard w = (let
     (locked, lockReason) = Locked guard;
     ready0 = readyInitial cfg locked lockReason;
     (err, st) = Ready (w_store w);
     ready1 = (case err of Some e \<Rightarrow> ready0\<lparr>ready_ok := False, ready_storage := Some (errorText e)\<rparr> | None \<Rightarrow> ready0);
     ready2 = (if (DefaultNetwork cfg = ''BSC'' \<or> DefaultNetwork cfg = ''EVM'') \<and> (RPCURLs cfg = [] \<or> BSCUSDTContract cfg = [])
       then ready1\<lparr>ready_ok := False, ready_bsc := Some ''BSC_RPC_URLS e BSC_USDT_CONTRACT obrigatorios''\<rparr> else ready1)
     in (ReadyReply (if ready_ok ready2 then 200 else 503) ready2, w\<lparr>w_store := st\<rparr>))"

section \<open>Serving a request\<close>

definition guardRequest ::
    "SecurityOptions \<Rightarrow> instant \<Rightarrow> byte list option \<Rightarrow> HttpRequest \<Rightarrow> 'r securityStack \<Rightarrow> verdict \<times> 'r securityStack" where
  "guardRequest opts now rnd r stack = (case stack of
     MemorySecurity rv \<Rightarrow> (let (v, rv1) = Handler opts now rnd r rv in (v, MemorySecurity rv1))
   | RedisSecurity rv \<Rightarrow> (let (v, rv1) = Handler opts now rnd r rv in (v, RedisSecurity rv1)))"

definition transferRoute ::
    "geth \<Rightarrow> outside \<Rightarrow> SignerConfig \<Rightarrow> CustodyGuard option \<Rightarrow> HttpRequest \<Rightarrow> RequestContext option \<Rightarrow> runState \<Rightarrow>
      reply \<times> runState" where
  "transferRoute eth out cfg guard = payRoute cfg guard (decodeTransfer) tr_IdempotencyKey
     (executeTransfer eth cfg (o_now out) (o_net out)) (o_now out)"

definition settlementRoute ::
    "geth \<Rightarrow> outside \<Rightarrow> SignerConfig \<Rightarrow> CustodyGuard option \<Rightarrow> HttpRequest \<Rightarrow> RequestContext option \<Rightarrow> runState \<Rightarrow>
      reply \<times> runState" where
  "settlementRoute eth out cfg guard = payRoute cfg guard (\<lambda>body. map_sum id settlementWithKey (decodeSettlement body))
     se_IdempotencyKey (executeSettlement eth cfg (o_now out) (o_net out)) (o_now out)"

definition contractCallRoute ::
    "geth \<Rightarrow> outside \<Rightarrow> SignerConfig \<Rightarrow> CustodyGuard option \<Rightarrow> HttpRequest \<Rightarrow> RequestContext option \<Rightarrow> runState \<Rightarrow>
      reply \<times> runState" where
  "contractCallRoute eth out cfg guard = payRoute cfg guard (decodeContractCall) cc_IdempotencyKey
     (executeContractCall eth cfg (o_now out) (o_net out)) (o_now out)"

lemmas route_defs = transferRoute_def settlementRoute_def contractCallRoute_def

definition payRoutes ::
    "geth \<Rightarrow> outside \<Rightarrow> SignerConfig \<Rightarrow> CustodyGuard option \<Rightarrow> HttpRequest \<Rightarrow> RequestContext option \<Rightarrow> runState \<Rightarrow>
      (reply \<times> runState) option" where
  "payRoutes eth out cfg guard r ctx w =
     (if rq_Path r = ''/hd/transfer'' then Some (transferRoute eth out cfg guard r ctx w)
      else if rq_Path r = ''/settlements/execute'' then Some (settlementRoute eth out cfg guard r ctx w)
      else if rq_Path r = ''/hd/contract-call'' then Some (contractCallRoute eth out cfg guard r ctx w)
      else None)"

text \<open>The routes of the mux; any other path is not found.\<close>

definition serve :: "geth \<Rightarrow> outside \<Rightarrow> HttpRequest \<Rightarrow> 'r server \<Rightarrow> reply \<times> 'r server" where
  "serve eth out r sv =
     (if rq_Path r = ''/healthz'' then (Healthy, sv)
      else if rq_Path r = ''/readyz'' then
        (let (rep, w) = readyRoute (sv_cfg sv) (sv_guard sv) (sv_run sv) in (rep, sv\<lparr>sv_run := w\<rparr>))
      else if rq_Path r \<notin> {''/custody/unlock'', ''/hd/transfer'', ''/settlements/execute'', ''/hd/contract-call''}
      then (HttpError 404 ''404 page not found'', sv)
      else (case guardRequest (sv_opts sv) (o_now out) (o_rnd out) r (sv_security sv) of
        (Refuse code text, stack) \<Rightarrow> (HttpError code text, sv\<lparr>sv_security := stack\<rparr>)
      | (Reject code text, stack) \<Rightarrow> (Rejected code text, sv\<lparr>sv_security := stack\<rparr>)
      | (Forward r1 ctx, stack) \<Rightarrow>
          (case payRoutes eth out (sv_cfg sv) (sv_guard sv) r1 ctx (sv_run sv) of
             Some (rep, w) \<Rightarrow> (rep, sv\<lparr>sv_security := stack, sv_run := w\<rparr>)
           | None \<Rightarrow> (let (rep, guard, w) = unlockRoute (sv_cfg sv) (sv_guard sv) (o_now out) r1 ctx (sv_run sv)
               in (rep, sv\<lparr>sv_security := stack, sv_guard := guard, sv_run := w\<rparr>)))))"

section \<open>Lemmas\<close>

lemma readyRoute_run: "\<exists>status body. readyRoute cfg guard w = (ReadyReply status body, w\<lparr>w_store := snd (Ready (w_store w))\<rparr>)"
  by (simp add: readyRoute_def Let_def split_beta)

end
