(* ===== verification/Store_Relations.thy ===== *)
theory Store_Relations
  imports Handlers
begin

text \<open>
  Relations between the store before and after: whatever every operation of the interface \<open>signerStore\<close> respects,
  the custody guard, the monitor, the executions and the handlers respect as well. Three locales state it once for any
  relation that is reflexive and transitive: \<open>store_frame\<close> for the operations that neither reserve a chain nonce nor
  touch an idempotency key, \<open>store_relation\<close> with the reservation, \<open>store_evolution\<close> with the claims.
\<close>

section \<open>The custody guard and the monitor\<close>

locale store_frame =
  fixes R :: "signerStore \<Rightarrow> signerStore \<Rightarrow> bool"
  assumes refl [intro]: "R st st"
    and trans: "R a b \<Longrightarrow> R b c \<Longrightarrow> R a c"
    and accept: "R st (snd (AcceptNonce now n ttl st))"
    and event: "R st (snd (RecordCustodyEvent ev st))"
    and open_incident: "R st (snd (OpenCustodyIncident now reason mode st))"
    and active: "R st (snd (ActiveCustodyIncident st))"
    and resolve: "R st (snd (ResolveCustodyIncident now memo st))"
    and submitted: "R st (snd (MarkChainNonceSubmitted wallet network x h st))"
    and failed: "R st (snd (MarkChainNonceFailed wallet network x why st))"
    and create: "R st (snd (CreateSignerTransaction now item st))"
    and mark: "R st (snd (MarkSignerTransactionStatus h status reason 1 st))"
    and list_open: "R st (snd (ListOpenSignerTransactions limit st))"
    and outflow: "R st (snd (DailySubmittedOutflow now token network st))"
    and ready: "R st (snd (Ready st))"
begin

lemmas operations = accept event open_incident active resolve submitted failed create mark list_open outflow ready

text \<open>The laws after a first step, and on a call whose result is known.\<close>

lemmas after [intro] = operations [THEN trans [rotated]]

lemma known:
  "AcceptNonce now n ttl st = (a, st') \<Longrightarrow> R st st'"
  "DailySubmittedOutflow now token network st = (f, st') \<Longrightarrow> R st st'"
  "ListOpenSignerTransactions limit st = (l, st') \<Longrightarrow> R st st'"
  "ActiveCustodyIncident st = (i, st') \<Longrightarrow> R st st'"
  "ResolveCustodyIncident now memo st = (e, st') \<Longrightarrow> R st st'"
  "Ready st = (e, st') \<Longrightarrow> R st st'"
  by (metis operations snd_conv)+

lemma onStored: "(\<And>s. R s (snd (f s))) \<Longrightarrow> rel_option R st st1 \<Longrightarrow> rel_option R st (snd (onStored f skipped st1))"
  by (cases st; cases st1) (auto simp: onStored_def split_beta intro: trans)

lemma same: "rel_option R st st"
  by (cases st) auto

lemma recordEvent: "rel_option R st st1 \<Longrightarrow> rel_option R st (recordEvent g kind reason h w st1)"
  unfolding recordEvent_def by (rule onStored [OF event])

lemma Lock: "rel_option R st (snd gs) \<Longrightarrow> rel_option R st (snd (Lock now reason gs))"
  by (cases gs) (simp add: Lock_def Let_def recordEvent onStored [OF open_incident])

lemma inspectAuths: "rel_option R st (snd gs) \<Longrightarrow> rel_option R st (snd (inspectAuths eth net now source tx auths gs))"
  by (induction eth net now source tx auths gs rule: inspectAuths.induct)
    (simp_all add: Let_def Lock recordEvent split: sum.split option.split)

lemma inspectTransaction: "rel_option R st (snd gs) \<Longrightarrow> rel_option R st (snd (inspectTransaction eth net now source tx gs))"
  by (simp add: inspectTransaction_def inspectAuths split: option.split)

lemma inspectAll: "rel_option R st (snd gs) \<Longrightarrow> rel_option R st (snd (inspectAll eth net now tag txs gs))"
  by (induction txs arbitrary: gs) (simp_all add: Let_def inspectTransaction)

lemma scanBlockTag: "rel_option R st (snd gs) \<Longrightarrow> rel_option R st (snd (snd (scanBlockTag eth net now tag gs)))"
  by (simp add: scanBlockTag_def inspectAll split: option.split)

lemma scanOnce: "rel_option R (snd gs) (snd (scanOnce eth net now gs))"
  by (simp add: scanOnce_def Let_def scanBlockTag same)

lemma Start: "rel_option R (snd gs) (snd (snd (Start eth net now gs)))"
proof (cases gs)
  case (Pair g st)
  have "rel_option R st st1" if "onStored ActiveCustodyIncident (Inr None) st = (a, st1)" for a st1
    using onStored [OF active same, of st "Inr None"] that by simp
  with Pair show ?thesis by (auto simp: Start_def Let_def same Lock split: option.split prod.split)
qed

lemma unlocked: "unlocked memo g (Some s) = (e, g', st) \<Longrightarrow> R s0 s \<Longrightarrow> \<exists>s'. st = Some s' \<and> R s0 s'"
  by (auto simp: unlocked_def recordEvent_def onStored_def Let_def split: prod.splits) (metis after(2) snd_conv)

lemma Unlock: "Unlock now memo (g, Some s) = (e, g', st) \<Longrightarrow> \<exists>s'. st = Some s' \<and> R s s'"
proof -
  assume u: "Unlock now memo (g, Some s) = (e, g', st)"
  obtain x s1 where a: "ActiveCustodyIncident s = (x, s1)" by fastforce
  obtain y s2 where b: "ResolveCustodyIncident now memo s1 = (y, s2)" by fastforce
  have "R s s1" using known(4) a by blast
  moreover from this known(5) b have "R s s2" by (blast intro: trans)
  ultimately show ?thesis using u unlocked [of memo g s1 e g' st s] unlocked [of memo g s2 e g' st s]
    by (auto simp: Unlock_def a b Let_def split: sum.splits option.splits if_splits)
qed

lemma checkItem: "R st (checkItem eth cfg rcpt item st)"
  by (auto simp: checkItem_def Let_def split: option.split)

lemma checkSignerTransactions: "R st (checkSignerTransactions eth cfg receipts st)"
proof -
  have "R st (fold (checkItem eth cfg rcpt) items st1)" if "R st st1" for rcpt items st1
    using that by (induction items arbitrary: st1) (auto intro: trans [OF _ checkItem])
  then show ?thesis
    by (auto simp: checkSignerTransactions_def split: sum.split prod.split option.split dest: known)
qed

lemma treasuryCheck: "treasuryCheck cfg now token network amount extra st = (x, st') \<Longrightarrow> R st st'"
  by (auto simp: treasuryCheck_def Let_def split: sum.splits prod.splits if_splits dest: known)

lemma treasury:
  "validateTreasuryPolicy cfg now req network st = (x, st') \<Longrightarrow> R st st'"
  "validateContractCallTreasuryPolicy cfg now creq network st = (x, st') \<Longrightarrow> R st st'"
  by (auto simp: validateTreasuryPolicy_def validateContractCallTreasuryPolicy_def split: sum.splits if_splits
      dest: treasuryCheck)

end

section \<open>Executions\<close>

text \<open>What a function of the execution state does to the store.\<close>

definition relates :: "(signerStore \<Rightarrow> signerStore \<Rightarrow> bool) \<Rightarrow> (runState \<Rightarrow> 'a \<times> runState) \<Rightarrow> bool" where
  "relates R f = (\<forall>w. R (w_store w) (w_store (snd (f w))))"

lemma relatesD: "relates R f \<Longrightarrow> f w = (x, w') \<Longrightarrow> R (w_store w) (w_store w')"
  by (metis relates_def snd_conv)

locale store_relation = store_frame +
  assumes reserve: "R st (snd (ReserveChainNonce wallet network p st))"
begin

lemma reserved: "ReserveChainNonce wallet network p st = (x, st') \<Longrightarrow> R st st'"
  by (metis reserve snd_conv)

lemma reserveForSend: "reserveForSend eth cfg client from network extra st = (x, st') \<Longrightarrow> R st st'"
  by (auto simp: reserveForSend_def Let_def split: sum.splits prod.splits dest: known reserved)

lemma signAndSend: "relates R (signAndSend eth cfg now client key from network chainID tx item extra)"
  by (auto simp: relates_def signAndSend_def Let_def split: sum.splits option.splits)

lemma relates_then: "relates R f \<Longrightarrow> R st (w_store w) \<Longrightarrow> R st (w_store (snd (f w)))"
  using trans by (auto simp: relates_def)

lemma attempts:
  "relates R (executeEVMTransferWithClient eth cfg req network key from t c)"
  "relates R (executeEVMSettlementWithClient eth cfg sreq network key from amount t c)"
  "relates R (executeEVMContractCallWithClient eth cfg creq network key from t c)"
  unfolding relates_def executeEVMTransferWithClient_def executeEVMSettlementWithClient_def
    executeEVMContractCallWithClient_def
  by (auto simp: Let_def reserveForSend relates_then [OF signAndSend] split: sum.split option.split prod.split)

lemma sendLoop:
  assumes "\<And>t c. relates R (run t c)"
  shows "sendLoop net run err hs f w = (x, f', w') \<Longrightarrow> R (w_store w) (w_store w')"
proof (induction hs arbitrary: err f w)
  case (Cons h hs)
  have "R (w_store w) (w_store w')" if "run t c w = (y, w1)" "R (w_store w1) (w_store w')" for t c y w1
    using relatesD [OF assms that(1)] that(2) by (rule trans)
  then show ?case
    using Cons.prems Cons.IH relatesD [OF assms]
    by (auto simp: Let_def split: sum.splits option.splits prod.splits)
qed auto

lemma sendVia:
  assumes "\<And>t c. relates R (run t c)"
  shows "relates R (sendVia cfg now net run)"
  using sendLoop [OF assms]
  by (auto simp: relates_def sendVia_def Let_def split: option.split prod.split)

lemma withKey: "(\<And>key from. relates R (k key from)) \<Longrightarrow> relates R (\<lambda>w. withKey eth cfg (\<lambda>key from. k key from w) w)"
  by (auto simp: relates_def withKey_def split: sum.split)

lemma network_executions:
  "relates R (executeEVMTransfer eth cfg now net req network)"
  "relates R (executeEVMSettlement eth cfg now net sreq network amount)"
  "relates R (executeEVMContractCall eth cfg now net creq network)"
  unfolding executeEVMTransfer_def executeEVMSettlement_def executeEVMContractCall_def
  by (rule withKey; use sendVia [OF attempts(1)] sendVia [OF attempts(2)] sendVia [OF attempts(3)] in \<open>auto simp: relates_def\<close>)+

lemma executions:
  "relates R (executeTransfer eth cfg now net req)"
  "relates R (executeSettlement eth cfg now net sreq)"
  "relates R (executeContractCall eth cfg now net creq)"
  unfolding relates_def executeTransfer_def executeSettlement_def executeContractCall_def
  by (auto simp: Let_def refl network_executions [THEN relates_then] treasury split: option.split sum.split prod.split)

end

section \<open>Handlers\<close>

locale store_evolution = store_relation +
  assumes claim: "R st (snd (ClaimResult key st))"
    and save: "R st (snd (SaveResult key resp st))"
    and release: "R st (snd (ReleaseClaim key st))"
begin

lemma executeOnce:
  assumes "relates R exec"
  shows "relates R (executeOnce key exec)"
proof -
  have c: "R st st'" if "ClaimResult key st = (x, st')" for st x st' using claim [of st key] that by simp
  have s: "R st st'" if "SaveResult key resp st = (x, st')" for st resp x st' using save [of st key resp] that by simp
  have e: "R st (w_store w1)" if "exec (w\<lparr>w_store := st\<rparr>) = (x, w1)" for w x w1 st
    using relatesD [OF assms that] by simp
  show ?thesis
    unfolding relates_def executeOnce_def httpFail_def
    by (auto split: sum.split prod.split option.split if_split dest!: c e s intro: trans trans [OF _ release])
qed

lemma payRoute:
  assumes "\<And>req. relates R (exec req)" and "payRoute cfg guard decode key exec now r ctx w = (rep, w')"
  shows "R (w_store w) (w_store w')"
proof -
  have e: "R st (w_store w')" if "executeOnce k (exec req) (w\<lparr>w_store := st\<rparr>) = (rep, w')" for k req st
    using relatesD [OF executeOnce [OF assms(1)] that] by simp
  show ?thesis
    using assms(2) unfolding payRoute_def withAcceptedNonce_def httpFail_def
    by (auto split: if_splits option.splits sum.splits prod.splits dest!: e known(1) intro: trans)
qed

lemma payRoutes:
  "payRoutes eth out cfg guard r ctx w = Some (rep, w') \<Longrightarrow> R (w_store w) (w_store w')"
  using executions by (auto simp: payRoutes_def route_defs split: if_splits elim!: payRoute [rotated])

lemma unlockRoute:
  assumes "unlockRoute cfg guard now r ctx w = (rep, guard', w')"
  shows "R (w_store w) (w_store w')"
proof -
  have u: "\<exists>s'. st' = Some s' \<and> R s s'" if "UnlockGuard now nt g (Some s) = (e, g', st')" for nt g s e g' st'
    using that Unlock by (fastforce simp: UnlockGuard_def split: option.splits prod.splits)
  show ?thesis
    using assms known(1) u
    by (fastforce simp: unlockRoute_def withAcceptedNonce_def Let_def split: if_splits option.splits sum.splits prod.splits
        intro: trans)
qed

lemma serve:
  assumes "serve eth out r sv = (rep, sv')"
  shows "R (w_store (sv_run sv)) (w_store (sv_run sv'))"
  using assms known(6) payRoutes unlockRoute readyRoute_run [of "sv_cfg sv" "sv_guard sv" "sv_run sv"]
  by (fastforce simp: serve_def split: if_splits verdict.splits option.splits prod.splits)

end

end
