(* ===== verification/Key_Frames.thy ===== *)
theory Key_Frames
  imports Store_Relations
begin

text \<open>
  What the operations of the store and the executions leave of the idempotency keys: apart from claiming,
  saving and releasing, nothing touches them; and of the chain nonces: apart from the reservation, nothing does.
  Both are interpretations of the locales of \<open>Schema\<close> (on the tables) and \<open>Store_Relations\<close> (on the interface).
\<close>

section \<open>What an execution leaves of the idempotency keys\<close>

lemma keyView_onStore:
  assumes "\<And>s. ms_results (snd (f s)) = ms_results s \<and> ms_locks (snd (f s)) = ms_locks s"
    and "\<And>s. pgKeys (snd (g s)) = pgKeys s"
  shows "keyView (snd (onStore f g st)) = keyView st"
  using assms by (cases st) (simp_all add: onStore_def keyView_def pgKeys_def split_beta)

interpretation key_tables: table_reserve "\<lambda>s s'. pgKeys s' = pgKeys s"
  by unfold_locales (simp_all add: pgKeys_def sql_defs)

lemma keyView_RecordCustodyEvent [simp]: "keyView (snd (RecordCustodyEvent ev st)) = keyView st"
  unfolding RecordCustodyEvent_def
  by (rule keyView_onStore) (simp_all add: mem_RecordCustodyEvent_def key_tables.pg_writes)

lemma keyView_CreateSignerTransaction [simp]: "keyView (snd (CreateSignerTransaction now item st)) = keyView st"
  unfolding CreateSignerTransaction_def
  by (rule keyView_onStore) (simp_all add: mem_CreateSignerTransaction_def key_tables.pg_writes)

lemma keyView_DailySubmittedOutflow [simp]: "keyView (snd (DailySubmittedOutflow now tok n st)) = keyView st"
  unfolding DailySubmittedOutflow_def
  by (rule keyView_onStore) (simp_all add: mem_DailySubmittedOutflow_def key_tables.pg_reads)

lemma keyView_ActiveCustodyIncident [simp]: "keyView (snd (ActiveCustodyIncident st)) = keyView st"
  unfolding ActiveCustodyIncident_def
  by (rule keyView_onStore) (simp_all add: mem_ActiveCustodyIncident_def key_tables.pg_reads)

lemma keyView_OpenCustodyIncident [simp]: "keyView (snd (OpenCustodyIncident now reason mode st)) = keyView st"
  unfolding OpenCustodyIncident_def
  by (rule keyView_onStore) (simp_all add: mem_OpenCustodyIncident_def key_tables.pg_writes)

lemma keyView_ResolveCustodyIncident [simp]: "keyView (snd (ResolveCustodyIncident now memo st)) = keyView st"
  unfolding ResolveCustodyIncident_def
  by (rule keyView_onStore) (simp_all add: mem_ResolveCustodyIncident_def key_tables.pg_writes)

lemma keyView_Ready [simp]: "keyView (snd (Ready st)) = keyView st"
  unfolding Ready_def
  by (rule keyView_onStore) (simp_all add: mem_Ready_def key_tables.pg_reads)

lemma keyView_MarkChainNonceSubmitted [simp]: "keyView (snd (MarkChainNonceSubmitted wl n x h st)) = keyView st"
  unfolding MarkChainNonceSubmitted_def
  by (rule keyView_onStore) (simp_all add: mem_MarkChainNonceSubmitted_def key_tables.pg_writes)

lemma keyView_MarkChainNonceFailed [simp]: "keyView (snd (MarkChainNonceFailed wl n x e st)) = keyView st"
  unfolding MarkChainNonceFailed_def
  by (rule keyView_onStore) (simp_all add: mem_MarkChainNonceFailed_def key_tables.pg_writes)

lemma keyView_MarkSignerTransactionStatus [simp]: "keyView (snd (MarkSignerTransactionStatus h status reason c st)) = keyView st"
  unfolding MarkSignerTransactionStatus_def
  by (rule keyView_onStore) (simp_all add: mem_MarkSignerTransactionStatus_def key_tables.pg_writes split: option.split)

lemma keyView_ListOpenSignerTransactions [simp]: "keyView (snd (ListOpenSignerTransactions limit st)) = keyView st"
  unfolding ListOpenSignerTransactions_def
  by (rule keyView_onStore) (simp_all add: mem_ListOpenSignerTransactions_def key_tables.pg_reads)

lemma keyView_ReserveChainNonce [simp]: "keyView (snd (ReserveChainNonce wl n p st)) = keyView st"
  unfolding ReserveChainNonce_def
  by (rule keyView_onStore) (simp_all add: mem_ReserveChainNonce_def Let_def key_tables.pg_ReserveChainNonce)

lemma keyView_AcceptNonce [simp]: "keyView (snd (AcceptNonce now n ttl st)) = keyView st"
  unfolding AcceptNonce_def
  by (rule keyView_onStore) (simp_all add: mem_AcceptNonce_def Let_def key_tables.pg_AcceptNonce)

section \<open>The executions keep the keys\<close>

interpretation keys: store_relation "\<lambda>st st'. keyView st' = keyView st"
  by unfold_locales simp_all

text \<open>An execution that touches the store only through operations that keep the keys.\<close>

definition keeps_keys :: "(runState \<Rightarrow> 'a \<times> runState) \<Rightarrow> bool" where
  "keeps_keys f = (\<forall>w. keyView (w_store (snd (f w))) = keyView (w_store w))"

lemma keeps_keysD [simp]: "keeps_keys f \<Longrightarrow> keyView (w_store (snd (f w))) = keyView (w_store w)"
  by (simp add: keeps_keys_def)

lemma executions_keep_keys:
  "keeps_keys (executeTransfer eth cfg now net req)"
  "keeps_keys (executeSettlement eth cfg now net sreq)"
  "keeps_keys (executeContractCall eth cfg now net creq)"
  using keys.executions by (simp_all add: keeps_keys_def relates_def)

section \<open>What reserves no chain nonce keeps the chain nonces\<close>

lemma chainView_ActiveCustodyIncident [simp]: "chainView (snd (ActiveCustodyIncident st)) = chainView st"
  unfolding ActiveCustodyIncident_def
  by (rule chainView_onStore) (simp_all add: mem_ActiveCustodyIncident_def rows.pg_reads)

lemma chainView_OpenCustodyIncident [simp]: "chainView (snd (OpenCustodyIncident now reason mode st)) = chainView st"
  unfolding OpenCustodyIncident_def
  by (rule chainView_onStore) (simp_all add: mem_OpenCustodyIncident_def rows.pg_writes)

lemma chainView_ResolveCustodyIncident [simp]: "chainView (snd (ResolveCustodyIncident now memo st)) = chainView st"
  unfolding ResolveCustodyIncident_def
  by (rule chainView_onStore) (simp_all add: mem_ResolveCustodyIncident_def rows.pg_writes)

lemma chainView_Ready [simp]: "chainView (snd (Ready st)) = chainView st"
  unfolding Ready_def
  by (rule chainView_onStore) (simp_all add: mem_Ready_def rows.pg_reads)

lemma chainView_MarkSignerTransactionStatus [simp]: "chainView (snd (MarkSignerTransactionStatus h status reason c st)) = chainView st"
  unfolding MarkSignerTransactionStatus_def
  by (rule chainView_onStore) (simp_all add: mem_MarkSignerTransactionStatus_def rows.pg_writes split: option.split)

lemma chainView_ListOpenSignerTransactions [simp]: "chainView (snd (ListOpenSignerTransactions limit st)) = chainView st"
  unfolding ListOpenSignerTransactions_def
  by (rule chainView_onStore) (simp_all add: mem_ListOpenSignerTransactions_def rows.pg_reads)

lemma chainView_AcceptNonce [simp]: "chainView (snd (AcceptNonce now n ttl st)) = chainView st"
  unfolding AcceptNonce_def
  by (rule chainView_onStore) (simp_all add: mem_AcceptNonce_def Let_def rows.pg_AcceptNonce)

lemma chainView_claims [simp]:
  "chainView (snd (ClaimResult key st)) = chainView st"
  "chainView (snd (SaveResult key resp st)) = chainView st"
  "chainView (snd (ReleaseClaim key st)) = chainView st"
  unfolding ClaimResult_def SaveResult_def ReleaseClaim_def
  by (rule chainView_onStore; simp add: mem_ClaimResult_def mem_SaveResult_def mem_ReleaseClaim_def rows_claims.pg_claims
      split: option.split)+

interpretation chain: store_frame "\<lambda>st st'. chainView st' = chainView st"
  by unfold_locales simp_all

section \<open>The guard and the monitor\<close>

text \<open>The guard with its optional store, given a store.\<close>

lemma guard_keys:
  "scanOnce eth net now (g, Some st) = (g', st') \<Longrightarrow> \<exists>s. st' = Some s \<and> keyView s = keyView st"
  "Start eth net now (g, Some st) = (running, g', st') \<Longrightarrow> \<exists>s. st' = Some s \<and> keyView s = keyView st"
  using keys.scanOnce [of "(g, Some st)" eth net now] keys.Start [of "(g, Some st)" eth net now]
  by (auto simp: option_rel_Some1)

lemma guard_chain:
  "scanOnce eth net now (g, Some st) = (g', st') \<Longrightarrow> \<exists>s. st' = Some s \<and> chainView s = chainView st"
  "Start eth net now (g, Some st) = (running, g', st') \<Longrightarrow> \<exists>s. st' = Some s \<and> chainView s = chainView st"
  using chain.scanOnce [of "(g, Some st)" eth net now] chain.Start [of "(g, Some st)" eth net now]
  by (auto simp: option_rel_Some1)

text \<open>A round of the monitor touches neither the idempotency keys nor the chain nonces.\<close>

lemma views_round:
  "keyView (checkSignerTransactions eth cfg net st) = keyView st \<and>
   chainView (checkSignerTransactions eth cfg net st) = chainView st"
  using keys.checkSignerTransactions chain.checkSignerTransactions by blast

end
