(* ===== verification/Serving.thy ===== *)
theory Serving
  imports Key_Frames
begin

text \<open>
  How a request changes the server. A settled idempotency key stays settled whatever is served, a reply
  that says \<open>Paid\<close> settles its key, and a settled key is never executed again; the lemmas go from
  \<open>executeOnce\<close> through the routes to \<open>serve\<close>. Sequences of steps are the subject of \<open>Background\<close>.
\<close>

section \<open>One claimed execution\<close>

lemma storeView_cong: "keyView st' = keyView st \<Longrightarrow> storeView st' k = storeView st k"
  by (simp add: storeView_keyView)

text \<open>The three ways \<open>executeOnce\<close> can go.\<close>

lemma executeOnce_cases:
  assumes "executeOnce key exec w = (rep, w')"
  obtains (refused) x st where "ClaimResult key (w_store w) = (x, st)" "\<And>r c. x \<noteq> Inr (r, True, c)" "\<And>r. x \<noteq> Inr (r, False, True)"
      "w' = w\<lparr>w_store := st\<rparr>" "\<And>r. rep \<noteq> Paid r"
  | (replayed) r c st where "ClaimResult key (w_store w) = (Inr (r, True, c), st)" "w' = w\<lparr>w_store := st\<rparr>" "rep = Paid r"
  | (executed) r st x w1 where "ClaimResult key (w_store w) = (Inr (r, False, True), st)"
      "exec (w\<lparr>w_store := st\<rparr>) = (x, w1)" "w_sent w' = w_sent w1"
      "x = None \<and> rep = Aborted \<and> w_store w' = w_store w1 \<or>
       (\<exists>e. x = Some (Inl e) \<and> (\<forall>r. rep \<noteq> Paid r) \<and> w_store w' = snd (ReleaseClaim key (w_store w1))) \<or>
       (\<exists>resp e. x = Some (Inr resp) \<and> SaveResult key resp (w_store w1) = (e, w_store w') \<and>
          (if e = None then rep = Paid resp else \<forall>r. rep \<noteq> Paid r))"
proof -
  obtain x st where c: "ClaimResult key (w_store w) = (x, st)" by fastforce
  show thesis
  proof (cases x)
    case (Inl e)
    with assms c have "rep = HttpError 503 ''storage indisponivel''" "w' = w\<lparr>w_store := st\<rparr>"
      by (simp_all add: executeOnce_def httpFail_def)
    with c Inl show ?thesis by (intro refused) auto
  next
    case (Inr y)
    obtain r d cl where y: "y = (r, d, cl)" by (metis prod_cases3)
    show ?thesis
    proof (cases "d \<or> \<not> cl")
      case True
      with assms c Inr y refused [of x st] replayed [of r cl st] show ?thesis
        by (cases d) (auto simp: executeOnce_def httpFail_def)
    next
      case False
      obtain o1 w1 where e: "exec (w\<lparr>w_store := st\<rparr>) = (o1, w1)" by fastforce
      from False assms c Inr y e executed [of r st o1 w1] show ?thesis
        by (auto simp: executeOnce_def httpFail_def split: option.splits sum.splits prod.splits)
    qed
  qed
qed

lemma executeOnce_settled:
  assumes "executeOnce k exec w = (rep, w')" and "k \<noteq> []" and "storeView (w_store w) k = Done resp"
  shows "w_sent w' = w_sent w \<and> storeView (w_store w') k = Done resp \<and> (\<forall>r. rep = Paid r \<longrightarrow> r = resp)"
  using assms(1)
proof (cases rule: executeOnce_cases)
  case (refused x st)
  have "storeView st k = Done resp"
  proof (cases x)
    case (Inl e)
    with refused(1) assms(2,3) iface.claim_err show ?thesis by fastforce
  next
    case (Inr y)
    with refused(2,3) obtain r where "y = (r, False, False)" by (metis (full_types) prod_cases3)
    with refused(1) Inr assms(2,3) iface.claim_busy show ?thesis by fastforce
  qed
  with refused show ?thesis by simp
next
  case (replayed r c st)
  with iface.claim_done [OF assms(2) replayed(1)] assms(3) show ?thesis by simp
next
  case (executed r st x w1)
  with iface.claim_won [OF assms(2) executed(1)] assms(3) show ?thesis by simp
qed

lemma executeOnce_frame:
  assumes "executeOnce key exec w = (rep, w')" and "k \<noteq> []" and "key \<noteq> k" and "keeps_keys exec"
  shows "storeView (w_store w') k = storeView (w_store w) k"
proof -
  have c: "storeView st k = storeView (w_store w) k" if "ClaimResult key (w_store w) = (x, st)" for x st
    using iface.claim_frame [OF _ assms(2) that] assms(3) by blast
  from assms(1) show ?thesis
  proof (cases rule: executeOnce_cases)
    case (refused x st)
    with c show ?thesis by simp
  next
    case (replayed r cl st)
    with c show ?thesis by simp
  next
    case (executed r st x w1)
    have "storeView (w_store w1) k = storeView st k"
      using keeps_keysD [OF assms(4), of "w\<lparr>w_store := st\<rparr>"] executed(2) by (intro storeView_cong) simp
    moreover have "storeView (w_store w') k = storeView (w_store w1) k"
      using executed(4) iface.save_frame [of k key] iface.release_frame [of k key] assms(2,3)
      by (metis prod.collapse)
    ultimately show ?thesis using c [OF executed(1)] by simp
  qed
qed

lemma executeOnce_paid:
  assumes "executeOnce k exec w = (Paid resp, w')" and "k \<noteq> []" and "keeps_keys exec"
  shows "storeView (w_store w') k = Done resp"
  using assms(1)
proof (cases rule: executeOnce_cases)
  case (refused x st)
  then show ?thesis by blast
next
  case (replayed r c st)
  with iface.claim_done [OF assms(2) replayed(1)] show ?thesis by simp
next
  case (executed r st x w1)
  have "storeView (w_store w1) k = storeView st k"
    using keeps_keysD [OF assms(3), of "w\<lparr>w_store := st\<rparr>"] executed(2) by (intro storeView_cong) simp
  with iface.claim_won [OF assms(2) executed(1)] have "storeView (w_store w1) k = Claimed" by simp
  moreover from executed(4) have "SaveResult k resp (w_store w1) = (None, w_store w')"
    by (auto split: if_splits)
  ultimately show ?thesis using iface.save_claimed [OF assms(2)] by blast
qed

section \<open>The routes\<close>

lemma withAcceptedNonce_cases:
  assumes "withAcceptedNonce cfg now r ctx k fail w = z"
  obtains (failed) code msg st where "z = fail code msg (w\<lparr>w_store := st\<rparr>)" "keyView st = keyView (w_store w)"
  | (accepted) reqCtx body st where "ctx = Some reqCtx" "readLimited maxHandlerBody r = Inr body"
      "AcceptNonce now (rc_Nonce reqCtx) (GetNonceTTL cfg) (w_store w) = (Inr True, st)"
      "keyView st = keyView (w_store w)" "z = k reqCtx body (w\<lparr>w_store := st\<rparr>)"
proof -
  have a: "keyView st = keyView (w_store w)" if "AcceptNonce now n ttl (w_store w) = (x, st)" for n ttl x st
    using keyView_AcceptNonce [of now n ttl "w_store w"] that by simp
  show thesis
    using assms failed [of _ _ "w_store w"] failed accepted a
    by (auto simp: withAcceptedNonce_def split: option.splits sum.splits prod.splits if_splits)
qed

lemma payRoute_cases:
  assumes "payRoute cfg guard decode key exec now r ctx w = (rep, w')"
  obtains (failed) code msg st where "rep = HttpError code msg" "w' = w\<lparr>w_store := st\<rparr>" "keyView st = keyView (w_store w)"
  | (passed) reqCtx body st req where "rq_Method r = ''POST''" "\<not> fst (Locked guard)" "ctx = Some reqCtx"
      "readLimited maxHandlerBody r = Inr body"
      "AcceptNonce now (rc_Nonce reqCtx) (GetNonceTTL cfg) (w_store w) = (Inr True, st)" "keyView st = keyView (w_store w)"
      "decode body = Inr req" "executeOnce (key req) (exec req) (w\<lparr>w_store := st\<rparr>) = (rep, w')"
proof (cases "rq_Method r = ''POST'' \<and> \<not> fst (Locked guard)")
  case False
  with assms failed [of _ _ "w_store w"] show thesis by (auto simp: payRoute_def httpFail_def split: if_splits)
next
  case True
  with assms have "withAcceptedNonce cfg now r ctx (\<lambda>reqCtx body w1. case decode body of
      Inl e \<Rightarrow> httpFail 400 ''JSON invalido'' w1
    | Inr req \<Rightarrow> executeOnce (key req) (exec req) w1) httpFail w = (rep, w')" by (simp add: payRoute_def)
  then show thesis
  proof (cases rule: withAcceptedNonce_cases)
    case (failed code msg st)
    then show ?thesis using that(1) by (simp add: httpFail_def)
  next
    case (accepted reqCtx body st)
    show ?thesis
    proof (cases "decode body")
      case (Inl e)
      with accepted that(1) show ?thesis by (simp add: httpFail_def)
    next
      case (Inr req)
      with accepted True that(2) show ?thesis by simp
    qed
  qed
qed

lemma unlockRoute_run:
  assumes "unlockRoute cfg guard now r ctx w = (rep, guard', w')"
  shows "\<exists>st. w' = w\<lparr>w_store := st\<rparr> \<and> keyView st = keyView (w_store w) \<and> (\<forall>p. rep \<noteq> Paid p)"
proof (cases "rq_Method r = ''POST''")
  case False
  with assms show ?thesis by (auto simp: unlockRoute_def intro: exI [of _ "w_store w"])
next
  case True
  with assms have "withAcceptedNonce cfg now r ctx (\<lambda>reqCtx body w1.
      case UnlockGuard now (decodeNote body) guard (Some (w_store w1)) of
        (e, guard1, st) \<Rightarrow> (let w2 = (case st of Some s \<Rightarrow> w1\<lparr>w_store := s\<rparr> | None \<Rightarrow> w1) in
          case e of Some err \<Rightarrow> (HttpError 423 (errorText err), guard1, w2)
          | None \<Rightarrow> (Unlocked (rc_RequestID reqCtx), guard1, w2)))
    (\<lambda>code text w1. (HttpError code text, guard, w1)) w = (rep, guard', w')"
    by (simp add: unlockRoute_def)
  then show ?thesis
  proof (cases rule: withAcceptedNonce_cases)
    case (failed code msg st)
    then show ?thesis by auto
  next
    case (accepted reqCtx body st)
    obtain e g1 st1 where u: "UnlockGuard now (decodeNote body) guard (Some st) = (e, g1, st1)" by (metis prod_cases3)
    then obtain s1 where "st1 = Some s1" "keyView s1 = keyView st"
      using keys.Unlock by (fastforce simp: UnlockGuard_def split: option.splits prod.splits)
    with accepted u show ?thesis by (auto simp: Let_def split: option.splits)
  qed
qed

section \<open>Serving\<close>

text \<open>What the middleware hands on: the same method and path, and a prefix of the body.\<close>

lemma readLimited_prefix: "readLimited n r = Inr b \<Longrightarrow> \<exists>m. b = take m (rq_Body r)"
  by (auto simp: readLimited_def split: if_splits option.splits intro: exI [of _ "length (rq_Body r)"])

lemma Handler_forward:
  assumes "Handler opts now rnd r rv = (Forward r' c, rv')"
  shows "rq_Method r' = rq_Method r \<and> rq_Path r' = rq_Path r \<and> (\<exists>m. rq_Body r' = take m (rq_Body r))"
proof (cases "r' = r")
  case True
  then show ?thesis by (auto intro: exI [of _ "length (rq_Body r)"])
next
  case False
  with assms obtain ctx where v: "ValidateRequest now rnd r rv = ((ctx, None), r', rv')"
    unfolding Handler_def by (auto split: prod.splits option.splits if_splits)
  obtain tsStr nonce hdr legacy where cr: "credentials r = (tsStr, nonce, hdr, legacy)" by (cases "credentials r") auto
  from ValidateRequest_ok [OF v cr] have "readLimited (rv_maxBodySize rv) r = Inr (rq_Body r')" by blast
  moreover have "rq_Method r' = rq_Method r \<and> rq_Path r' = rq_Path r"
    using v unfolding ValidateRequest_def by (auto simp: Let_def split: if_splits sum.splits option.splits prod.splits)
  ultimately show ?thesis using readLimited_prefix by blast
qed

lemma guardRequest_forward:
  assumes "guardRequest opts now rnd r stack = (Forward r' c, stack')"
  shows "rq_Method r' = rq_Method r \<and> rq_Path r' = rq_Path r \<and> (\<exists>m. rq_Body r' = take m (rq_Body r))"
proof (cases stack)
  case (MemorySecurity rv)
  with assms obtain rv' where "Handler opts now rnd r rv = (Forward r' c, rv')"
    by (auto simp: guardRequest_def split: prod.splits)
  then show ?thesis by (rule Handler_forward)
next
  case (RedisSecurity rv)
  with assms obtain rv' where "Handler opts now rnd r rv = (Forward r' c, rv')"
    by (auto simp: guardRequest_def split: prod.splits)
  then show ?thesis by (rule Handler_forward)
qed

text \<open>The idempotency key of a paying request: what every decodable prefix of its body agrees on.\<close>

definition payKey :: "HttpRequest \<Rightarrow> string \<Rightarrow> bool" where
  "payKey r k = (\<forall>m.
     (rq_Path r = ''/hd/transfer'' \<longrightarrow> (\<forall>req. decodeTransfer (take m (rq_Body r)) = Inr req \<longrightarrow> tr_IdempotencyKey req = k)) \<and>
     (rq_Path r = ''/settlements/execute'' \<longrightarrow> (\<forall>req. decodeSettlement (take m (rq_Body r)) = Inr req \<longrightarrow>
        se_IdempotencyKey (settlementWithKey req) = k)) \<and>
     (rq_Path r = ''/hd/contract-call'' \<longrightarrow> (\<forall>req. decodeContractCall (take m (rq_Body r)) = Inr req \<longrightarrow> cc_IdempotencyKey req = k)))"

text \<open>The key under which a paying route executes a request that the middleware handed on.\<close>

definition routeKey :: "HttpRequest \<Rightarrow> string option" where
  "routeKey r = (case readLimited maxHandlerBody r of Inl _ \<Rightarrow> None | Inr body \<Rightarrow>
     if rq_Path r = ''/hd/transfer'' then
       (case decodeTransfer body of Inl _ \<Rightarrow> None | Inr req \<Rightarrow> Some (tr_IdempotencyKey req))
     else if rq_Path r = ''/settlements/execute'' then
       (case decodeSettlement body of Inl _ \<Rightarrow> None | Inr req \<Rightarrow> Some (se_IdempotencyKey (settlementWithKey req)))
     else if rq_Path r = ''/hd/contract-call'' then
       (case decodeContractCall body of Inl _ \<Rightarrow> None | Inr req \<Rightarrow> Some (cc_IdempotencyKey req))
     else None)"

definition payPaths :: "string set" where
  "payPaths = {''/hd/transfer'', ''/settlements/execute'', ''/hd/contract-call''}"

definition anExecution ::
    "geth \<Rightarrow> SignerConfig \<Rightarrow> instant \<Rightarrow> (string \<Rightarrow> attempt) \<Rightarrow> (runState \<Rightarrow> outcome \<times> runState) \<Rightarrow> bool" where
  "anExecution eth cfg now net exec = ((\<exists>req. exec = executeTransfer eth cfg now net req) \<or>
     (\<exists>req. exec = executeSettlement eth cfg now net req) \<or> (\<exists>req. exec = executeContractCall eth cfg now net req))"

text \<open>A paying route either fails before the claim or runs one claimed execution.\<close>

lemma payRoutes_cases:
  assumes "payRoutes eth out cfg guard r ctx w = Some (rep, w')"
  obtains (failed) code msg st where "rep = HttpError code msg" "w' = w\<lparr>w_store := st\<rparr>" "keyView st = keyView (w_store w)"
  | (passed) reqCtx st key exec where "rq_Method r = ''POST''" "\<not> fst (Locked guard)" "ctx = Some reqCtx"
      "AcceptNonce (o_now out) (rc_Nonce reqCtx) (GetNonceTTL cfg) (w_store w) = (Inr True, st)" "keyView st = keyView (w_store w)"
      "keeps_keys exec" "executeOnce key exec (w\<lparr>w_store := st\<rparr>) = (rep, w')"
      "\<And>k. payKey r k \<Longrightarrow> key = k" "anExecution eth cfg (o_now out) (o_net out) exec" "routeKey r = Some key"
proof -
  consider (t) "rq_Path r = ''/hd/transfer''" | (s) "rq_Path r = ''/settlements/execute''" "rq_Path r \<noteq> ''/hd/transfer''"
    | (c) "rq_Path r = ''/hd/contract-call''" "rq_Path r \<noteq> ''/hd/transfer''" "rq_Path r \<noteq> ''/settlements/execute''"
    using assms by (auto simp: payRoutes_def split: if_splits)
  then show thesis
  proof cases
    case t
    with assms have "payRoute cfg guard (decodeTransfer) tr_IdempotencyKey
        (executeTransfer eth cfg (o_now out) (o_net out)) (o_now out) r ctx w = (rep, w')" by (simp add: payRoutes_def route_defs)
    then show ?thesis
    proof (cases rule: payRoute_cases)
      case (passed reqCtx body st req)
      have "tr_IdempotencyKey req = k" if "payKey r k" for k
        using that t passed(7) readLimited_prefix [OF passed(4)] by (auto simp: payKey_def)
      moreover have "routeKey r = Some (tr_IdempotencyKey req)" using t passed(4,7) by (simp add: routeKey_def)
      ultimately show ?thesis using passed executions_keep_keys that(2) by (blast intro: anExecution_def [THEN iffD2])
    qed (rule that(1))
  next
    case s
    with assms have "payRoute cfg guard (\<lambda>body. map_sum id settlementWithKey (decodeSettlement body)) se_IdempotencyKey
        (executeSettlement eth cfg (o_now out) (o_net out)) (o_now out) r ctx w = (rep, w')" by (simp add: payRoutes_def route_defs)
    then show ?thesis
    proof (cases rule: payRoute_cases)
      case (passed reqCtx body st req)
      have "se_IdempotencyKey req = k" if "payKey r k" for k
        using that s(1) passed(7) readLimited_prefix [OF passed(4)]
        by (cases "decodeSettlement body") (auto simp: payKey_def)
      moreover have "routeKey r = Some (se_IdempotencyKey req)"
        using s passed(4,7) by (cases "decodeSettlement body") (auto simp: routeKey_def)
      ultimately show ?thesis using passed executions_keep_keys that(2) by (blast intro: anExecution_def [THEN iffD2])
    qed (rule that(1))
  next
    case c
    with assms have "payRoute cfg guard (decodeContractCall) cc_IdempotencyKey
        (executeContractCall eth cfg (o_now out) (o_net out)) (o_now out) r ctx w = (rep, w')" by (simp add: payRoutes_def route_defs)
    then show ?thesis
    proof (cases rule: payRoute_cases)
      case (passed reqCtx body st req)
      have "cc_IdempotencyKey req = k" if "payKey r k" for k
        using that c(1) passed(7) readLimited_prefix [OF passed(4)] by (auto simp: payKey_def)
      moreover have "routeKey r = Some (cc_IdempotencyKey req)" using c passed(4,7) by (simp add: routeKey_def)
      ultimately show ?thesis using passed executions_keep_keys that(2) by (blast intro: anExecution_def [THEN iffD2])
    qed (rule that(1))
  qed
qed

lemma payKey_forward:
  assumes "rq_Path r' = rq_Path r" and "rq_Body r' = take m (rq_Body r)" and "payKey r k"
  shows "payKey r' k"
  using assms unfolding payKey_def by (simp add: take_take)

text \<open>What serving a request does to the execution state.\<close>

lemma serve_cases:
  assumes "serve eth out r sv = (rep, sv')"
  obtains (idle) "sv_run sv' = sv_run sv" "\<And>p. rep \<noteq> Paid p"
  | (store) st where "sv_run sv' = (sv_run sv)\<lparr>w_store := st\<rparr>" "keyView st = keyView (w_store (sv_run sv))" "\<And>p. rep \<noteq> Paid p"
  | (pay) r1 ctx stack where "rq_Path r \<in> payPaths"
      "guardRequest (sv_opts sv) (o_now out) (o_rnd out) r (sv_security sv) = (Forward r1 ctx, stack)"
      "payRoutes eth out (sv_cfg sv) (sv_guard sv) r1 ctx (sv_run sv) = Some (rep, sv_run sv')"
proof -
  let ?g = "guardRequest (sv_opts sv) (o_now out) (o_rnd out) r (sv_security sv)"
  consider (health) "rq_Path r = ''/healthz''" | (ready) "rq_Path r \<noteq> ''/healthz''" "rq_Path r = ''/readyz''"
    | (none) "rq_Path r \<noteq> ''/healthz''" "rq_Path r \<noteq> ''/readyz''"
        "rq_Path r \<notin> {''/custody/unlock'', ''/hd/transfer'', ''/settlements/execute'', ''/hd/contract-call''}"
    | (guarded) "rq_Path r \<noteq> ''/healthz''" "rq_Path r \<noteq> ''/readyz''"
        "rq_Path r \<in> {''/custody/unlock'', ''/hd/transfer'', ''/settlements/execute'', ''/hd/contract-call''}" by blast
  then show thesis
  proof cases
    case health
    with assms idle show ?thesis by (simp add: serve_def)
  next
    case ready
    obtain err st where "Ready (w_store (sv_run sv)) = (err, st)" by fastforce
    moreover obtain status body where "readyRoute (sv_cfg sv) (sv_guard sv) (sv_run sv)
        = (ReadyReply status body, (sv_run sv)\<lparr>w_store := snd (Ready (w_store (sv_run sv)))\<rparr>)"
      using readyRoute_run by blast
    ultimately have "sv_run sv' = (sv_run sv)\<lparr>w_store := st\<rparr>" "\<And>p. rep \<noteq> Paid p"
      "keyView st = keyView (w_store (sv_run sv))"
      using ready assms keyView_Ready [of "w_store (sv_run sv)"] by (auto simp: serve_def)
    then show ?thesis using store by blast
  next
    case none
    with assms idle show ?thesis by (auto simp: serve_def)
  next
    case guarded
    show ?thesis
    proof (cases ?g)
      case (Pair v stack)
      show ?thesis
      proof (cases v)
        case (Refuse code msg)
        with guarded Pair assms idle show ?thesis by (auto simp: serve_def)
      next
        case (Reject code msg)
        with guarded Pair assms idle show ?thesis by (auto simp: serve_def)
      next
        case (Forward r1 ctx)
        note path = guardRequest_forward [OF Pair [unfolded Forward]]
        show ?thesis
        proof (cases "payRoutes eth out (sv_cfg sv) (sv_guard sv) r1 ctx (sv_run sv)")
          case None
          with guarded Pair Forward assms have u: "unlockRoute (sv_cfg sv) (sv_guard sv) (o_now out) r1 ctx (sv_run sv)
              = (rep, sv_guard sv', sv_run sv')"
            by (auto simp: serve_def split: prod.splits)
          then show ?thesis using unlockRoute_run [OF u] store by blast
        next
          case (Some z)
          with guarded Pair Forward assms have "payRoutes eth out (sv_cfg sv) (sv_guard sv) r1 ctx (sv_run sv) = Some (rep, sv_run sv')"
            by (auto simp: serve_def split: prod.splits)
          moreover have "rq_Path r \<in> payPaths" using Some path by (auto simp: payRoutes_def payPaths_def split: if_splits)
          ultimately show ?thesis using pay Pair Forward by blast
        qed
      qed
    qed
  qed
qed

lemma serve_cfg: "serve eth out r sv = (rep, sv') \<Longrightarrow> sv_cfg sv' = sv_cfg sv"
  by (auto simp: serve_def Let_def split: if_splits verdict.splits option.splits prod.splits)

definition settled :: "string \<Rightarrow> TransferResponse \<Rightarrow> 'r server \<Rightarrow> bool" where
  "settled k resp sv = (storeView (w_store (sv_run sv)) k = Done resp)"

lemma serve_settled:
  assumes "serve eth out r sv = (rep, sv')" and "k \<noteq> []" and "settled k resp sv"
  shows "settled k resp sv'"
  using assms(1)
proof (cases rule: serve_cases)
  case idle
  with assms(3) show ?thesis by (simp add: settled_def)
next
  case (store st)
  with assms(3) show ?thesis by (simp add: settled_def storeView_cong [of st])
next
  case (pay r1 ctx stack)
  from pay(3) show ?thesis
  proof (cases rule: payRoutes_cases)
    case (failed code msg st)
    with assms(3) show ?thesis by (simp add: settled_def storeView_cong [of st])
  next
    case (passed reqCtx st key exec)
    have s: "storeView (w_store ((sv_run sv)\<lparr>w_store := st\<rparr>)) k = Done resp"
      using assms(3) passed(5) by (simp add: settled_def storeView_cong [of st])
    show ?thesis
    proof (cases "key = k")
      case True
      with executeOnce_settled [OF passed(7) [unfolded True] assms(2) s] show ?thesis by (simp add: settled_def)
    next
      case False
      with executeOnce_frame [OF passed(7) assms(2) False passed(6)] s show ?thesis by (simp add: settled_def)
    qed
  qed
qed

section \<open>A concrete request\<close>

lemma demoBody_decoded: "decodeTransfer demoBody = Inr (payRequest [])"
  by code_simp

lemma demoBody_unclosed: "hd (bytesString demoBody) = CHR ''{''" "CHR ''}'' \<notin> set (take 87 (bytesString demoBody))"
  by code_simp+

lemma demo_payKey: "payKey (demoRequest demoSig) ''k''"
proof -
  have cut: "\<exists>e. decodeTransfer (take m demoBody) = Inl e" if "m < 88" for m
  proof (cases m)
    case 0
    have "case decodeTransfer [] of Inl _ \<Rightarrow> True | Inr _ \<Rightarrow> False" by code_simp
    with 0 show ?thesis by (simp split: sum.splits)
  next
    case (Suc n)
    obtain cs where body: "bytesString demoBody = CHR ''{'' # cs"
      using demoBody_unclosed(1) demoBody_length by (cases "bytesString demoBody") (auto simp: bytesString_def)
    obtain s where s: "demoBody = stringBytes s" unfolding demoBody_def by blast
    have "take m demoBody = stringBytes (take m (bytesString demoBody))"
      unfolding s bytesString_stringBytes by (simp add: take_map stringBytes_def)
    then have cut: "take m demoBody = stringBytes (CHR ''{'' # take n cs)" by (simp add: body Suc)
    have "take n cs = take n (take 86 cs)" using that Suc by (simp add: min_def)
    then have "set (take n cs) \<subseteq> set (take 86 cs)" by (metis set_take_subset)
    then have "set (take n cs) \<subseteq> set (take 87 (bytesString demoBody))" by (auto simp: body take_Cons')
    with demoBody_unclosed(2) have "CHR ''}'' \<notin> set (take n cs)" by blast
    from decode_unclosed(1) [OF cut this] show ?thesis .
  qed
  have key: "tr_IdempotencyKey req = ''k''" if "decodeTransfer (take m demoBody) = Inr req" for m req
  proof (cases "m < 88")
    case True
    with cut [of m] that show ?thesis by auto
  next
    case False
    with that demoBody_length demoBody_decoded show ?thesis by (auto simp: payRequest_def)
  qed
  have "rq_Path (demoRequest demoSig) = ''/hd/transfer''" "rq_Body (demoRequest demoSig) = demoBody"
    by (simp_all add: demoRequest_def)
  then show ?thesis using key by (simp add: payKey_def)
qed

definition demoOut :: outside where
  "demoOut = \<lparr>o_now = 1300000000000, o_rnd = None, o_net = payNet (\<lambda>_. None)\<rparr>"

definition demoServer :: "CustodyGuard option \<Rightarrow> unit server" where
  "demoServer guard = \<lparr>sv_cfg = payConfig, sv_opts = securityOptions payConfig, sv_security = MemorySecurity (demoRV 300000000000),
     sv_guard = guard, sv_run = payStart\<rparr>"

definition demoAccepted :: signerStore where
  "demoAccepted = snd (AcceptNonce 1300000000000 ''n1'' (GetNonceTTL payConfig) (w_store payStart))"

definition demoPay :: "reply \<times> runState" where
  "demoPay = executeOnce ''k'' (executeTransfer demoGeth payConfig 1300000000000 (payNet (\<lambda>_. None)) (payRequest []))
     (payStart\<lparr>w_store := demoAccepted\<rparr>)"

lemma demoPay_paid: "\<exists>resp. fst demoPay = Paid resp"
proof -
  have "(case fst demoPay of Paid _ \<Rightarrow> True | _ \<Rightarrow> False)" by code_simp
  then show ?thesis by (auto split: reply.splits)
qed

lemma demoPay_sent: "map nonceOf (w_sent (snd demoPay)) = [5]"
  by code_simp

lemma demoAccepted_ok: "AcceptNonce 1300000000000 ''n1'' (GetNonceTTL payConfig) (w_store payStart) = (Inr True, demoAccepted)"
proof -
  have "fst (AcceptNonce 1300000000000 ''n1'' (GetNonceTTL payConfig) (w_store payStart)) = Inr True" by code_simp
  then show ?thesis by (simp add: demoAccepted_def prod_eq_iff)
qed

lemma securityOptions_payConfig: "securityOptions payConfig = demoOpts"
  by code_simp

lemma demo_guardRequest:
  "\<exists>ctx stack. guardRequest (securityOptions payConfig) 1300000000000 None (demoRequest demoSig) (MemorySecurity (demoRV 300000000000))
     = (Forward (demoRequest demoSig) (Some ctx), stack) \<and> rc_Nonce ctx = ''n1''"
proof -
  from demo_ValidateRequest [OF demo_skew(1), of 300000000000] obtain ctx rv where
    "ValidateRequest 1300000000000 None (demoRequest demoSig) (demoRV 300000000000) = ((ctx, None), demoRequest demoSig, rv)"
    "rc_Validated ctx" "rc_Nonce ctx = ''n1''" by blast
  then show ?thesis
    by (simp add: guardRequest_def Handler_def securityOptions_payConfig demoOpts_def isExcluded_def isMethodAllowed_def demoRequest_def)
qed

lemma demo_serve_on:
  assumes "AcceptNonce 1300000000000 ''n1'' (GetNonceTTL payConfig) (w_store w) = (Inr True, st)"
    and "executeOnce ''k'' (executeTransfer demoGeth payConfig 1300000000000 (payNet (\<lambda>_. None)) (payRequest [])) (w\<lparr>w_store := st\<rparr>)
      = (Paid resp, w')"
  shows "\<exists>sv. serve demoGeth demoOut (demoRequest demoSig) ((demoServer None)\<lparr>sv_run := w\<rparr>) = (Paid resp, sv) \<and> sv_run sv = w'"
proof -
  obtain ctx stack where g: "guardRequest (securityOptions payConfig) 1300000000000 None (demoRequest demoSig)
      (MemorySecurity (demoRV 300000000000) :: unit securityStack) = (Forward (demoRequest demoSig) (Some ctx), stack)" "rc_Nonce ctx = ''n1''"
    using demo_guardRequest by blast
  have p: "rq_Path (demoRequest demoSig) = ''/hd/transfer''" "rq_Method (demoRequest demoSig) = ''POST''"
    "readLimited maxHandlerBody (demoRequest demoSig) = Inr demoBody"
    by (simp_all add: demoRequest_def readLimited_def maxHandlerBody_def demoBody_length)
  have "tr_IdempotencyKey (payRequest []) = ''k''" by (simp add: payRequest_def)
  then have "payRoutes demoGeth demoOut payConfig None (demoRequest demoSig) (Some ctx) w = Some (Paid resp, w')"
    using g(2) assms
    by (simp add: payRoutes_def route_defs payRoute_def withAcceptedNonce_def p Locked_def demoBody_decoded demoOut_def)
  moreover have "o_now demoOut = 1300000000000" "o_rnd demoOut = None" by (simp_all add: demoOut_def)
  ultimately show ?thesis using g(1) by (simp add: serve_def p demoServer_def)
qed

lemma demo_serve:
  "\<exists>resp sv. serve demoGeth demoOut (demoRequest demoSig) (demoServer None) = (Paid resp, sv) \<and> sv_run sv = snd demoPay"
proof -
  obtain resp where "demoPay = (Paid resp, snd demoPay)" using demoPay_paid by (metis prod.collapse)
  from demo_serve_on [OF demoAccepted_ok this [unfolded demoPay_def]]
  show ?thesis by (auto simp: demoPay_def demoServer_def)
qed

end
