(* ===== verification/Monitor.thy ===== *)
theory Monitor
  imports Key_Frames
begin

text \<open>
  What a round of the transaction monitor does to the recorded transactions: \<open>checkSignerTransactions\<close> of
  \<open>src/main.go\<close> over either store is described by a map over the list of records, \<open>settledBy\<close>, which closes the
  open ones a receipt exists for and leaves the others alone.
\<close>

section \<open>The recorded transactions\<close>

definition txItems :: "signerStore \<Rightarrow> SignerTransaction list" where
  "txItems st = (case st of MemStore s \<Rightarrow> map snd (ms_transactions s) | PgStore s \<Rightarrow> map pt_item (pg_transactions s))"

definition isOpen :: "SignerTransaction \<Rightarrow> bool" where
  "isOpen item \<longleftrightarrow> stx_Status item = ''submitted'' \<or> stx_Status item = ''signed''"

text \<open>
  The transaction hash identifies a record; in memory it is also the key of the map, and an iteration visits
  every record once.
\<close>

definition ledgerOk :: "signerStore \<Rightarrow> bool" where
  "ledgerOk st \<longleftrightarrow> distinct (map stx_TxHash (txItems st)) \<and> (case st of
     MemStore s \<Rightarrow> map fst (ms_transactions s) = map stx_TxHash (txItems st) \<and> (\<forall>xs. mset (ms_iter s xs) = mset xs)
   | PgStore s \<Rightarrow> True)"

text \<open>No statement of the database is going to fail.\<close>

definition storeWorks :: "signerStore \<Rightarrow> bool" where
  "storeWorks st = (case st of MemStore s \<Rightarrow> True | PgStore s \<Rightarrow> pg_faults s = [])"

definition settleTx :: "bool \<Rightarrow> SignerTransaction \<Rightarrow> SignerTransaction" where
  "settleTx failed item = item\<lparr>stx_Status := (if failed then ''reverted'' else ''confirmed''),
     stx_Reason := (if failed then ''receipt status failed'' else []), stx_Confirmations := 1\<rparr>"

definition byReceipt :: "geth \<Rightarrow> receipts \<Rightarrow> SignerTransaction \<Rightarrow> SignerTransaction" where
  "byReceipt eth rcpt item = (case rcpt (HexToHash eth (stx_TxHash item)) of
     None \<Rightarrow> item | Some failed \<Rightarrow> settleTx failed item)"

definition settledBy :: "geth \<Rightarrow> receipts \<Rightarrow> SignerTransaction \<Rightarrow> SignerTransaction" where
  "settledBy eth rcpt item = (if isOpen item then byReceipt eth rcpt item else item)"

lemma byReceipt_simps [simp]:
  "stx_TxHash (byReceipt eth rcpt i) = stx_TxHash i"
  "byReceipt eth rcpt (byReceipt eth rcpt i) = byReceipt eth rcpt i"
  by (simp_all add: byReceipt_def settleTx_def split: option.splits)

section \<open>The operations of the store\<close>

lemma update_as_map:
  assumes "distinct (map fst al)" and "k \<in> fst ` set al"
  shows "map snd (AList.update k v al) = map (\<lambda>(k', x). if k' = k then v else x) al"
  using assms
proof (induction al)
  case (Cons p al)
  show ?case
  proof (cases "fst p = k")
    case True
    with Cons.prems(1) have "k \<notin> fst ` set al" by simp
    then have "map (\<lambda>(k', x). if k' = k then v else x) al = map snd al"
      by (intro map_cong refl) (auto simp: image_iff)
    with True show ?thesis by (cases p) simp
  next
    case False
    with Cons show ?thesis by (cases p) auto
  qed
qed simp

lemma map_update_keys: "k \<in> fst ` set al \<Longrightarrow> map fst (AList.update k v al) = map fst al"
  by (simp add: update_keys image_iff)

definition marked :: "string \<Rightarrow> string \<Rightarrow> string \<Rightarrow> SignerTransaction \<Rightarrow> SignerTransaction" where
  "marked h status reason i = (if stx_TxHash i = h
     then i\<lparr>stx_Status := status, stx_Reason := reason, stx_Confirmations := 1\<rparr> else i)"

lemma marked_hash [simp]:
  "stx_TxHash (marked h status reason i) = stx_TxHash i" "stx_TxHash \<circ> marked h status reason = stx_TxHash"
  "stx_TxHash \<circ> (marked h status reason \<circ> f) = stx_TxHash \<circ> f"
  by (simp_all add: marked_def fun_eq_iff)

lemma mem_Mark_items:
  assumes "ledgerOk (MemStore s)"
  shows "txItems (MemStore (snd (mem_MarkSignerTransactionStatus h status reason 1 s))) =
      map (marked h status reason) (txItems (MemStore s)) \<and>
    ledgerOk (MemStore (snd (mem_MarkSignerTransactionStatus h status reason 1 s)))"
proof (cases "map_of (ms_transactions s) h")
  case None
  then have "h \<notin> set (map fst (ms_transactions s))" by (simp add: map_of_eq_None_iff)
  with assms have "h \<notin> stx_TxHash ` set (txItems (MemStore s))" by (simp add: ledgerOk_def)
  then have "map (marked h status reason) (txItems (MemStore s)) = txItems (MemStore s)"
    by (intro map_idI) (auto simp: marked_def)
  with None assms show ?thesis by (simp add: mem_MarkSignerTransactionStatus_def)
next
  case (Some item)
  define v where "v = item\<lparr>stx_Status := status, stx_Reason := reason, stx_Confirmations := 1\<rparr>"
  have keys: "map fst (ms_transactions s) = map stx_TxHash (map snd (ms_transactions s))"
    and "distinct (map stx_TxHash (map snd (ms_transactions s)))"
    using assms by (simp_all add: ledgerOk_def txItems_def)
  then have dist: "distinct (map fst (ms_transactions s))" by (simp only:)
  have mem: "h \<in> fst ` set (ms_transactions s)" using Some by (force dest: map_of_SomeD)
  have key: "fst p = stx_TxHash (snd p)" if "p \<in> set (ms_transactions s)" for p
    using keys that by simp
  have item: "snd p = item" if "p \<in> set (ms_transactions s)" "fst p = h" for p
    using map_of_is_SomeI [OF dist, of "fst p" "snd p"] that Some by (cases p) auto
  have "map snd (AList.update h v (ms_transactions s)) = map (marked h status reason) (map snd (ms_transactions s))"
    unfolding update_as_map [OF dist mem] list.map_comp
    by (rule map_cong) (use item key in \<open>auto simp: v_def marked_def\<close>)
  then show ?thesis using Some assms map_update_keys [OF mem]
    by (simp add: mem_MarkSignerTransactionStatus_def ledgerOk_def txItems_def v_def)
qed

lemma pg_Mark_items:
  assumes "pg_MarkSignerTransactionStatus h status reason 1 s = (e, s')"
  shows "txItems (PgStore s') = map (marked h status reason) (txItems (PgStore s)) \<and> (pg_faults s = [] \<longrightarrow> pg_faults s' = []) \<or>
    txItems (PgStore s') = txItems (PgStore s) \<and> pg_faults s \<noteq> []"
  using assms
  by (auto simp: pg_MarkSignerTransactionStatus_def updateTransaction_def setProgress_def tooBig_def pgStmt_def popFault_def
      txItems_def sameTx_def marked_def
      split: list.splits option.splits if_splits prod.splits)

lemma txItems_Mark:
  assumes "ledgerOk st" and "MarkSignerTransactionStatus h status reason 1 st = (e, st')"
  shows "ledgerOk st' \<and> (storeWorks st \<longrightarrow> storeWorks st') \<and>
    (txItems st' = map (marked h status reason) (txItems st) \<or> txItems st' = txItems st \<and> \<not> storeWorks st)"
  using assms(2) [unfolded MarkSignerTransactionStatus_def]
proof (cases rule: onStore_cases)
  case (mem s s')
  then show ?thesis using mem_Mark_items [of s h status reason] assms(1) by (simp add: storeWorks_def)
next
  case (pg s s')
  then show ?thesis using pg_Mark_items [OF pg(3)] assms(1)
    by (auto simp: storeWorks_def ledgerOk_def)
qed

lemma txItems_RecordCustodyEvent:
  assumes "RecordCustodyEvent ev st = (e, st')"
  shows "txItems st' = txItems st \<and> (ledgerOk st' \<longleftrightarrow> ledgerOk st) \<and> (storeWorks st \<longrightarrow> storeWorks st')"
  using assms [unfolded RecordCustodyEvent_def]
  by (cases rule: onStore_cases)
    (auto simp: mem_RecordCustodyEvent_def pg_RecordCustodyEvent_def insertEvent_def pgStmt_def popFault_def txItems_def ledgerOk_def
      storeWorks_def split: list.splits option.splits prod.splits if_splits)

lemma listOpenLoop_subset: "set (listOpenLoop limit out xs) \<subseteq> set out \<union> set (filter isOpen xs)"
  by (induction limit out xs rule: listOpenLoop.induct) (auto simp: isOpen_def)

lemma listOpenLoop_all:
  "int (length out + length (filter isOpen xs)) \<le> limit \<Longrightarrow> listOpenLoop limit out xs = out @ filter isOpen xs"
proof (induction limit out xs rule: listOpenLoop.induct)
  case (2 limit out item items)
  have "filter isOpen items = []" if "limit \<le> int (length out) + 1" "isOpen item"
  proof -
    from 2(3) that(2) have "int (length out) + 1 + int (length (filter isOpen items)) \<le> limit" by simp
    with that(1) have "int (length (filter isOpen items)) \<le> 0" by linarith
    then show ?thesis by simp
  qed
  with 2 show ?case by (auto simp: isOpen_def [of item])
qed simp

lemma ListOpen_items:
  assumes "ledgerOk st" and "ListOpenSignerTransactions 50 st = (r, st')"
  shows "txItems st' = txItems st \<and> ledgerOk st' \<and> (storeWorks st \<longrightarrow> storeWorks st') \<and>
    (\<forall>items. r = Inr items \<longrightarrow> set items \<subseteq> set (filter isOpen (txItems st))) \<and>
    (storeWorks st \<longrightarrow> length (filter isOpen (txItems st)) \<le> 50 \<longrightarrow>
      (\<exists>items. r = Inr items \<and> set items = set (filter isOpen (txItems st))))"
  using assms(2) [unfolded ListOpenSignerTransactions_def]
proof (cases rule: onStore_cases)
  case (mem s s')
  let ?xs = "ms_iter s (map snd (ms_transactions s))"
  have m: "mset ?xs = mset (txItems st)" using assms(1) mem(1) by (simp add: ledgerOk_def txItems_def)
  then have "set (filter isOpen ?xs) = set (filter isOpen (txItems st))" by (metis mset_eq_setD mset_filter)
  moreover from m have "length (filter isOpen ?xs) = length (filter isOpen (txItems st))" by (metis mset_filter size_mset)
  ultimately show ?thesis
    using mem assms(1) listOpenLoop_subset [of 50 "[]" ?xs] listOpenLoop_all [of "[]" ?xs 50]
    by (auto simp: mem_ListOpenSignerTransactions_def storeWorks_def)
next
  case (pg s s')
  let ?rows = "filter (\<lambda>r. isOpen (pt_item r)) (pg_transactions s)"
  have f: "filter isOpen (map pt_item rs) = map pt_item (filter (\<lambda>r. isOpen (pt_item r)) rs)" for rs
    by (simp add: filter_map comp_def)
  have "set (take 50 (map pt_item (sort_key pt_createdAt ?rows))) \<subseteq> pt_item ` set ?rows"
    using set_take_subset [of 50 "map pt_item (sort_key pt_createdAt ?rows)"] by simp
  moreover have "set (take 50 (map pt_item (sort_key pt_createdAt ?rows))) = pt_item ` set ?rows" if "length ?rows \<le> 50"
    using that by (simp only: take_all length_map length_sort set_map set_sort)
  ultimately show ?thesis
    using pg assms(1) unfolding pg_ListOpenSignerTransactions_def Let_def
    by (auto simp: pgStmt_def popFault_def storeWorks_def txItems_def ledgerOk_def f isOpen_def [symmetric]
        split: list.splits option.splits prod.splits if_splits)
qed

text \<open>Every store the signer can reach is in order: both start so, and recording a transaction keeps it.\<close>

lemma ledgerOk_new:
  "(\<And>xs. mset (iter xs) = mset xs) \<Longrightarrow> ledgerOk (MemStore (newMemorySignerStore iter))"
  "ledgerOk (PgStore (newPgStore faults order))"
  by (simp_all add: ledgerOk_def txItems_def newMemorySignerStore_def newPgStore_def)

lemma update_last: "k \<notin> fst ` set al \<Longrightarrow> AList.update k v al = al @ [(k, v)]"
  by (induction al) auto

lemma mem_Create_ok:
  assumes "ledgerOk (MemStore s)"
  shows "ledgerOk (MemStore (snd (mem_CreateSignerTransaction item s)))"
proof -
  let ?h = "stx_TxHash item" and ?al = "ms_transactions s"
  have keys: "map fst ?al = map stx_TxHash (map snd ?al)" and d: "distinct (map stx_TxHash (map snd ?al))"
    using assms by (simp_all add: ledgerOk_def txItems_def)
  then have dist: "distinct (map fst ?al)" by (simp only:)
  have key: "fst p = stx_TxHash (snd p)" if "p \<in> set ?al" for p using keys that by simp
  show ?thesis
  proof (cases "?h \<in> fst ` set ?al")
    case True
    have "map stx_TxHash (map snd (AList.update ?h item ?al)) = map fst ?al"
      unfolding update_as_map [OF dist True] list.map_comp by (rule map_cong) (use key in auto)
    with assms map_update_keys [OF True] dist show ?thesis
      by (simp add: mem_CreateSignerTransaction_def ledgerOk_def txItems_def del: map_map)
  next
    case False
    then have "?h \<notin> set (map stx_TxHash (map snd ?al))" unfolding keys [symmetric] by simp
    with assms d keys show ?thesis
      by (simp add: mem_CreateSignerTransaction_def ledgerOk_def txItems_def update_last [OF False] del: map_map)
  qed
qed

lemma ledgerOk_pg: "ledgerOk (PgStore s) \<longleftrightarrow> distinct (map (stx_TxHash \<circ> pt_item) (pg_transactions s))"
  by (simp add: ledgerOk_def txItems_def)

interpretation ledger_rows: table_frame "\<lambda>s s'. ledgerOk (PgStore s) \<longrightarrow> ledgerOk (PgStore s')"
proof unfold_locales
  fix s now item
  show "ledgerOk (PgStore s) \<longrightarrow> ledgerOk (PgStore (snd (upsertTransaction now item s)))"
    using setProgress_hashes by (auto simp: ledgerOk_pg upsertTransaction_def list_ex_iff sameTx_def comp_assoc)
next
  fix s h status why n
  show "ledgerOk (PgStore s) \<longrightarrow> ledgerOk (PgStore (snd (updateTransaction h status why n s)))"
    using setProgress_hashes by (auto simp: ledgerOk_pg updateTransaction_def comp_assoc)
qed (auto simp: ledgerOk_pg insertIncident_def resolveIncidents_def updateChainNonce_def)

lemma ledgerOk_Create: "ledgerOk st \<Longrightarrow> ledgerOk (snd (CreateSignerTransaction now item st))"
  by (cases st) (simp_all add: CreateSignerTransaction_def onStore_def split_beta mem_Create_ok ledger_rows.pg_writes)

section \<open>One round of the monitor\<close>

lemma checkItem_items:
  assumes "ledgerOk st" and "item \<in> set items"
  shows "ledgerOk (checkItem eth cfg rcpt item st) \<and> (storeWorks st \<longrightarrow> storeWorks (checkItem eth cfg rcpt item st)) \<and>
    (txItems (checkItem eth cfg rcpt item st) =
       map (\<lambda>i. if stx_TxHash i = stx_TxHash item then byReceipt eth rcpt i else i) (txItems st) \<or>
     txItems (checkItem eth cfg rcpt item st) = txItems st \<and> \<not> storeWorks st)"
proof (cases "rcpt (HexToHash eth (stx_TxHash item))")
  case None
  then have "map (\<lambda>i. if stx_TxHash i = stx_TxHash item then byReceipt eth rcpt i else i) (txItems st) = txItems st"
    by (intro map_idI) (simp add: byReceipt_def)
  with None assms show ?thesis by (simp add: checkItem_def)
next
  case (Some failed)
  define status where "status = (if failed then ''reverted'' else ''confirmed'')"
  define reason where "reason = (if failed then ''receipt status failed'' else [])"
  obtain e st1 where m: "MarkSignerTransactionStatus (stx_TxHash item) status reason 1 st = (e, st1)" by fastforce
  obtain e2 st2 where r: "RecordCustodyEvent (custodyEvent cfg (''tx_'' @ status) (stx_TxHash item) (stx_WalletFrom item) []) st1 = (e2, st2)"
    by fastforce
  have c: "checkItem eth cfg rcpt item st = st2"
    using Some m r by (simp add: checkItem_def Let_def status_def reason_def)
  have "marked (stx_TxHash item) status reason = (\<lambda>i. if stx_TxHash i = stx_TxHash item then byReceipt eth rcpt i else i)"
    using Some by (auto simp: marked_def byReceipt_def settleTx_def status_def reason_def)
  with txItems_Mark [OF assms(1) m] txItems_RecordCustodyEvent [OF r] c show ?thesis by simp
qed

lemma fold_checkItem:
  "ledgerOk st \<Longrightarrow> ledgerOk (fold (checkItem eth cfg rcpt) items st) \<and>
    list_all2 (\<lambda>i j. j = i \<and> (stx_TxHash i \<in> stx_TxHash ` set items \<longrightarrow> byReceipt eth rcpt i = i \<or> \<not> storeWorks st) \<or>
        stx_TxHash i \<in> stx_TxHash ` set items \<and> j = byReceipt eth rcpt i)
      (txItems st) (txItems (fold (checkItem eth cfg rcpt) items st))"
proof (induction items arbitrary: st)
  case Nil
  then show ?case by (simp add: list_all2_refl)
next
  case (Cons item items)
  let ?st1 = "checkItem eth cfg rcpt item st"
  note one = checkItem_items [OF Cons.prems, of item "[item]" eth cfg rcpt, simplified]
  from Cons.IH [of ?st1] one have ok: "ledgerOk (fold (checkItem eth cfg rcpt) (item # items) st)" and
    rest: "list_all2 (\<lambda>i j. j = i \<and> (stx_TxHash i \<in> stx_TxHash ` set items \<longrightarrow> byReceipt eth rcpt i = i \<or> \<not> storeWorks ?st1) \<or>
        stx_TxHash i \<in> stx_TxHash ` set items \<and> j = byReceipt eth rcpt i)
      (txItems ?st1) (txItems (fold (checkItem eth cfg rcpt) (item # items) st))" by auto
  have works: "storeWorks st \<longrightarrow> storeWorks ?st1" using one by blast
  show ?case
  proof (intro conjI ok, cases "txItems ?st1 = txItems st \<and> \<not> storeWorks st")
    case True
    then show "list_all2 (\<lambda>i j. j = i \<and> (stx_TxHash i \<in> stx_TxHash ` set (item # items) \<longrightarrow> byReceipt eth rcpt i = i \<or> \<not> storeWorks st) \<or>
        stx_TxHash i \<in> stx_TxHash ` set (item # items) \<and> j = byReceipt eth rcpt i)
      (txItems st) (txItems (fold (checkItem eth cfg rcpt) (item # items) st))"
      using rest by (auto elim!: list_all2_mono)
  next
    case False
    with one have "txItems ?st1 = map (\<lambda>i. if stx_TxHash i = stx_TxHash item then byReceipt eth rcpt i else i) (txItems st)"
      by blast
    then show "list_all2 (\<lambda>i j. j = i \<and> (stx_TxHash i \<in> stx_TxHash ` set (item # items) \<longrightarrow> byReceipt eth rcpt i = i \<or> \<not> storeWorks st) \<or>
        stx_TxHash i \<in> stx_TxHash ` set (item # items) \<and> j = byReceipt eth rcpt i)
      (txItems st) (txItems (fold (checkItem eth cfg rcpt) (item # items) st))"
      using rest works by (simp only: list_all2_map1) (erule list_all2_mono, auto split: if_splits)
  qed
qed

text \<open>An open record is listed exactly when its hash is among the listed ones.\<close>

lemma open_listed:
  assumes "ledgerOk st" and "i \<in> set (txItems st)" and "set items \<subseteq> set (filter isOpen (txItems st))"
  shows "stx_TxHash i \<in> stx_TxHash ` set items \<longleftrightarrow> i \<in> set items"
proof -
  have "inj_on stx_TxHash (set (txItems st))" using assms(1) by (simp add: ledgerOk_def distinct_map)
  moreover have "set items \<subseteq> set (txItems st)" using assms(3) by auto
  ultimately show ?thesis using assms(2) by (meson inj_on_image_mem_iff)
qed

lemma list_all2_eq_map:
  "list_all2 (\<lambda>i j. P i \<longrightarrow> j = f i) xs ys \<Longrightarrow> (\<And>i. i \<in> set xs \<Longrightarrow> P i) \<Longrightarrow> ys = map f xs"
  by (induction rule: list_all2_induct) auto

lemma round_cases:
  assumes "ledgerOk st"
  obtains (idle) "txItems (checkSignerTransactions eth cfg net st) = txItems st"
      "storeWorks st \<Longrightarrow> length (filter isOpen (txItems st)) \<le> 50 \<Longrightarrow>
        firstDialled net (RPCURLs cfg) \<noteq> None \<Longrightarrow> filter isOpen (txItems st) = []"
    | (checked) rcpt items st1 where "firstDialled net (RPCURLs cfg) = Some rcpt" "ledgerOk st1" "txItems st1 = txItems st"
      "checkSignerTransactions eth cfg net st = fold (checkItem eth cfg rcpt) items st1" "storeWorks st \<Longrightarrow> storeWorks st1"
      "set items \<subseteq> set (filter isOpen (txItems st))"
      "storeWorks st \<Longrightarrow> length (filter isOpen (txItems st)) \<le> 50 \<Longrightarrow> set items = set (filter isOpen (txItems st))"
proof -
  obtain r st1 where l: "ListOpenSignerTransactions 50 st = (r, st1)" by fastforce
  note o = ListOpen_items [OF assms l]
  show thesis
  proof (cases "\<exists>items rcpt. r = Inr items \<and> items \<noteq> [] \<and> firstDialled net (RPCURLs cfg) = Some rcpt")
    case True
    then obtain items rcpt where i: "r = Inr items" "items \<noteq> []" "firstDialled net (RPCURLs cfg) = Some rcpt" by blast
    with l have "checkSignerTransactions eth cfg net st = fold (checkItem eth cfg rcpt) items st1"
      by (simp add: checkSignerTransactions_def)
    with i o show thesis by (intro checked [of rcpt st1 items]) auto
  next
    case False
    then have "checkSignerTransactions eth cfg net st = st1"
      using l by (auto simp: checkSignerTransactions_def split: sum.splits option.splits)
    with o False show thesis by (intro idle) (auto split: sum.splits)
  qed
qed

section \<open>Properties\<close>

text \<open>
  C19: A round of the monitor closes what can be closed: with a working store, at most fifty open transactions
  and a node that can be dialled, it turns every open transaction the node has a receipt for into a confirmed
  or a reverted one with one confirmation, and leaves every other record as it is.
\<close>

theorem monitor_settles:
  assumes "ledgerOk st" and "storeWorks st" and "length (filter isOpen (txItems st)) \<le> 50"
    and "firstDialled net (RPCURLs cfg) = Some rcpt"
  shows "txItems (checkSignerTransactions eth cfg net st) = map (settledBy eth rcpt) (txItems st)"
  using assms(1)
proof (cases rule: round_cases [of st eth cfg net])
  case idle
  then have "filter isOpen (txItems st) = []" using assms by simp
  then have "map (settledBy eth rcpt) (txItems st) = txItems st"
    by (intro map_idI) (auto simp: settledBy_def filter_empty_conv)
  with idle show ?thesis by simp
next
  case (checked rcpt' items st1)
  have all: "set items = set (filter isOpen (txItems st))" and works: "storeWorks st1" and r: "rcpt' = rcpt"
    using checked assms by auto
  from fold_checkItem [OF checked(2), of eth cfg rcpt items] works checked(3)
  have "list_all2 (\<lambda>i j. j = (if stx_TxHash i \<in> stx_TxHash ` set items then byReceipt eth rcpt i else i))
      (txItems st) (txItems (checkSignerTransactions eth cfg net st))"
    unfolding checked(4) r by (auto elim!: list_all2_mono)
  then have "txItems (checkSignerTransactions eth cfg net st) =
      map (\<lambda>i. if stx_TxHash i \<in> stx_TxHash ` set items then byReceipt eth rcpt i else i) (txItems st)"
    by (intro list_all2_eq_map [where P = "\<lambda>_. True"]) simp_all
  also have "\<dots> = map (settledBy eth rcpt) (txItems st)"
    by (rule map_cong [OF refl]) (use open_listed [OF assms(1) _ checked(6)] all in \<open>auto simp: settledBy_def\<close>)
  finally show ?thesis .
qed

text \<open>
  C36: A round of the monitor never invents an outcome: whatever fails in the database and however many
  transactions are open, each record stays as it is or becomes what the receipt of the first node dialled
  says, and only if it was open; no idempotency key and no chain nonce is touched.
\<close>

theorem monitor_only_settles:
  assumes "ledgerOk st"
  shows "list_all2 (\<lambda>i j. j = i \<or> isOpen i \<and> (\<exists>rcpt. firstDialled net (RPCURLs cfg) = Some rcpt \<and> j = byReceipt eth rcpt i))
    (txItems st) (txItems (checkSignerTransactions eth cfg net st)) \<and>
    keyView (checkSignerTransactions eth cfg net st) = keyView st \<and>
    chainView (checkSignerTransactions eth cfg net st) = chainView st"
  using assms
proof (cases rule: round_cases [of st eth cfg net])
  case idle
  then show ?thesis by (simp add: list_all2_refl views_round)
next
  case (checked rcpt items st1)
  from fold_checkItem [OF checked(2), of eth cfg rcpt items]
  have "list_all2 (\<lambda>i j. j = i \<or> stx_TxHash i \<in> stx_TxHash ` set items \<and> j = byReceipt eth rcpt i)
      (txItems st) (txItems (checkSignerTransactions eth cfg net st))"
    unfolding checked(3,4) by (auto elim!: list_all2_mono)
  then show ?thesis
    by (intro conjI views_round [THEN conjunct1] views_round [THEN conjunct2], elim list.rel_mono_strong)
      (use open_listed [OF assms _ checked(6)] checked(1,6) in auto)
qed

definition recordedTx :: "string \<Rightarrow> string \<Rightarrow> SignerTransaction" where
  "recordedTx h status = \<lparr>stx_IdempotencyKey = ''k'', stx_WalletFrom = ''0xaa'', stx_WalletTo = ''0xbb'', stx_Token = [],
     stx_Amount = ''1'', stx_Network = ''BSC'', stx_Nonce = 1, stx_TxHash = h, stx_Status = status, stx_Reason = [],
     stx_Confirmations = 0\<rparr>"

definition recordedStore :: "pgFault list \<Rightarrow> signerStore" where
  "recordedStore faults = PgStore ((newPgStore faults id)\<lparr>pg_transactions :=
     map (\<lambda>(h, status). \<lparr>pt_item = recordedTx h status, pt_createdAt = 0\<rparr>)
       [(''0x01'', ''submitted''), (''0x02'', ''submitted''), (''0x03'', ''confirmed'')]\<rparr>)"

definition onlyFirstMined :: "geth \<Rightarrow> receipts" where
  "onlyFirstMined eth h = (if h = HexToHash eth ''0x01'' then Some True else None)"

lemma recordedStore_ok: "ledgerOk (recordedStore faults)"
  by (simp add: ledgerOk_def recordedStore_def txItems_def recordedTx_def)

theorem monitor_settles_witness:
  "map stx_Status (txItems (checkSignerTransactions demoGeth payConfig (\<lambda>_. Some (onlyFirstMined demoGeth)) (recordedStore []))) =
     [''reverted'', ''submitted'', ''confirmed'']"
proof -
  have urls: "firstDialled (\<lambda>_. Some (onlyFirstMined demoGeth)) (RPCURLs payConfig) = Some (onlyFirstMined demoGeth)"
  proof -
    have "RPCURLs payConfig \<noteq> []" by code_simp
    then show ?thesis by (cases "RPCURLs payConfig") simp_all
  qed
  have h: "HexToHash demoGeth ''0x02'' \<noteq> HexToHash demoGeth ''0x01''" by code_simp
  show ?thesis
    using monitor_settles [OF recordedStore_ok _ _ urls, of "[]"] h
    by (simp add: recordedStore_def txItems_def storeWorks_def newPgStore_def recordedTx_def isOpen_def settledBy_def
        byReceipt_def onlyFirstMined_def settleTx_def)
qed

theorem monitor_only_settles_witness:
  "length (txItems (checkSignerTransactions demoGeth payConfig (\<lambda>_. None) (recordedStore [None, Some (True, Err ''timeout'')]))) = 3"
  using monitor_only_settles [OF recordedStore_ok, of "\<lambda>_. None" payConfig demoGeth "[None, Some (True, Err ''timeout'')]"]
  by (auto dest!: list_all2_lengthD simp: recordedStore_def txItems_def)

end
