(* ===== verification/Background.thy ===== *)
theory Background
  imports Serving Monitor
begin

text \<open>
  The running server: besides serving requests, \<open>main\<close> starts the custody guard (\<open>Start\<close>, then \<open>scanOnce\<close> at every
  tick) and the transaction monitor (\<open>checkSignerTransactions\<close> at every tick). \<open>server_step\<close> is one step of
  any of them; what they leave of the idempotency keys and of the lock carries the properties of whole runs.
\<close>

section \<open>What keeps the lock\<close>

lemma Start_locked: "cg_locked (fst gs) \<Longrightarrow> cg_locked (fst (snd (Start eth net now gs)))"
  by (cases gs) (simp add: Start_def Lock_def loadTrustedDelegateHashes_def Let_def split_beta split: option.splits sum.splits)

lemma UnlockGuard_refused: "UnlockGuard now memo g st = (Some e, g', st') \<Longrightarrow> g' = g"
  by (auto simp: UnlockGuard_def Unlock_def unlocked_def Let_def split: option.splits prod.splits sum.splits if_splits)

lemma unlockRoute_guard:
  assumes "unlockRoute cfg guard now r ctx w = (rep, guard', w')" and "\<And>ident. rep \<noteq> Unlocked ident"
  shows "guard' = guard"
  using assms
  by (auto simp: unlockRoute_def withAcceptedNonce_def Let_def UnlockGuard_refused
      split: if_splits option.splits sum.splits prod.splits dest: UnlockGuard_refused)

lemma serve_guard:
  assumes "serve eth out r sv = (rep, sv')" and "\<And>ident. rep \<noteq> Unlocked ident"
  shows "sv_guard sv' = sv_guard sv"
  using assms
  by (auto simp: serve_def Let_def split: if_splits verdict.splits option.splits prod.splits dest!: unlockRoute_guard)

section \<open>Steps of the server\<close>

text \<open>
  A step carries the reply it gave, if it served a request. \<open>main\<close> starts the guard only when it is enabled and the
  monitor only when the signer does not simulate.
\<close>

definition guardRuns :: "'r server \<Rightarrow> bool" where
  "guardRuns sv = Enabled (sv_guard sv)"

definition monitorRuns :: "'r server \<Rightarrow> bool" where
  "monitorRuns sv = (\<not> AllowSimulation (sv_cfg sv))"

inductive server_step :: "geth \<Rightarrow> reply option \<Rightarrow> 'r server \<Rightarrow> 'r server \<Rightarrow> bool" for eth where
  served: "serve eth out r sv = (rep, sv') \<Longrightarrow> server_step eth (Some rep) sv sv'"
| started: "sv_guard sv = Some g \<Longrightarrow> guardRuns sv \<Longrightarrow>
    Start eth net now (g, Some (w_store (sv_run sv))) = (running, g', Some st) \<Longrightarrow>
    server_step eth None sv (sv\<lparr>sv_guard := Some g', sv_run := (sv_run sv)\<lparr>w_store := st\<rparr>\<rparr>)"
| scanned: "sv_guard sv = Some g \<Longrightarrow> guardRuns sv \<Longrightarrow>
    scanOnce eth net now (g, Some (w_store (sv_run sv))) = (g', Some st) \<Longrightarrow>
    server_step eth None sv (sv\<lparr>sv_guard := Some g', sv_run := (sv_run sv)\<lparr>w_store := st\<rparr>\<rparr>)"
| monitored: "monitorRuns sv \<Longrightarrow> server_step eth None sv (sv\<lparr>sv_run := (sv_run sv)\<lparr>w_store :=
    checkSignerTransactions eth (sv_cfg sv) receipts (w_store (sv_run sv))\<rparr>\<rparr>)"

inductive_cases server_stepE [consumes 1, case_names served started scanned monitored]: "server_step eth reply sv sv'"

text \<open>Any run of the server, and a run in which no request unlocks the signer.\<close>

definition server_run :: "geth \<Rightarrow> 'r server \<Rightarrow> 'r server \<Rightarrow> bool" where
  "server_run eth = (\<lambda>sv sv'. \<exists>reply. server_step eth reply sv sv')\<^sup>*\<^sup>*"

definition locked_run :: "geth \<Rightarrow> 'r server \<Rightarrow> 'r server \<Rightarrow> bool" where
  "locked_run eth = (\<lambda>sv sv'. \<exists>reply. (\<forall>ident. reply \<noteq> Some (Unlocked ident)) \<and> server_step eth reply sv sv')\<^sup>*\<^sup>*"

lemma server_step_settled:
  assumes "server_step eth reply sv sv'" and "k \<noteq> []" and "settled k resp sv"
  shows "settled k resp sv'"
proof -
  have keep: "settled k resp (sv\<lparr>sv_guard := g, sv_run := (sv_run sv)\<lparr>w_store := st\<rparr>\<rparr>)"
    if "keyView st = keyView (w_store (sv_run sv))" for g st
    using assms(3) storeView_cong [OF that] by (simp add: settled_def)
  from assms(1) show ?thesis
  proof (cases rule: server_stepE)
    case (served out r rep)
    with serve_settled assms(2,3) show ?thesis by blast
  next
    case (started g net now running g' st)
    with guard_keys(2) [OF started(5)] keep show ?thesis by simp
  next
    case (scanned g net now g' st)
    with guard_keys(1) [OF scanned(5)] keep show ?thesis by simp
  next
    case (monitored receipts)
    with views_round [of eth "sv_cfg sv" receipts "w_store (sv_run sv)"] assms(3) show ?thesis
      by (simp add: settled_def storeView_cong [of "checkSignerTransactions eth (sv_cfg sv) receipts (w_store (sv_run sv))"])
  qed
qed

lemma server_run_settled:
  assumes "server_run eth sv sv'" and "k \<noteq> []" and "settled k resp sv"
  shows "settled k resp sv'"
  using assms(1) unfolding server_run_def
  by (induction rule: rtranclp_induct) (use assms(2,3) server_step_settled in blast)+

lemma server_step_locked:
  assumes "server_step eth reply sv sv'" and "\<forall>ident. reply \<noteq> Some (Unlocked ident)" and "fst (Locked (sv_guard sv))"
  shows "fst (Locked (sv_guard sv'))"
  using assms(1)
proof (cases rule: server_stepE)
  case (served out r rep)
  with serve_guard assms(2,3) show ?thesis by metis
next
  case (started g net now running g' st)
  with Start_locked [of "(g, Some (w_store (sv_run sv)))" eth net now] assms(3) show ?thesis by (simp add: Locked_def)
next
  case (scanned g net now g' st)
  with guard_step_locked [OF guard_step.scan, of "(g, Some (w_store (sv_run sv)))" eth net now] assms(3) show ?thesis
    by (simp add: Locked_def)
next
  case (monitored receipts)
  with assms(3) show ?thesis by simp
qed

text \<open>While the signer is locked no step sends anything or changes an idempotency key.\<close>

lemma serve_locked:
  assumes "serve eth out r sv = (rep, sv')" and "fst (Locked (sv_guard sv))"
  shows "w_sent (sv_run sv') = w_sent (sv_run sv) \<and> keyView (w_store (sv_run sv')) = keyView (w_store (sv_run sv)) \<and>
    (\<forall>p. rep \<noteq> Paid p)"
  using assms(1)
proof (cases rule: serve_cases)
  case (pay r1 ctx stack)
  from pay(3) show ?thesis
  proof (cases rule: payRoutes_cases)
    case (failed code msg st)
    then show ?thesis by simp
  next
    case (passed reqCtx st key exec)
    with assms(2) show ?thesis by simp
  qed
qed simp_all

lemma server_step_locked_quiet:
  assumes "server_step eth reply sv sv'" and "fst (Locked (sv_guard sv))"
  shows "w_sent (sv_run sv') = w_sent (sv_run sv) \<and> keyView (w_store (sv_run sv')) = keyView (w_store (sv_run sv))"
  using assms(1)
proof (cases rule: server_stepE)
  case (served out r rep)
  with serve_locked assms(2) show ?thesis by blast
next
  case (started g net now running g' st)
  with guard_keys(2) [OF started(5)] show ?thesis by simp
next
  case (scanned g net now g' st)
  with guard_keys(1) [OF scanned(5)] show ?thesis by simp
next
  case (monitored receipts)
  with views_round [of eth "sv_cfg sv" receipts "w_store (sv_run sv)"] show ?thesis by simp
qed

lemma locked_run_quiet:
  assumes "locked_run eth sv sv'" and "fst (Locked (sv_guard sv))"
  shows "fst (Locked (sv_guard sv')) \<and> w_sent (sv_run sv') = w_sent (sv_run sv) \<and>
    keyView (w_store (sv_run sv')) = keyView (w_store (sv_run sv))"
  using assms(1) unfolding locked_run_def
proof (induction rule: rtranclp_induct)
  case base
  with assms(2) show ?case by simp
next
  case (step a b)
  then obtain reply where s: "\<forall>ident. reply \<noteq> Some (Unlocked ident)" "server_step eth reply a b" by blast
  with server_step_locked [OF s(2,1)] server_step_locked_quiet [OF s(2)] step.IH show ?case by simp
qed

end
