(* ===== verification/Database_Runs.thy ===== *)
theory Database_Runs
  imports Background
begin

text \<open>
  What holds of the store throughout a run of the server, from its start on: the constraints of the database and of
  the ledger of transactions, and, on the database, that no chain nonce is ever used twice. Every step of the server
  respects what the operations of the store respect; the two interpretations below say what that is.
\<close>

section \<open>Runs respect what the operations respect\<close>

context store_evolution
begin

lemma server_step: "server_step eth reply sv sv' \<Longrightarrow> R (w_store (sv_run sv)) (w_store (sv_run sv'))"
proof (induction rule: server_step.induct)
  case (served out r sv rep sv')
  then show ?case by (rule serve)
next
  case (started sv g net now running g' st)
  with Start [of "(g, Some (w_store (sv_run sv)))" eth net now] show ?case by simp
next
  case (scanned sv g net now g' st)
  with scanOnce [of "(g, Some (w_store (sv_run sv)))" eth net now] show ?case by simp
next
  case (monitored sv receipts)
  show ?case by (simp add: checkSignerTransactions)
qed

lemma server_run:
  assumes "server_run eth sv sv'"
  shows "R (w_store (sv_run sv)) (w_store (sv_run sv'))"
  using assms unfolding server_run_def
  by (induction rule: rtranclp_induct) (use server_step in \<open>blast intro: refl trans\<close>)+

end

section \<open>The store stays consistent\<close>

definition storeOk :: "signerStore \<Rightarrow> bool" where
  "storeOk st = (case st of MemStore s \<Rightarrow> ledgerOk st | PgStore s \<Rightarrow> schemaOk s)"

lemma storeOk_ledgerOk: "storeOk st \<Longrightarrow> ledgerOk st"
  by (cases st) (simp_all add: storeOk_def ledgerOk_pg schemaOk_def transactionsOk_def)

lemma storeOk_onStore:
  assumes "\<And>s. ledgerOk (MemStore s) \<Longrightarrow> ledgerOk (MemStore (snd (f s)))" and "\<And>s. schemaOk s \<longrightarrow> schemaOk (snd (g s))"
  shows "storeOk st \<longrightarrow> storeOk (snd (onStore f g st))"
  using assms by (cases st) (simp_all add: onStore_def storeOk_def split_beta)

lemmas iface_op_defs = AcceptNonce_def RecordCustodyEvent_def OpenCustodyIncident_def ActiveCustodyIncident_def
  ResolveCustodyIncident_def ReserveChainNonce_def MarkChainNonceSubmitted_def MarkChainNonceFailed_def
  CreateSignerTransaction_def MarkSignerTransactionStatus_def ListOpenSignerTransactions_def DailySubmittedOutflow_def
  Ready_def ClaimResult_def SaveResult_def ReleaseClaim_def

lemma mem_ledger_ops:
  assumes "ledgerOk (MemStore s)"
  shows "ledgerOk (MemStore (snd (mem_AcceptNonce now n ttl s)))"
    "ledgerOk (MemStore (snd (mem_RecordCustodyEvent ev s)))"
    "ledgerOk (MemStore (snd (mem_OpenCustodyIncident now reason mode s)))"
    "ledgerOk (MemStore (snd (mem_ActiveCustodyIncident s)))"
    "ledgerOk (MemStore (snd (mem_ResolveCustodyIncident memo s)))"
    "ledgerOk (MemStore (snd (mem_ReserveChainNonce wallet network p s)))"
    "ledgerOk (MemStore (snd (mem_MarkChainNonceSubmitted wallet network x h s)))"
    "ledgerOk (MemStore (snd (mem_MarkChainNonceFailed wallet network x why s)))"
    "ledgerOk (MemStore (snd (mem_ListOpenSignerTransactions limit s)))"
    "ledgerOk (MemStore (snd (mem_DailySubmittedOutflow token network s)))"
    "ledgerOk (MemStore (snd (mem_Ready s)))"
    "ledgerOk (MemStore (snd (mem_ClaimResult key s)))"
    "ledgerOk (MemStore (snd (mem_SaveResult key resp s)))"
    "ledgerOk (MemStore (snd (mem_ReleaseClaim key s)))"
  using assms
  by (simp_all add: mem_AcceptNonce_def mem_RecordCustodyEvent_def mem_OpenCustodyIncident_def mem_ActiveCustodyIncident_def
      mem_ResolveCustodyIncident_def mem_ReserveChainNonce_def mem_MarkChainNonceSubmitted_def mem_MarkChainNonceFailed_def
      mem_ListOpenSignerTransactions_def mem_DailySubmittedOutflow_def mem_Ready_def mem_ClaimResult_def mem_SaveResult_def
      mem_ReleaseClaim_def Let_def ledgerOk_def txItems_def split: option.split)

interpretation consistent: store_evolution "\<lambda>st st'. storeOk st \<longrightarrow> storeOk st'"
proof (unfold_locales, blast, blast, unfold iface_op_defs)
qed (rule storeOk_onStore;
     rule mem_ledger_ops mem_Create_ok mem_Mark_items [THEN conjunct2] schema.pg_reads schema.pg_writes
       schema.pg_AcceptNonce schema.pg_ReserveChainNonce schema_claims.pg_claims; assumption?)+

lemma startServer_store:
  assumes "startServer eth redis iter connect now cfg = Inr sv"
  shows "sv_cfg sv = cfg \<and> w_sent (sv_run sv) = [] \<and> openSignerStore iter connect cfg = Inr (w_store (sv_run sv))"
  using assms by (auto simp: startServer_def Let_def split: option.splits sum.splits if_splits)

lemma openSignerStore_ok:
  assumes "openSignerStore iter connect cfg = Inr st" and "\<And>xs. mset (iter xs) = mset xs"
    and "\<And>s. connect (DatabaseURL cfg) = Inr s \<Longrightarrow> constrained s"
  shows "storeOk st"
  using assms(1) pg_migrate_ok assms(3) ledgerOk_new(1) [OF assms(2)]
  by (auto simp: openSignerStore_def storeOk_def split: if_splits sum.splits prod.splits option.splits)

text \<open>
  From the start of the server on, whatever is served, scanned or monitored, in whatever order and whatever
  faults the database shows, the constraints that the statements of the database enforce hold of its tables, and
  the ledger in memory has one record per transaction hash under that hash. It is enough that the tables the server
  found at its start keep their constraints.
\<close>

theorem store_stays_consistent:
  assumes "startServer eth redis iter connect now cfg = Inr sv" and "server_run eth sv sv'"
    and "\<And>xs. mset (iter xs) = mset xs" and "\<And>s. connect (DatabaseURL cfg) = Inr s \<Longrightarrow> constrained s"
  shows "storeOk (w_store (sv_run sv'))"
  using consistent.server_run [OF assms(2)] openSignerStore_ok [OF _ assms(3,4)] startServer_store [OF assms(1)] by blast

definition productionEnv :: environment where
  "productionEnv = [''APP_ENV'' \<mapsto> ''production'', ''SIGNER_DATABASE_URL'' \<mapsto> ''postgres://signer'',
     ''SIGNER_ALLOWED_TOKEN_CONTRACTS'' \<mapsto> ''0x5555555555555555555555555555555555555555'',
     ''HMAC_SECRET'' \<mapsto> ''0123456789abcdef0123456789abcdef'', ''EVM_PRIVATE_KEY'' \<mapsto> ''0x11'']"

definition noRedis :: "(unit, string \<rightharpoonup> instant) redisLib" where
  "noRedis = \<lparr>lib_ParseURL = (\<lambda>_. Inl (Err ''no redis'')), lib_NewClient = (\<lambda>_. (demoRedis, Map.empty))\<rparr>"

definition productionStart :: "(string \<rightharpoonup> instant) server result" where
  "productionStart = startServer demoGeth noRedis id (\<lambda>_. Inr (newPgStore [] id)) 0 (LoadSignerConfig productionEnv)"

theorem store_stays_consistent_witness:
  "\<exists>sv sv'. productionStart = Inr sv \<and> server_step demoGeth None sv sv' \<and> storeOk (w_store (sv_run sv'))"
proof -
  have "is_ok productionStart" by code_simp
  then obtain sv where s: "productionStart = Inr sv" by (auto simp: is_ok_def split: sum.splits)
  have "\<not> AllowSimulation (LoadSignerConfig productionEnv)" by code_simp
  with startServer_store [OF s [unfolded productionStart_def]] have "monitorRuns sv" by (simp add: monitorRuns_def)
  then obtain sv' where step: "server_step demoGeth None sv sv'" using server_step.monitored [of sv demoGeth "\<lambda>_. None"] by blast
  then have "server_run demoGeth sv sv'" unfolding server_run_def by blast
  moreover have "constrained (newPgStore [] id)" by (simp add: constrained_def newPgStore_def)
  ultimately have "storeOk (w_store (sv_run sv'))"
    using store_stays_consistent [OF s [unfolded productionStart_def]] by simp
  with s step show ?thesis by blast
qed

section \<open>Chain nonces on the database\<close>

text \<open>The rows of reserved nonces only ever grow.\<close>

definition tableGrows :: "pgStore \<Rightarrow> pgStore \<Rightarrow> bool" where
  "tableGrows s s' = (set (pgRows s) \<subseteq> set (pgRows s') \<and> (pg_ok s \<longrightarrow> pg_ok s'))"

lemma pg_ok_rows: "pg_ok s \<longleftrightarrow> (\<forall>(w, n, x) \<in> set (pgRows s). 0 \<le> x \<and> x < 9223372036854775808)"
  by (auto simp: pg_ok_def pgRows_def)

lemma tableGrows_same: "pgRows s' = pgRows s \<Longrightarrow> tableGrows s s'"
  by (simp add: tableGrows_def pg_ok_rows)

interpretation growing: table_reserve tableGrows
proof unfold_locales
  show "tableGrows s s" for s by (simp add: tableGrows_def)
  show "tableGrows a c" if "tableGrows a b" "tableGrows b c" for a b c using that by (auto simp: tableGrows_def)
  show "tableGrows s (snd (insertChainNonce wallet network x s))" for s wallet network x
    by (auto simp: tableGrows_def insertChainNonce_def pgRows_def pg_ok_def)
qed (rule tableGrows_same; rule rows.faults rows.nonces rows.events rows.insertIncident rows.resolveIncidents
    rows.submitted rows.failed rows.upsert rows.update)+

interpretation growing_claims: table_claims tableGrows
  by unfold_locales (rule tableGrows_same; rule rows_claims.locks rows_claims.results)+

definition databaseGrows :: "signerStore \<Rightarrow> signerStore \<Rightarrow> bool" where
  "databaseGrows st st' = (\<forall>s. st = PgStore s \<longrightarrow> (\<exists>s'. st' = PgStore s' \<and> tableGrows s s'))"

lemma databaseGrows_onStore: "(\<And>s. tableGrows s (snd (g s))) \<Longrightarrow> databaseGrows st (snd (onStore f g st))"
  by (cases st) (simp_all add: databaseGrows_def onStore_def split_beta)

interpretation grows: store_evolution databaseGrows
proof (unfold_locales, unfold iface_op_defs)
  fix a b c
  assume "databaseGrows a b" "databaseGrows b c"
  then show "databaseGrows a c" unfolding databaseGrows_def by (metis growing.trans)
qed (simp add: databaseGrows_def growing.refl, (rule databaseGrows_onStore;
     rule growing.pg_reads growing.pg_writes growing.pg_AcceptNonce growing.pg_ReserveChainNonce growing_claims.pg_claims)+)

text \<open>The nonces of a database, and what growing means for them.\<close>

definition databaseNonces :: "signerStore \<Rightarrow> bool" where
  "databaseNonces st = (\<exists>s. st = PgStore s \<and> pg_ok s)"

lemma databaseNonces_iff: "databaseNonces st \<longleftrightarrow> onDatabase st \<and> noncesBelow 0 st"
  by (cases st) (auto simp: databaseNonces_def onDatabase_def noncesBelow_def chainView_def pg_ok_rows)

lemma databaseGrows_nonces:
  assumes "databaseGrows st st'" and "databaseNonces st"
  shows "databaseNonces st' \<and> usedNonces st wallet network \<subseteq> usedNonces st' wallet network"
proof -
  from assms obtain s s' where "st = PgStore s" "st' = PgStore s'" "tableGrows s s'" "pg_ok s"
    by (auto simp: databaseGrows_def databaseNonces_def)
  then show ?thesis by (auto simp: databaseNonces_def tableGrows_def usedNonces_view chainView_def)
qed

text \<open>The wallet the signer signs for.\<close>

definition signerWallet :: "geth \<Rightarrow> SignerConfig \<Rightarrow> string" where
  "signerWallet eth cfg = (case HexToECDSA eth (TrimPrefix (EVMPrivateKey cfg) ''0x'') of
     Inl _ \<Rightarrow> [] | Inr key \<Rightarrow> AddressHex eth (PubkeyToAddress eth key))"

text \<open>What was sent between two states: transactions on one network with nonces new to the wallet there.\<close>

definition freshSends :: "string \<Rightarrow> runState \<Rightarrow> runState \<Rightarrow> bool" where
  "freshSends wallet w w' = (\<exists>new network. w_sent w' = w_sent w @ new \<and> (\<forall>s \<in> set new. sent_network s = network) \<and>
     distinct (map nonceOf new) \<and> nonceOf ` set new \<inter> usedNonces (w_store w) wallet network = {} \<and>
     nonceOf ` set new \<subseteq> usedNonces (w_store w') wallet network)"

lemma freshSends_none: "w_sent w' = w_sent w \<Longrightarrow> freshSends wallet w w'"
  by (simp add: freshSends_def)

lemma freshSends_view:
  assumes "freshSends wallet w w'" and "chainView (w_store w0) = chainView (w_store w)" and "w_sent w0 = w_sent w"
    and "chainView (w_store w1) = chainView (w_store w')" and "w_sent w1 = w_sent w'"
  shows "freshSends wallet w0 w1"
  using assms unfolding freshSends_def by (simp add: usedNonces_view)

lemma nonce_attempt_fresh:
  assumes "nonce_attempt run wallet network from" and "sendVia cfg now net run w = (r, w')" and "databaseNonces (w_store w)"
  shows "freshSends wallet w w'"
proof -
  from nonce_attempt.sendVia_fresh [OF assms(1,2), of 0] assms(3) obtain new where
    "w_sent w' = w_sent w @ new" "\<forall>s \<in> set new. sent_network s = network" "distinct (map nonceOf new)"
    "nonceOf ` set new \<inter> usedNonces (w_store w) wallet network = {}"
    "nonceOf ` set new \<union> usedNonces (w_store w) wallet network \<subseteq> usedNonces (w_store w') wallet network"
    by (auto simp: databaseNonces_iff)
  then show ?thesis unfolding freshSends_def by (intro exI [of _ new] exI [of _ network]) simp
qed

lemma execution_fresh:
  assumes "anExecution eth cfg now net exec" and "exec w = (r, w')" and "databaseNonces (w_store w)"
  shows "freshSends (signerWallet eth cfg) w w'"
proof -
  have db: "databaseNonces st" "freshSends wallet (w\<lparr>w_store := st\<rparr>) w' \<Longrightarrow> freshSends wallet w w'"
    if "chainView st = chainView (w_store w)" for st wallet
    using that assms(3) by (simp_all add: databaseNonces_iff onDatabase_def noncesBelow_def freshSends_view)
  from assms(1) consider (t) req where "exec = executeTransfer eth cfg now net req"
    | (s) req where "exec = executeSettlement eth cfg now net req"
    | (c) req where "exec = executeContractCall eth cfg now net req" by (auto simp: anExecution_def)
  then show ?thesis
  proof cases
    case t
    from assms(2) [unfolded t] show ?thesis
    proof (cases rule: executeTransfer_sent)
      case (sent st key "from")
      with chain.treasury(1) [OF sent(2)] nonce_attempt_fresh [OF transfer_nonce.nonce_attempt_axioms sent(7)] db
      show ?thesis by (simp add: signerWallet_def)
    qed (simp_all add: freshSends_none)
  next
    case s
    from assms(2) [unfolded s] show ?thesis
    proof (cases rule: executeSettlement_sent)
      case (sent network amount key "from")
      with nonce_attempt_fresh [OF settlement_nonce.nonce_attempt_axioms sent(5)] assms(3)
      show ?thesis by (simp add: signerWallet_def)
    qed (simp_all add: freshSends_none)
  next
    case c
    from assms(2) [unfolded c] show ?thesis
    proof (cases rule: executeContractCall_sent)
      case (sent st key "from")
      with chain.treasury(2) [OF sent(2)] nonce_attempt_fresh [OF contract_call_nonce.nonce_attempt_axioms sent(7)] db
      show ?thesis by (simp add: signerWallet_def)
    qed (simp_all add: freshSends_none)
  qed
qed

lemma chainView_known:
  "ClaimResult key st = (x, st') \<Longrightarrow> chainView st' = chainView st"
  "SaveResult key resp st = (e, st') \<Longrightarrow> chainView st' = chainView st"
  "AcceptNonce now n ttl st = (a, st') \<Longrightarrow> chainView st' = chainView st"
  by (metis chainView_claims chainView_AcceptNonce snd_conv)+

lemma executeOnce_fresh:
  assumes "executeOnce key exec w = (rep, w')" and "anExecution eth cfg now net exec" and "databaseNonces (w_store w)"
  shows "freshSends (signerWallet eth cfg) w w'"
  using assms(1)
proof (cases rule: executeOnce_cases)
  case (executed r st x w1)
  have v: "chainView st = chainView (w_store w)" using executed(1) by (rule chainView_known)
  then have "databaseNonces st" using assms(3) by (simp add: databaseNonces_iff onDatabase_def noncesBelow_def)
  with execution_fresh [OF assms(2) executed(2)] have "freshSends (signerWallet eth cfg) (w\<lparr>w_store := st\<rparr>) w1" by simp
  moreover have "chainView (w_store w') = chainView (w_store w1)"
    using executed(4) chainView_known(2) by auto
  ultimately show ?thesis using v executed(3) by (auto elim: freshSends_view)
qed (simp_all add: freshSends_none)

lemma serve_fresh:
  assumes "serve eth out r sv = (rep, sv')" and "databaseNonces (w_store (sv_run sv))"
  shows "freshSends (signerWallet eth (sv_cfg sv)) (sv_run sv) (sv_run sv')"
  using assms(1)
proof (cases rule: serve_cases)
  case (pay r1 ctx stack)
  from pay(3) show ?thesis
  proof (cases rule: payRoutes_cases)
    case (passed reqCtx st key exec)
    have v: "chainView st = chainView (w_store (sv_run sv))" using passed(4) by (rule chainView_known)
    then have "databaseNonces (w_store ((sv_run sv)\<lparr>w_store := st\<rparr>))"
      using assms(2) by (simp add: databaseNonces_iff onDatabase_def noncesBelow_def)
    from executeOnce_fresh [OF passed(7,9) this] v show ?thesis by (auto elim: freshSends_view)
  qed (simp add: freshSends_none)
qed (simp_all add: freshSends_none)

section \<open>No nonce twice in a run\<close>

text \<open>
  What was sent so far: with the network, every nonce once, known to the store as used, and not used in the
  store \<open>st0\<close> the run began with.
\<close>

definition trackedSends :: "string \<Rightarrow> signerStore \<Rightarrow> runState \<Rightarrow> bool" where
  "trackedSends wallet st0 w = (distinct (map (\<lambda>s. (sent_network s, nonceOf s)) (w_sent w)) \<and>
     (\<forall>s \<in> set (w_sent w). nonceOf s \<in> usedNonces (w_store w) wallet (sent_network s) \<and>
        nonceOf s \<notin> usedNonces st0 wallet (sent_network s)) \<and>
     (\<forall>network. usedNonces st0 wallet network \<subseteq> usedNonces (w_store w) wallet network))"

lemma trackedSends_step:
  assumes "trackedSends wallet st0 w" and "freshSends wallet w w'"
    and "\<And>network. usedNonces (w_store w) wallet network \<subseteq> usedNonces (w_store w') wallet network"
  shows "trackedSends wallet st0 w'"
proof -
  from assms(2) obtain new network where n: "w_sent w' = w_sent w @ new" "\<forall>s \<in> set new. sent_network s = network"
    "distinct (map nonceOf new)" "nonceOf ` set new \<inter> usedNonces (w_store w) wallet network = {}"
    "nonceOf ` set new \<subseteq> usedNonces (w_store w') wallet network"
    unfolding freshSends_def by (elim exE conjE) (rule that)
  have "map (\<lambda>s. (sent_network s, nonceOf s)) new = map (Pair network) (map nonceOf new)" using n(2) by simp
  then have "distinct (map (\<lambda>s. (sent_network s, nonceOf s)) new)"
    using n(3) by (simp only: distinct_map [of "Pair network"]) (simp add: inj_on_def)
  moreover have "nonceOf s \<notin> usedNonces (w_store w) wallet (sent_network s)" if "s \<in> set new" for s
    using n(2,4) that by auto
  ultimately show ?thesis
    using assms(1,3) n(1,2,5) unfolding trackedSends_def by (auto simp: image_iff subset_iff) (metis prod.inject)+
qed

lemma server_step_fresh:
  assumes "server_step eth reply sv sv'" and "databaseNonces (w_store (sv_run sv))"
  shows "freshSends (signerWallet eth (sv_cfg sv)) (sv_run sv) (sv_run sv') \<and> sv_cfg sv' = sv_cfg sv"
  using assms
  by (cases rule: server_stepE) (auto simp: freshSends_none serve_fresh serve_cfg)

lemma server_run_tracked:
  assumes "server_run eth sv sv'" and "databaseNonces (w_store (sv_run sv))" and "w_sent (sv_run sv) = []"
  shows "databaseNonces (w_store (sv_run sv')) \<and> sv_cfg sv' = sv_cfg sv \<and>
    trackedSends (signerWallet eth (sv_cfg sv)) (w_store (sv_run sv)) (sv_run sv')"
  using assms(1) unfolding server_run_def
proof (induction rule: rtranclp_induct)
  case base
  with assms(2,3) show ?case by (simp add: trackedSends_def)
next
  case (step a b)
  then obtain reply where s: "server_step eth reply a b" by blast
  from step.IH have db: "databaseNonces (w_store (sv_run a))" by blast
  note grown = databaseGrows_nonces [OF grows.server_step [OF s] db]
  from server_step_fresh [OF s db] step.IH grown trackedSends_step show ?case by metis
qed

text \<open>
  C11: A signer on the database never uses a chain nonce twice. In any run of the server, over all routes, retries,
  failed sends and faults of the database, the transactions handed to a node have pairwise different nonces on each
  network, and none of them was in the table of nonces when the run began, so restarts reuse none either.
\<close>

theorem database_nonces_unique:
  assumes "server_run eth sv sv'" and "databaseNonces (w_store (sv_run sv))" and "w_sent (sv_run sv) = []"
  shows "distinct (map (\<lambda>s. (sent_network s, nonceOf s)) (w_sent (sv_run sv'))) \<and>
    (\<forall>s \<in> set (w_sent (sv_run sv')).
       nonceOf s \<notin> usedNonces (w_store (sv_run sv)) (signerWallet eth (sv_cfg sv)) (sent_network s))"
  using server_run_tracked [OF assms] unfolding trackedSends_def by blast

definition demoDb :: signerStore where
  "demoDb = PgStore (newPgStore [] id)"

definition demoDbPay :: "reply \<times> runState" where
  "demoDbPay = executeOnce ''k'' (executeTransfer demoGeth payConfig 1300000000000 (payNet (\<lambda>_. None)) (payRequest []))
     (payStart\<lparr>w_store := snd (AcceptNonce 1300000000000 ''n1'' (GetNonceTTL payConfig) demoDb)\<rparr>)"

lemma demoDb_served:
  "\<exists>sv. server_run demoGeth ((demoServer None)\<lparr>sv_run := payStart\<lparr>w_store := demoDb\<rparr>\<rparr>) sv \<and> sv_run sv = snd demoDbPay"
proof -
  have "fst (AcceptNonce 1300000000000 ''n1'' (GetNonceTTL payConfig) demoDb) = Inr True" by code_simp
  then have a: "AcceptNonce 1300000000000 ''n1'' (GetNonceTTL payConfig) (w_store (payStart\<lparr>w_store := demoDb\<rparr>))
      = (Inr True, snd (AcceptNonce 1300000000000 ''n1'' (GetNonceTTL payConfig) demoDb))" by (simp add: prod_eq_iff)
  have "(case fst demoDbPay of Paid _ \<Rightarrow> True | _ \<Rightarrow> False)" by code_simp
  then obtain resp where "fst demoDbPay = Paid resp" by (auto split: reply.splits)
  then have "demoDbPay = (Paid resp, snd demoDbPay)" by (simp add: prod_eq_iff)
  then obtain sv where "serve demoGeth demoOut (demoRequest demoSig) ((demoServer None)\<lparr>sv_run := payStart\<lparr>w_store := demoDb\<rparr>\<rparr>)
      = (Paid resp, sv)" "sv_run sv = snd demoDbPay"
    using demo_serve_on [OF a] by (auto simp: demoDbPay_def)
  then show ?thesis unfolding server_run_def by (blast intro: server_step.served)
qed

theorem database_nonces_unique_witness:
  "map nonceOf (w_sent (snd demoDbPay)) = [5] \<and> distinct (map (\<lambda>s. (sent_network s, nonceOf s)) (w_sent (snd demoDbPay)))"
proof -
  obtain sv where s: "server_run demoGeth ((demoServer None)\<lparr>sv_run := payStart\<lparr>w_store := demoDb\<rparr>\<rparr>) sv" "sv_run sv = snd demoDbPay"
    using demoDb_served by blast
  have n: "map nonceOf (w_sent (snd demoDbPay)) = [5]" by code_simp
  have "databaseNonces demoDb" by (simp add: databaseNonces_def demoDb_def pg_ok_def newPgStore_def)
  with database_nonces_unique [OF s(1)] s(2) n show ?thesis by (simp add: payStart_sent)
qed

text \<open>A server that starts with a database is in the situation of the theorem.\<close>

lemma started_on_database:
  assumes "startServer eth redis iter connect now cfg = Inr sv" and "DatabaseURL cfg \<noteq> []"
    and "\<And>s. connect (DatabaseURL cfg) = Inr s \<Longrightarrow> constrained s"
  shows "databaseNonces (w_store (sv_run sv)) \<and> w_sent (sv_run sv) = []"
proof -
  from startServer_store [OF assms(1)] assms(2) obtain s s1 where
    "connect (DatabaseURL cfg) = Inr s" "pg_migrate s = (None, s1)" "w_store (sv_run sv) = PgStore s1"
    by (auto simp: openSignerStore_def split: if_splits sum.splits prod.splits option.splits)
  with pg_migrate_ok assms(3) startServer_store [OF assms(1)] show ?thesis
    by (auto simp: databaseNonces_def schemaOk_def chainNoncesOk_def bigint_def list_all_iff pg_ok_def)
qed

end
