(* ===== verification/Server_Refinement.thy ===== *)
theory Server_Refinement
  imports Background
begin

text \<open>
  The server implements the automaton of \<open>Store_Contracts\<close>: every run of \<open>server_step\<close> is, on its store, a run of
  \<open>pay_step\<close>, in which a served payment is a request that claims its key, executes, and saves its response or releases the
  claim, and everything else the server does is a step elsewhere. The run of the server is observed by its trace: for each
  transaction a node accepted, the idempotency key of the request that was being served. The automaton
  executes exactly the keys of the trace, in that order, so what holds of its executions holds of the accepted transactions.
\<close>

section \<open>One payment\<close>

text \<open>The automaton on the store of the signer.\<close>

definition pays :: "signerStore payState \<Rightarrow> signerStore payState \<Rightarrow> bool" where
  "pays = pay_step ClaimResult SaveResult ReleaseClaim keysKept"

lemma keysKept_keeps: "keeps_keys exec \<Longrightarrow> exec (w\<lparr>w_store := st\<rparr>) = (x, w1) \<Longrightarrow> keysKept st (w_store w1)"
  using keeps_keysD [of exec "w\<lparr>w_store := st\<rparr>"] by (simp add: keysKept_def)

lemma executeOnce_refines:
  assumes "executeOnce key exec w = (rep, w')" and "keeps_keys exec" and "pay_store p = w_store w" and "pay_phase p i = Idle"
  obtains (unpaid) p' ph where "pays\<^sup>*\<^sup>* p p'" "pay_store p' = w_store w'" "pay_phase p' = (pay_phase p)(i := ph)"
      "pay_log p' = pay_log p" "w_sent w' = w_sent w"
  | (ran) p' ph st x w1 where "pays\<^sup>*\<^sup>* p p'" "pay_store p' = w_store w'" "pay_phase p' = (pay_phase p)(i := ph)"
      "exec (w\<lparr>w_store := st\<rparr>) = (x, w1)" "w_sent w' = w_sent w1"
      "pay_log p' = pay_log p @ (case x of Some (Inr resp) \<Rightarrow> [(key, resp)] | _ \<Rightarrow> [])"
  using assms(1)
proof (cases rule: executeOnce_cases)
  case (refused x st)
  have "pays p (p\<lparr>pay_store := st, pay_phase := (pay_phase p)(i := Finished)\<rparr>)"
  proof (cases x)
    case (Inl e)
    with refused(1) assms(3,4) show ?thesis unfolding pays_def by (intro pay_step.claim_error) simp_all
  next
    case (Inr y)
    with refused(2,3) obtain r where "y = (r, False, False)" by (metis (full_types) prod_cases3)
    with Inr refused(1) assms(3,4) show ?thesis unfolding pays_def by (intro pay_step.busy) simp_all
  qed
  with refused(4) show ?thesis by (intro unpaid [OF r_into_rtranclp [of pays]]) (assumption, simp_all)
next
  case (replayed r c st)
  then have "pays p (p\<lparr>pay_store := st, pay_phase := (pay_phase p)(i := Finished)\<rparr>)"
    using assms(3,4) unfolding pays_def by (intro pay_step.replayed) simp_all
  with replayed(2) show ?thesis by (intro unpaid [OF r_into_rtranclp [of pays]]) (assumption, simp_all)
next
  case (executed r st x w1)
  let ?p1 = "p\<lparr>pay_store := st, pay_phase := (pay_phase p)(i := Running key)\<rparr>"
  let ?p2 = "?p1\<lparr>pay_store := w_store w1\<rparr>"
  have "pays p ?p1" unfolding pays_def using executed(1) assms(3,4) by (intro pay_step.claimed) simp_all
  moreover have "pays ?p1 ?p2" unfolding pays_def
    using keysKept_keeps [OF assms(2) executed(2)] by (intro pay_step.elsewhere) simp
  ultimately have run: "pays\<^sup>*\<^sup>* p ?p2" by (rule converse_rtranclp_into_rtranclp [OF _ r_into_rtranclp])
  from executed(4) show ?thesis
  proof (elim disjE exE conjE)
    assume "x = None" "w_store w' = w_store w1"
    with executed(2,3) run show ?thesis by (intro ran [of ?p2 "Running key" st x w1]) simp_all
  next
    fix e assume e: "x = Some (Inl e)" "w_store w' = snd (ReleaseClaim key (w_store w1))"
    have "pays ?p2 (?p2\<lparr>pay_store := w_store w', pay_phase := (pay_phase ?p2)(i := Finished)\<rparr>)"
      unfolding pays_def by (rule pay_step.exec_failed) (simp_all add: e(2) prod_eq_iff)
    with run have "pays\<^sup>*\<^sup>* p (?p2\<lparr>pay_store := w_store w', pay_phase := (pay_phase ?p2)(i := Finished)\<rparr>)" by simp
    with executed(2,3) e(1) show ?thesis
      by (intro ran [of "?p2\<lparr>pay_store := w_store w', pay_phase := (pay_phase ?p2)(i := Finished)\<rparr>" Finished st x w1]) simp_all
  next
    fix resp e assume e: "x = Some (Inr resp)" "SaveResult key resp (w_store w1) = (e, w_store w')"
    let ?p3 = "?p2\<lparr>pay_phase := (pay_phase ?p2)(i := Sent key resp), pay_log := pay_log ?p2 @ [(key, resp)]\<rparr>"
    have "pays ?p2 ?p3" unfolding pays_def by (rule pay_step.executed) simp
    moreover have "pays ?p3 (?p3\<lparr>pay_store := w_store w', pay_phase := (pay_phase ?p3)(i := Finished)\<rparr>)"
      unfolding pays_def by (rule pay_step.saved) (simp, use e(2) in simp)
    ultimately have "pays\<^sup>*\<^sup>* p (?p3\<lparr>pay_store := w_store w', pay_phase := (pay_phase ?p3)(i := Finished)\<rparr>)"
      using run by simp
    with executed(2,3) e(1) show ?thesis
      by (intro ran [of "?p3\<lparr>pay_store := w_store w', pay_phase := (pay_phase ?p3)(i := Finished)\<rparr>" Finished st x w1]) simp_all
  qed
qed

text \<open>A successful execution stands for one accepted transaction, unless the signer only simulates.\<close>

definition accepted :: "runState \<Rightarrow> nat" where
  "accepted w = length (filter sent_ok (w_sent w))"

lemma execution_accepted:
  assumes "anExecution eth cfg now net exec" and "exec w = (x, w')" and "\<not> AllowSimulation cfg"
  shows "accepted w' = accepted w + (if succeeded x then 1 else 0)"
proof -
  from assms(1) consider (t) req where "exec = executeTransfer eth cfg now net req"
    | (s) req where "exec = executeSettlement eth cfg now net req"
    | (c) req where "exec = executeContractCall eth cfg now net req" by (auto simp: anExecution_def)
  then show ?thesis
  proof cases
    case t
    from assms(2) [unfolded t] show ?thesis
    proof (cases rule: executeTransfer_sent)
      case (sent st key "from")
      from transfer.sendVia_sent [OF sent(7)] show ?thesis by (auto simp: accepted_def)
    qed (use assms(3) in \<open>simp_all add: accepted_def\<close>)
  next
    case s
    from assms(2) [unfolded s] show ?thesis
    proof (cases rule: executeSettlement_sent)
      case (sent network amount key "from")
      from settlement.sendVia_sent [OF sent(5)] show ?thesis by (auto simp: accepted_def)
    qed (use assms(3) in \<open>simp_all add: accepted_def\<close>)
  next
    case c
    from assms(2) [unfolded c] show ?thesis
    proof (cases rule: executeContractCall_sent)
      case (sent st key "from")
      from contract_call.sendVia_sent [OF sent(7)] show ?thesis by (auto simp: accepted_def)
    qed (use assms(3) in \<open>simp_all add: accepted_def\<close>)
  qed
qed

section \<open>The trace of a run\<close>

text \<open>The key in the body of the request that the middleware hands to a paying route.\<close>

definition handledKey :: "outside \<Rightarrow> HttpRequest \<Rightarrow> 'r server \<Rightarrow> string option" where
  "handledKey out r sv = (case guardRequest (sv_opts sv) (o_now out) (o_rnd out) r (sv_security sv) of
     (Forward r1 ctx, _) \<Rightarrow> routeKey r1 | _ \<Rightarrow> None)"

text \<open>
  \<open>server_trace eth sv ks sv'\<close>: a run from \<open>sv\<close> to \<open>sv'\<close> in which \<open>ks\<close> lists, for every transaction that a node accepted while
  a request was served, the key of that request.
\<close>

inductive server_trace :: "geth \<Rightarrow> 'r server \<Rightarrow> string option list \<Rightarrow> 'r server \<Rightarrow> bool" for eth sv where
  start: "server_trace eth sv [] sv"
| serving: "server_trace eth sv ks sv1 \<Longrightarrow> serve eth out r sv1 = (rep, sv2) \<Longrightarrow>
    server_trace eth sv (ks @ replicate (accepted (sv_run sv2) - accepted (sv_run sv1)) (handledKey out r sv1)) sv2"
| background: "server_trace eth sv ks sv1 \<Longrightarrow> server_step eth None sv1 sv2 \<Longrightarrow> server_trace eth sv ks sv2"

lemma server_run_trace: "server_run eth sv sv' \<Longrightarrow> \<exists>ks. server_trace eth sv ks sv'"
  unfolding server_run_def
proof (induction rule: rtranclp_induct)
  case base
  show ?case by (blast intro: server_trace.start)
next
  case (step a b)
  then obtain ks reply where t: "server_trace eth sv ks a" "server_step eth reply a b" by blast
  show ?case
  proof (cases reply)
    case None
    with t show ?thesis by (blast intro: server_trace.background)
  next
    case (Some rep)
    with t(2) obtain out r where "serve eth out r a = (rep, b)" by (auto elim: server_stepE)
    with t(1) show ?thesis by (blast intro: server_trace.serving)
  qed
qed

section \<open>The simulation\<close>

text \<open>
  The automaton is in step with the server: it has the same store, some request has not begun, and it has executed
  the keys of the trace.
\<close>

definition in_step :: "string option list \<Rightarrow> 'r server \<Rightarrow> signerStore payState \<Rightarrow> bool" where
  "in_step ks sv p = (pay_store p = w_store (sv_run sv) \<and> finite {i. pay_phase p i \<noteq> Idle} \<and>
     \<not> AllowSimulation (sv_cfg sv) \<and> map (Some \<circ> fst) (pay_log p) = ks)"

lemma in_step_free: "in_step ks sv p \<Longrightarrow> \<exists>i. pay_phase p i = Idle"
proof (rule ccontr)
  assume "in_step ks sv p" "\<nexists>i. pay_phase p i = Idle"
  then have "finite (UNIV :: nat set)" by (simp add: in_step_def)
  then show False by simp
qed

lemma finite_update: "finite {i. f i \<noteq> Idle} \<Longrightarrow> finite {i. (f(j := ph)) i \<noteq> Idle}"
  by (rule finite_subset [of _ "insert j {i. f i \<noteq> Idle}"]) auto

lemma elsewhere_in_step:
  assumes "in_step ks sv p" and "keyView st = keyView (w_store (sv_run sv))" and "w_store (sv_run sv') = st"
    and "sv_cfg sv' = sv_cfg sv"
  shows "\<exists>p'. pays\<^sup>*\<^sup>* p p' \<and> in_step ks sv' p'"
proof -
  have "pays p (p\<lparr>pay_store := st\<rparr>)" unfolding pays_def
    using assms(1,2) by (intro pay_step.elsewhere) (simp add: keysKept_def in_step_def)
  moreover have "in_step ks sv' (p\<lparr>pay_store := st\<rparr>)" using assms by (simp add: in_step_def)
  ultimately show ?thesis by blast
qed

lemma serve_in_step:
  assumes "serve eth out r sv = (rep, sv')" and "in_step ks sv p"
  shows "\<exists>p'. pays\<^sup>*\<^sup>* p p' \<and>
    in_step (ks @ replicate (accepted (sv_run sv') - accepted (sv_run sv)) (handledKey out r sv)) sv' p'"
  using assms(1)
proof (cases rule: serve_cases)
  case idle
  with elsewhere_in_step [OF assms(2), of "w_store (sv_run sv)" sv'] serve_cfg [OF assms(1)] show ?thesis by simp
next
  case (store st)
  with elsewhere_in_step [OF assms(2), of st sv'] serve_cfg [OF assms(1)] show ?thesis by (simp add: accepted_def)
next
  case (pay r1 ctx stack)
  from pay(3) show ?thesis
  proof (cases rule: payRoutes_cases)
    case (failed code msg st)
    with elsewhere_in_step [OF assms(2), of st sv'] serve_cfg [OF assms(1)] show ?thesis by (simp add: accepted_def)
  next
    case (passed reqCtx st key exec)
    have hk: "handledKey out r sv = Some key" using pay(2) passed(10) by (simp add: handledKey_def)
    obtain i where i: "pay_phase p i = Idle" using in_step_free [OF assms(2)] ..
    let ?p = "p\<lparr>pay_store := st\<rparr>"
    have first: "pays p ?p" unfolding pays_def
      using assms(2) passed(5) by (intro pay_step.elsewhere) (simp add: keysKept_def in_step_def)
    have p: "pay_store ?p = w_store ((sv_run sv)\<lparr>w_store := st\<rparr>)" "pay_phase ?p i = Idle" using i by simp_all
    have fin: "finite {j. ((pay_phase p)(i := ph)) j \<noteq> Idle}" for ph
      using assms(2) by (intro finite_update) (simp add: in_step_def)
    from passed(7) passed(6) p show ?thesis
    proof (cases rule: executeOnce_refines)
      case (unpaid p' ph)
      then have "in_step ks sv' p'" "accepted (sv_run sv') = accepted (sv_run sv)"
        using assms(2) fin serve_cfg [OF assms(1)] by (simp_all add: in_step_def accepted_def)
      with first unpaid(1) show ?thesis by (auto intro: converse_rtranclp_into_rtranclp)
    next
      case (ran p' ph st1 x w1)
      have "\<not> AllowSimulation (sv_cfg sv)" using assms(2) by (simp add: in_step_def)
      from execution_accepted [OF passed(9) ran(4) this] ran(5)
      have "accepted (sv_run sv') = accepted (sv_run sv) + (if succeeded x then 1 else 0)" by (simp add: accepted_def)
      moreover have "map (Some \<circ> fst) (case x of Some (Inr resp) \<Rightarrow> [(key, resp)] | _ \<Rightarrow> [])
          = replicate (if succeeded x then 1 else 0) (Some key)"
        by (auto simp: succeeded_def split: option.split sum.split)
      ultimately have "in_step (ks @ replicate (accepted (sv_run sv') - accepted (sv_run sv)) (handledKey out r sv)) sv' p'"
        using assms(2) fin serve_cfg [OF assms(1)] ran(2,3,6) by (simp add: in_step_def hk)
      with first ran(1) show ?thesis by (meson converse_rtranclp_into_rtranclp)
    qed
  qed
qed

lemma background_in_step:
  assumes "server_step eth None sv sv'" and "in_step ks sv p"
  shows "\<exists>p'. pays\<^sup>*\<^sup>* p p' \<and> in_step ks sv' p'"
  using assms(1)
proof (cases rule: server_stepE)
  case (started g net now running g' st)
  with elsewhere_in_step [OF assms(2), of st sv'] guard_keys(2) [OF started(5)] show ?thesis by simp
next
  case (scanned g net now g' st)
  with elsewhere_in_step [OF assms(2), of st sv'] guard_keys(1) [OF scanned(5)] show ?thesis by simp
next
  case (monitored receipts)
  with elsewhere_in_step [OF assms(2), of _ sv'] views_round show ?thesis by simp
qed simp_all

lemma server_trace_in_step:
  assumes "server_trace eth sv ks sv'" and "\<not> AllowSimulation (sv_cfg sv)"
  shows "\<exists>p. pays\<^sup>*\<^sup>* (pay_init (w_store (sv_run sv))) p \<and> in_step ks sv' p"
  using assms(1)
proof induction
  case start
  have "in_step [] sv (pay_init (w_store (sv_run sv)))" using assms(2) by (simp add: in_step_def pay_init_def)
  then show ?case by blast
next
  case (serving ks sv1 out r rep sv2)
  then show ?case by (meson rtranclp_trans serve_in_step)
next
  case (background ks sv1 sv2)
  then show ?case by (meson rtranclp_trans background_in_step)
qed

section \<open>Refinement\<close>

lemma executions_count: "length (executions k p) = count_list (map (Some \<circ> fst) (pay_log p)) (Some k)"
  by (simp add: executions_def count_list_eq_length_filter filter_map comp_def eq_commute)

text \<open>
  C5: The server refines the automaton of interleaved requests. Take a run of the server, not only simulating, and for
  each transaction that a node accepted in it the idempotency key of the request that was being served (\<open>ks\<close>, in order).
  Some run of the automaton from the same store executes exactly these keys in this order and ends with the store of the
  server. Hence, of a key that was free at the beginning at most one transaction was accepted, and of a
  key that was already settled none.
\<close>

theorem server_refines_automaton:
  assumes "server_trace eth sv ks sv'" and "\<not> AllowSimulation (sv_cfg sv)"
  shows "(\<exists>p. (pay_step ClaimResult SaveResult ReleaseClaim keysKept)\<^sup>*\<^sup>* (pay_init (w_store (sv_run sv))) p \<and>
      pay_store p = w_store (sv_run sv') \<and> map (Some \<circ> fst) (pay_log p) = ks) \<and>
    (\<forall>k. k \<noteq> [] \<longrightarrow> storeView (w_store (sv_run sv)) k = Free \<longrightarrow> count_list ks (Some k) \<le> 1) \<and>
    (\<forall>k resp. k \<noteq> [] \<longrightarrow> storeView (w_store (sv_run sv)) k = Done resp \<longrightarrow> count_list ks (Some k) = 0)"
proof -
  from server_trace_in_step [OF assms] obtain p where
    p: "(pay_step ClaimResult SaveResult ReleaseClaim keysKept)\<^sup>*\<^sup>* (pay_init (w_store (sv_run sv))) p"
      "pay_store p = w_store (sv_run sv')" "map (Some \<circ> fst) (pay_log p) = ks"
    unfolding pays_def in_step_def by blast
  have "count_list ks (Some k) \<le> 1" if "k \<noteq> []" "storeView (w_store (sv_run sv)) k = Free" for k
    using iface.at_most_one_execution [OF p(1) that] p(3) by (simp add: executions_count)
  moreover have "count_list ks (Some k) = 0" if "k \<noteq> []" "storeView (w_store (sv_run sv)) k = Done resp" for k resp
    using iface.settled_not_executed [OF p(1) that] p(3) executions_count [of k p] by simp
  ultimately show ?thesis using p by blast
qed

text \<open>The payment served on the sample server: one accepted transaction, with the key of the request.\<close>

lemma demo_handledKey: "handledKey demoOut (demoRequest demoSig) (demoServer None) = Some ''k''"
proof -
  obtain ctx stack where g: "guardRequest (securityOptions payConfig) 1300000000000 None (demoRequest demoSig)
      (MemorySecurity (demoRV 300000000000) :: unit securityStack) = (Forward (demoRequest demoSig) (Some ctx), stack)"
    using demo_guardRequest by blast
  have "rq_Path (demoRequest demoSig) = ''/hd/transfer''" "readLimited maxHandlerBody (demoRequest demoSig) = Inr demoBody"
    by (simp_all add: demoRequest_def readLimited_def maxHandlerBody_def demoBody_length)
  then have "routeKey (demoRequest demoSig) = Some ''k''" by (simp add: routeKey_def demoBody_decoded payRequest_def)
  with g show ?thesis by (simp add: handledKey_def demoServer_def demoOut_def)
qed

theorem server_refines_automaton_witness:
  "\<exists>sv p. server_trace demoGeth (demoServer None) [Some ''k''] sv \<and> map fst (pay_log p) = [''k''] \<and>
     (pay_step ClaimResult SaveResult ReleaseClaim keysKept)\<^sup>*\<^sup>* (pay_init demoStore) p \<and> pay_store p = w_store (sv_run sv)"
proof -
  obtain resp sv where s: "serve demoGeth demoOut (demoRequest demoSig) (demoServer None) = (Paid resp, sv)"
    "sv_run sv = snd demoPay" using demo_serve by blast
  have one: "accepted (snd demoPay) = 1" by code_simp
  have start: "accepted (sv_run (demoServer None)) = 0" "w_store (sv_run (demoServer None)) = demoStore"
    by (simp_all add: demoServer_def accepted_def payStart_def)
  have k: "handledKey demoOut (demoRequest demoSig) (demoServer None) = Some ''k''" by (rule demo_handledKey)
  from server_trace.serving [OF server_trace.start s(1)] have
    t: "server_trace demoGeth (demoServer None) [Some ''k''] sv" by (simp add: s(2) one start(1) k)
  have "\<not> AllowSimulation payConfig" by code_simp
  then have "\<not> AllowSimulation (sv_cfg (demoServer None))" by (simp add: demoServer_def)
  from server_refines_automaton [OF t this] start(2) obtain p where p: "(pay_step ClaimResult SaveResult ReleaseClaim keysKept)\<^sup>*\<^sup>* (pay_init demoStore) p"
    "pay_store p = w_store (sv_run sv)" "map (Some \<circ> fst) (pay_log p) = [Some ''k'']" by auto
  from p(3) have "map fst (pay_log p) = [''k'']" by (cases "pay_log p") auto
  then show ?thesis using t p(1,2) by (intro exI [of _ sv] exI [of _ p] conjI)
qed

end
