(* ===== verification/Failed_Sends.thy ===== *)
theory Failed_Sends
  imports Execution_Safety
begin

text \<open>
  What an error of \<open>SendTransaction\<close> does on a working database. The row of the reserved nonce stays in the table
  with status \<open>failed\<close>, but the next reservation looks at the rows \<open>reserved\<close> and \<open>submitted\<close> only: as long as the chain
  reports the same pending nonce it computes the same nonce again and violates the primary key.
\<close>

section \<open>The rows of a working database\<close>

definition workingRows :: "signerStore \<Rightarrow> pgChainNonce list option" where
  "workingRows st = (case st of
     MemStore _ \<Rightarrow> None | PgStore s \<Rightarrow> if pg_faults s = [] then Some (pg_chainNonces s) else None)"

lemma workingRows_iff: "workingRows st = Some rows \<longleftrightarrow> (\<exists>s. st = PgStore s \<and> pg_faults s = [] \<and> pg_chainNonces s = rows)"
  by (cases st) (auto simp: workingRows_def)

lemma no_fault: "pg_faults s = [] \<Longrightarrow> pgStmt f s = f s"
  by (simp add: pgStmt_def popFault_def)

lemma workingRows_kept:
  assumes "workingRows st = Some rows"
  shows "workingRows (snd (RecordCustodyEvent ev st)) = Some rows"
    and "workingRows (snd (CreateSignerTransaction now item st)) = Some rows"
    and "DailySubmittedOutflow now token network st = (f, st') \<Longrightarrow> workingRows st' = Some rows"
  using assms
  by (auto simp: workingRows_iff RecordCustodyEvent_def CreateSignerTransaction_def DailySubmittedOutflow_def onStore_def
      pg_RecordCustodyEvent_def pg_CreateSignerTransaction_def pg_DailySubmittedOutflow_def no_fault insertEvent_def
      upsertTransaction_def split_beta)

lemma workingRows_failed:
  assumes "workingRows st = Some rows" and "uint x < 9223372036854775808"
  shows "workingRows (snd (MarkChainNonceFailed wallet network x why st)) =
    Some (map (\<lambda>r. if hasNonce wallet network (uint x) r then setFailed why r else r) rows)"
  using assms
  by (auto simp: workingRows_iff MarkChainNonceFailed_def onStore_def pg_MarkChainNonceFailed_def updateChainNonce_def
      no_fault split_beta)

text \<open>The nonce the next reservation computes, and when it is refused.\<close>

definition liveNonces :: "string \<Rightarrow> string \<Rightarrow> pgChainNonce list \<Rightarrow> int list" where
  "liveNonces wallet network rows = map pn_nonce (filter (\<lambda>r. pn_wallet r = wallet \<and> pn_network r = network
     \<and> (pn_status r = ''reserved'' \<or> pn_status r = ''submitted'')) rows)"

definition nextFor :: "string \<Rightarrow> string \<Rightarrow> 64 word \<Rightarrow> pgChainNonce list \<Rightarrow> 64 word" where
  "nextFor wallet network p rows = nextNonce (case liveNonces wallet network rows of
     [] \<Rightarrow> None | n # ns \<Rightarrow> Some (foldl max n ns)) p"

definition blockedRows :: "string \<Rightarrow> string \<Rightarrow> 64 word \<Rightarrow> pgChainNonce list \<Rightarrow> bool" where
  "blockedRows wallet network p rows = list_ex (hasNonce wallet network (uint (nextFor wallet network p rows))) rows"

lemma reserve_working:
  assumes "workingRows st = Some rows" and "ReserveChainNonce wallet network p st = (x, st')"
  shows "(\<exists>e. x = Inl e) \<and> st' = st \<or>
    x = Inr (nextFor wallet network p rows) \<and> uint (nextFor wallet network p rows) < 9223372036854775808 \<and>
    \<not> blockedRows wallet network p rows \<and>
    workingRows st' = Some (rows @ [\<lparr>pn_wallet = wallet, pn_network = network, pn_nonce = uint (nextFor wallet network p rows),
      pn_status = ''reserved'', pn_txHash = [], pn_reason = []\<rparr>])"
proof -
  from assms(1) obtain s where s: "st = PgStore s" "pg_faults s = []" "pg_chainNonces s = rows" by (auto simp: workingRows_iff)
  then have sel: "selectMaxNonce wallet network s = (Inr (case liveNonces wallet network rows of
      [] \<Rightarrow> None | n # ns \<Rightarrow> Some (foldl max n ns)), s)"
    by (simp add: selectMaxNonce_def reservedNonces_def liveNonces_def)
  show ?thesis
    using assms(2) s sel
    by (auto simp: ReserveChainNonce_def onStore_def pg_ReserveChainNonce_def pgTx_def reserveBody_def no_fault popFault_def
        rollbackTo_def nextFor_def [symmetric] insertChainNonce_def blockedRows_def workingRows_iff Let_def
        split: if_splits)
qed

text \<open>Marking the nonce that was just reserved as failed blocks the next reservation for the same pending nonce.\<close>

lemma failed_blocks:
  assumes "\<not> blockedRows wallet network p rows"
  defines "x \<equiv> nextFor wallet network p rows"
  shows "blockedRows wallet network p (map (\<lambda>r. if hasNonce wallet network (uint x) r then setFailed why r else r)
    (rows @ [\<lparr>pn_wallet = wallet, pn_network = network, pn_nonce = uint x, pn_status = ''reserved'', pn_txHash = [], pn_reason = []\<rparr>]))"
proof -
  have "\<not> hasNonce wallet network (uint x) r" if "r \<in> set rows" for r
    using assms(1) that by (auto simp: blockedRows_def list_ex_iff x_def)
  then have "map (\<lambda>r. if hasNonce wallet network (uint x) r then setFailed why r else r) rows = rows"
    by (intro map_idI) simp
  then have m: "map (\<lambda>r. if hasNonce wallet network (uint x) r then setFailed why r else r)
      (rows @ [\<lparr>pn_wallet = wallet, pn_network = network, pn_nonce = uint x, pn_status = ''reserved'', pn_txHash = [], pn_reason = []\<rparr>])
    = rows @ [\<lparr>pn_wallet = wallet, pn_network = network, pn_nonce = uint x, pn_status = ''failed'', pn_txHash = [], pn_reason = why\<rparr>]"
    (is "_ = ?rows") by (simp, simp add: hasNonce_def setFailed_def)
  have "liveNonces wallet network ?rows = liveNonces wallet network rows" by (simp add: liveNonces_def)
  then have "nextFor wallet network p ?rows = x" by (simp add: nextFor_def x_def)
  then show ?thesis unfolding m by (simp add: blockedRows_def hasNonce_def)
qed

section \<open>One attempt, and the loop over the endpoints\<close>

definition blocked :: "string \<Rightarrow> string \<Rightarrow> 64 word \<Rightarrow> signerStore \<Rightarrow> bool" where
  "blocked wallet network p st = (\<exists>rows. workingRows st = Some rows \<and> blockedRows wallet network p rows)"

lemma reserveForSend_working:
  assumes "reserveForSend eth cfg client from network extra st = (x, st')" and "workingRows st = Some rows"
    and "c_PendingNonceAt client from = Inr p"
  shows "(\<exists>e. x = Inl e) \<and> (st' = st \<or> (\<exists>rows'. workingRows st' = Some rows') \<and> \<not> blocked (AddressHex eth from) network p st) \<or>
    (\<exists>gasPrice. x = Inr (nextFor (AddressHex eth from) network p rows, gasPrice)) \<and>
    uint (nextFor (AddressHex eth from) network p rows) < 9223372036854775808 \<and> \<not> blockedRows (AddressHex eth from) network p rows \<and>
    workingRows st' = Some (rows @ [\<lparr>pn_wallet = AddressHex eth from, pn_network = network,
      pn_nonce = uint (nextFor (AddressHex eth from) network p rows), pn_status = ''reserved'', pn_txHash = [], pn_reason = []\<rparr>])"
proof -
  obtain y st1 where y: "ReserveChainNonce (AddressHex eth from) network p st = (y, st1)" by fastforce
  show ?thesis
    using reserve_working [OF assms(2) y] assms y workingRows_kept(1) [of st1]
    by (auto simp: reserveForSend_def Let_def blocked_def split: sum.splits prod.splits)
qed

text \<open>An attempt on a blocked store fails and changes nothing; an attempt whose send fails blocks the store.\<close>

lemma attempt_blocked:
  assumes "executeEVMTransferWithClient eth cfg req network key from t c w = (r, w')"
    and "blocked (AddressHex eth from) network p (w_store w)" and "c_PendingNonceAt c from = Inr p"
  shows "(\<exists>e. r = Some (Inl e)) \<and> w' = w"
proof -
  from assms(2) obtain rows where rows: "workingRows (w_store w) = Some rows" "blockedRows (AddressHex eth from) network p rows"
    by (auto simp: blocked_def)
  obtain y st where y: "reserveForSend eth cfg c from network [] (w_store w) = (y, st)" by fastforce
  from reserveForSend_working [OF y rows(1) assms(3)] rows(2) assms(2) obtain e where "y = Inl e" "st = w_store w" by auto
  with assms(1) y show ?thesis
    by (auto simp: executeEVMTransferWithClient_def failWith_def split: sum.splits option.splits)
qed

lemma signAndSend_failed:
  assumes "signAndSend eth cfg now client key from network chainID tx item extra w = (r, w')"
  obtains (unsigned) e why where "r = Some (Inl e)" "w_sent w' = w_sent w"
      "w_store w' = snd (MarkChainNonceFailed (AddressHex eth from) network (tx_nonce tx) why (w_store w))"
  | (refused) s e why item' where "r = Some (Inl e)" "w_sent w' = w_sent w @ [s]" "\<not> sent_ok s"
      "w_store w' = snd (CreateSignerTransaction now item'
         (snd (MarkChainNonceFailed (AddressHex eth from) network (tx_nonce tx) why (w_store w))))"
  | (taken) s resp where "r = Some (Inr resp)" "w_sent w' = w_sent w @ [s]" "sent_ok s"
  using assms by (auto simp: signAndSend_def failWith_def Let_def split: sum.splits option.splits)

lemma attempt_working:
  assumes "executeEVMTransferWithClient eth cfg req network key from t c w = (r, w')"
    and "workingRows (w_store w) = Some rows" and "c_PendingNonceAt c from = Inr p"
  shows "w_sent w' = w_sent w \<and> \<not> succeeded r \<and> (\<exists>rows'. workingRows (w_store w') = Some rows') \<or>
    (\<exists>s. w_sent w' = w_sent w @ [s] \<and> sent_ok s \<and> succeeded r) \<or>
    (\<exists>s. w_sent w' = w_sent w @ [s] \<and> \<not> sent_ok s \<and> (\<exists>e. r = Some (Inl e)) \<and> blocked (AddressHex eth from) network p (w_store w'))"
proof -
  let ?wallet = "AddressHex eth from"
  let ?x = "nextFor ?wallet network p rows"
  obtain y st where y: "reserveForSend eth cfg c from network [] (w_store w) = (y, st)" by fastforce
  show ?thesis
  proof (cases "\<exists>gasPrice. y = Inr (?x, gasPrice)")
    case False
    with reserveForSend_working [OF y assms(2,3)] assms(1,2) y show ?thesis
      by (auto simp: executeEVMTransferWithClient_def failWith_def succeeded_def split: sum.splits option.splits)
  next
    case True
    then obtain gasPrice where g: "y = Inr (?x, gasPrice)" ..
    with reserveForSend_working [OF y assms(2,3)] have x: "uint ?x < 9223372036854775808" "\<not> blockedRows ?wallet network p rows"
      and st: "workingRows st = Some (rows @ [\<lparr>pn_wallet = ?wallet, pn_network = network, pn_nonce = uint ?x,
        pn_status = ''reserved'', pn_txHash = [], pn_reason = []\<rparr>])" by auto
    have failed: "workingRows (snd (MarkChainNonceFailed ?wallet network ?x why st)) = Some rows' \<Longrightarrow> blockedRows ?wallet network p rows'"
      for why rows' using failed_blocks [OF x(2), of why] workingRows_failed [OF st x(1), of ?wallet network why] by simp
    have marked: "\<exists>rows'. workingRows (snd (MarkChainNonceFailed ?wallet network ?x why st)) = Some rows'" for why
      using workingRows_failed [OF st x(1)] by blast
    show ?thesis
    proof (cases "\<exists>chainID tx. c_ChainID c = Inr chainID \<and> chainCheck network chainID = None \<and>
        transferTx eth cfg req network c from ?x gasPrice = Some (Inr tx)")
      case False
      with assms(1,2) y g st show ?thesis
        by (auto simp: executeEVMTransferWithClient_def failWith_def succeeded_def split: sum.splits option.splits)
    next
      case True
      then obtain chainID tx where tx: "c_ChainID c = Inr chainID" "chainCheck network chainID = None"
        "transferTx eth cfg req network c from ?x gasPrice = Some (Inr tx)" by blast
      with assms(1) y g obtain item where
        "signAndSend eth cfg t c key from network chainID tx item [] (w\<lparr>w_store := st\<rparr>) = (r, w')"
        by (auto simp: executeEVMTransferWithClient_def)
      then show ?thesis
      proof (cases rule: signAndSend_failed)
        case (unsigned e why)
        with marked [of why] transferTx_nonce [OF tx(3)] show ?thesis by (simp add: succeeded_def)
      next
        case (refused s e why item')
        with marked [of why] failed [of why] transferTx_nonce [OF tx(3)] workingRows_kept(2) show ?thesis
          by (fastforce simp: blocked_def)
      next
        case (taken s resp)
        then show ?thesis by (simp add: succeeded_def)
      qed
    qed
  qed
qed

definition reports :: "(string \<Rightarrow> attempt) \<Rightarrow> address \<Rightarrow> 64 word \<Rightarrow> bool" where
  "reports net from p = (\<forall>url c. at_client (net url) = Inr c \<longrightarrow> c_PendingNonceAt c from = Inr p)"

lemma sendLoop_blocked:
  assumes "sendLoop net (executeEVMTransferWithClient eth cfg req network key from) err hs f w = (r, f', w')"
    and "blocked (AddressHex eth from) network p (w_store w)" and "reports net from p"
  shows "\<not> succeeded r \<and> w' = w"
  using assms(1)
proof (induction hs arbitrary: err f)
  case Nil
  then show ?case by (auto simp: failWith_def succeeded_def)
next
  case (Cons h hs)
  show ?case
  proof (cases "at_client (net (h_url h))")
    case (Inl e)
    with Cons show ?thesis by (simp add: Let_def)
  next
    case (Inr c)
    obtain x w1 where x: "executeEVMTransferWithClient eth cfg req network key from (at_end (net (h_url h))) c w = (x, w1)" by fastforce
    with attempt_blocked [OF x assms(2)] Inr assms(3) obtain e where "x = Some (Inl e)" "w1 = w" by (auto simp: reports_def)
    with Cons Inr x show ?thesis by (simp add: Let_def)
  qed
qed

lemma sendLoop_working:
  assumes "sendLoop net (executeEVMTransferWithClient eth cfg req network key from) err hs f w = (r, f', w')"
    and "workingRows (w_store w) = Some rows" and "reports net from p"
    and "w_sent w' = w_sent w @ s # rest" and "\<not> sent_ok s"
  shows "rest = [] \<and> \<not> succeeded r \<and> blocked (AddressHex eth from) network p (w_store w')"
  using assms(1,2,4)
proof (induction hs arbitrary: err f w rows)
  case (Cons h hs)
  show ?case
  proof (cases "at_client (net (h_url h))")
    case (Inl e)
    with Cons show ?thesis by (simp add: Let_def)
  next
    case (Inr c)
    with assms(3) have p: "c_PendingNonceAt c from = Inr p" by (simp add: reports_def)
    obtain x w1 where x: "executeEVMTransferWithClient eth cfg req network key from (at_end (net (h_url h))) c w = (x, w1)" by fastforce
    have again: "\<exists>err f. sendLoop net (executeEVMTransferWithClient eth cfg req network key from) err hs f w1 = (r, f', w')"
      if "x = Some (Inl e)" for e using Cons.prems(1) Inr x that by (auto simp: Let_def)
    have stop: "r = x \<and> w' = w1" if "\<And>e. x \<noteq> Some (Inl e)"
      using Cons.prems(1) Inr x that by (auto simp: Let_def split: option.splits sum.splits)
    from attempt_working [OF x Cons.prems(2) p] show ?thesis
    proof (elim disjE exE conjE)
      fix rows' assume a: "w_sent w1 = w_sent w" "\<not> succeeded x" "workingRows (w_store w1) = Some rows'"
      show ?thesis
      proof (cases "\<exists>e. x = Some (Inl e)")
        case True
        with again Cons.IH [OF _ a(3)] Cons.prems(3) a(1) show ?thesis by auto
      next
        case False
        with stop a(1) Cons.prems(3) show ?thesis by auto
      qed
    next
      fix s' assume a: "w_sent w1 = w_sent w @ [s']" "sent_ok s'" "succeeded x"
      then have "w' = w1" using stop by (auto simp: succeeded_def)
      with a Cons.prems(3) assms(5) show ?thesis by simp
    next
      fix s' e assume a: "w_sent w1 = w_sent w @ [s']" "\<not> sent_ok s'" "x = Some (Inl e)"
        "blocked (AddressHex eth from) network p (w_store w1)"
      from again [OF a(3)] sendLoop_blocked [OF _ a(4) assms(3)] have "\<not> succeeded r" "w' = w1" by blast+
      with a Cons.prems(3) show ?thesis by simp
    qed
  qed
qed simp

lemma sendVia_sendLoop:
  assumes "sendVia cfg now net run w = (r, w')"
  obtains "r = None" "w_sent w' = w_sent w" "w_store w' = w_store w"
  | hs f f' w1 where "sendLoop net run None hs f w = (r, f', w1)" "w_sent w' = w_sent w1" "w_store w' = w_store w1"
  using assms by (fastforce simp: sendVia_def Let_def split: prod.splits option.splits if_splits)

section \<open>Transfers\<close>

lemma workingRows_treasury:
  assumes "validateTreasuryPolicy cfg now req network st = (e, st')" and "workingRows st = Some rows"
  shows "workingRows st' = Some rows"
  using assms workingRows_kept(1,3) [of _ rows]
  by (auto simp: validateTreasuryPolicy_def treasuryCheck_def Let_def split: sum.splits prod.splits if_splits)

lemma executeTransfer_blocked:
  assumes "executeTransfer eth cfg now net req w = (r, w')"
    and "HexToECDSA eth (TrimPrefix (EVMPrivateKey cfg) ''0x'') = Inr key"
    and "blocked (AddressHex eth (PubkeyToAddress eth key)) (requestedNetwork cfg req) p (w_store w)"
    and "reports net (PubkeyToAddress eth key) p"
  shows "w_sent w' = w_sent w \<and> blocked (AddressHex eth (PubkeyToAddress eth key)) (requestedNetwork cfg req) p (w_store w')"
proof -
  let ?n = "requestedNetwork cfg req"
  obtain e st where v: "validateTreasuryPolicy cfg now req ?n (w_store w) = (e, st)" by fastforce
  with assms(3) workingRows_treasury have b: "blocked (AddressHex eth (PubkeyToAddress eth key)) ?n p st"
    by (auto simp: blocked_def)
  have s: "w_sent w2 = w_sent w \<and> blocked (AddressHex eth (PubkeyToAddress eth key)) ?n p (w_store w2)"
    if "sendVia cfg now net (executeEVMTransferWithClient eth cfg req ?n key (PubkeyToAddress eth key)) (w\<lparr>w_store := st\<rparr>) = (x, w2)"
    for x w2
    using that
  proof (cases rule: sendVia_sendLoop)
    case 1
    with b show ?thesis by simp
  next
    case (2 hs f f' w1)
    with sendLoop_blocked [OF 2(1) _ assms(4)] b show ?thesis by simp
  qed
  show ?thesis
    using assms(1-3) v b s
    by (auto simp: executeTransfer_def executeEVMTransfer_def withKey_def failWith_def Let_def split: option.splits if_splits)
qed

text \<open>Later transfers, each with its clock, its nodes and its request.\<close>

fun laterTransfers :: "geth \<Rightarrow> SignerConfig \<Rightarrow> (instant \<times> (string \<Rightarrow> attempt) \<times> TransferRequest) list \<Rightarrow> runState \<Rightarrow> runState" where
  "laterTransfers eth cfg [] w = w"
| "laterTransfers eth cfg ((now, net, req) # calls) w = laterTransfers eth cfg calls (snd (executeTransfer eth cfg now net req w))"

lemma laterTransfers_blocked:
  assumes "HexToECDSA eth (TrimPrefix (EVMPrivateKey cfg) ''0x'') = Inr key"
    and "blocked (AddressHex eth (PubkeyToAddress eth key)) network p (w_store w)"
    and "\<forall>(now, net, req) \<in> set calls. requestedNetwork cfg req = network \<and> reports net (PubkeyToAddress eth key) p"
  shows "w_sent (laterTransfers eth cfg calls w) = w_sent w"
  using assms(2,3)
proof (induction calls arbitrary: w)
  case (Cons call calls)
  obtain now net req where c: "call = (now, net, req)" by (metis prod_cases3)
  obtain r w' where e: "executeTransfer eth cfg now net req w = (r, w')" by fastforce
  from Cons.prems c have "requestedNetwork cfg req = network" "reports net (PubkeyToAddress eth key) p" by auto
  with executeTransfer_blocked [OF e assms(1)] Cons.prems(1)
  have "w_sent w' = w_sent w" "blocked (AddressHex eth (PubkeyToAddress eth key)) network p (w_store w')" by auto
  with Cons c e show ?case by simp
qed simp

text \<open>
  C40: On a working database one failed send stops the wallet as long as the chain's pending nonce stays where it is. If
  a transfer, all of whose nodes report the same pending nonce, hands a transaction to a node and the node answers
  with an error, nothing is sent through another endpoint and the transfer fails; and from then on, for as long
  as the nodes report that same pending nonce, no transfer on that network sends anything.
\<close>

theorem failed_send_blocks_wallet:
  assumes "executeTransfer eth cfg now net req w = (r, w')" and "workingRows (w_store w) = Some rows"
    and "HexToECDSA eth (TrimPrefix (EVMPrivateKey cfg) ''0x'') = Inr key"
    and "reports net (PubkeyToAddress eth key) p"
    and "w_sent w' = w_sent w @ s # rest" and "\<not> sent_ok s"
    and "\<forall>(now2, net2, req2) \<in> set calls.
      requestedNetwork cfg req2 = requestedNetwork cfg req \<and> reports net2 (PubkeyToAddress eth key) p"
  shows "rest = [] \<and> \<not> succeeded r \<and> w_sent (laterTransfers eth cfg calls w') = w_sent w'"
  using assms(1)
proof (cases rule: executeTransfer_sent)
  case (sent st key' "from")
  let ?wallet = "AddressHex eth (PubkeyToAddress eth key)" and ?n = "requestedNetwork cfg req"
  have k: "key' = key" "from = PubkeyToAddress eth key" using sent(5,6) assms(3) by auto
  from sent(2) assms(2) have st: "workingRows (w_store (w\<lparr>w_store := st\<rparr>)) = Some rows" using workingRows_treasury by simp
  from sent(7) have "rest = [] \<and> \<not> succeeded r \<and> blocked ?wallet ?n p (w_store w')"
  proof (cases rule: sendVia_sendLoop)
    case 1
    with assms(5) show ?thesis by simp
  next
    case (2 hs f f' w1)
    with assms(5) have "w_sent w1 = w_sent (w\<lparr>w_store := st\<rparr>) @ s # rest" by simp
    with sendLoop_working [OF 2(1) [unfolded k] st assms(4) _ assms(6)] 2(3) show ?thesis by simp
  qed
  with laterTransfers_blocked [OF assms(3)] assms(7) show ?thesis by blast
qed (use assms(5) in simp_all)

definition refusing :: "string \<Rightarrow> attempt" where
  "refusing = payNet (\<lambda>_. Some (Err ''nonce too low''))"

definition dbStart :: runState where
  "dbStart = payStart\<lparr>w_store := PgStore (newPgStore [] id)\<rparr>"

definition refusedRun :: "outcome \<times> runState" where
  "refusedRun = executeTransfer demoGeth payConfig 1000 refusing (payRequest []) dbStart"

theorem failed_send_blocks_wallet_witness:
  "map (\<lambda>s. (nonceOf s, sent_ok s)) (w_sent (snd refusedRun)) = [(5, False)] \<and>
   w_sent (laterTransfers demoGeth payConfig [(10000000000, payNet (\<lambda>_. None), payRequest [])] (snd refusedRun)) = w_sent (snd refusedRun)"
proof -
  have n: "map (\<lambda>s. (nonceOf s, sent_ok s)) (w_sent (snd refusedRun)) = [(5, False)]" by code_simp
  then obtain s where s: "w_sent (snd refusedRun) = [s]" "\<not> sent_ok s" by auto
  have "HexToECDSA demoGeth (TrimPrefix (EVMPrivateKey payConfig) ''0x'') = Inr [0x11]" by code_simp
  moreover have "reports refusing a 5" "reports (payNet (\<lambda>_. None)) a 5" for a
    by (simp_all add: reports_def refusing_def payNet_def payClient_def)
  moreover have "executeTransfer demoGeth payConfig 1000 refusing (payRequest []) dbStart = (fst refusedRun, snd refusedRun)"
    by (simp add: refusedRun_def)
  moreover have "workingRows (w_store dbStart) = Some []" by (simp add: dbStart_def workingRows_def newPgStore_def)
  ultimately show ?thesis
    using failed_send_blocks_wallet [of demoGeth payConfig 1000 refusing "payRequest []" dbStart "fst refusedRun" "snd refusedRun" "[]"
        "[0x11]" 5 s "[]" "[(10000000000, payNet (\<lambda>_. None), payRequest [])]"] n s
    by (simp add: dbStart_def payStart_sent)
qed

end
