(* ===== verification/Execution_Liveness.thy ===== *)
theory Execution_Liveness
  imports Execution_Safety
begin

text \<open>
  That allowed payments are made. The contract of an attempt is an interface again (\<open>live_attempt\<close>): it never
  panics and succeeds on a node that answers every call. The retry over the endpoints is analysed once
  against it: the execution succeeds as soon as one of the selected endpoints works. The three executions
  interpret it on the store in memory, whose reservations do not fail.
\<close>

section \<open>The retry loop reaches a working endpoint\<close>

locale live_attempt =
  fixes run :: "instant \<Rightarrow> ethClient \<Rightarrow> runState \<Rightarrow> outcome \<times> runState"
    and good :: "ethClient \<Rightarrow> bool"
    and ready :: "runState \<Rightarrow> bool"
  assumes run_good: "ready w \<Longrightarrow> good c \<Longrightarrow> run t c w = (r, w') \<Longrightarrow> succeeded r"
    and run_ready: "ready w \<Longrightarrow> run t c w = (r, w') \<Longrightarrow> r \<noteq> None \<and> ready w'"
begin

lemma sendLoop_live:
  assumes "ready w" and "h \<in> set hs" and "at_client (net (h_url h)) = Inr c" and "good c"
    and "sendLoop net run err hs f w = (r, f', w')"
  shows "succeeded r"
  using assms
proof (induction hs arbitrary: err f w)
  case (Cons h' hs)
  show ?case
  proof (cases "at_client (net (h_url h'))")
    case (Inl e)
    with Cons.prems Cons.IH show ?thesis by (auto simp: Let_def)
  next
    case (Inr c')
    obtain x w1 where x: "run (at_end (net (h_url h'))) c' w = (x, w1)" by fastforce
    note rw = run_ready [OF Cons.prems(1) x]
    show ?thesis
    proof (cases "\<exists>e. x = Some (Inl e)")
      case True
      then obtain e where e: "x = Some (Inl e)" ..
      then have "\<not> good c'" using run_good [OF Cons.prems(1) _ x] by (auto simp: succeeded_def)
      with Cons.prems(2-4) Inr have "h \<in> set hs" by auto
      moreover from Cons.prems(5) Inr x e have "sendLoop net run (Some (Wrap (h_name h' @ '' falhou'') e)) hs
          (recordFailure (at_end (net (h_url h'))) (h_id h') (classifyRPCFailure (Some e)) f) w1 = (r, f', w')"
        by (simp add: Let_def)
      ultimately show ?thesis using Cons.IH rw Cons.prems(3,4) by blast
    next
      case False
      with rw obtain resp where "x = Some (Inr resp)" by (metis option.exhaust sum.exhaust)
      with Cons.prems(5) Inr x show ?thesis by (auto simp: Let_def succeeded_def)
    qed
  qed
qed simp

lemma sendVia_live:
  assumes "sendVia cfg now net run w = (r, w')" and "ready w" and "w_fleet w = Some f"
    and "sendCandidates now (int (length (RPCURLs cfg))) f = (Some hs, f1)"
    and "h \<in> set hs" and "at_client (net (h_url h)) = Inr c" and "good c"
  shows "succeeded r"
proof -
  obtain x f2 w2 where l: "sendLoop net run None hs f1 w = (x, f2, w2)" by (metis prod_cases3)
  with assms(1,3,4) have "r = x" by (auto simp: sendVia_def Let_def)
  with sendLoop_live [OF assms(2,5,6,7) l] show ?thesis by simp
qed

end

section \<open>The three executions\<close>

definition inMemory :: "signerStore \<Rightarrow> bool" where
  "inMemory st = (case st of MemStore s \<Rightarrow> True | PgStore s \<Rightarrow> False)"

lemma inMemory_onStore [simp]: "inMemory (snd (onStore f g st)) = inMemory st"
  by (cases st) (simp_all add: onStore_def inMemory_def split_beta)

lemma inMemory_ops [simp]:
  "inMemory (snd (RecordCustodyEvent ev st)) = inMemory st"
  "inMemory (snd (MarkChainNonceSubmitted w n x h st)) = inMemory st"
  "inMemory (snd (MarkChainNonceFailed w n x e st)) = inMemory st"
  "inMemory (snd (CreateSignerTransaction now item st)) = inMemory st"
  "inMemory (snd (ReserveChainNonce w n p st)) = inMemory st"
  "inMemory (snd (DailySubmittedOutflow now tok n st)) = inMemory st"
  by (simp_all add: RecordCustodyEvent_def MarkChainNonceSubmitted_def MarkChainNonceFailed_def
      CreateSignerTransaction_def ReserveChainNonce_def DailySubmittedOutflow_def)

lemma inMemory_kept: "DailySubmittedOutflow now tok n st = (x, st') \<Longrightarrow> inMemory st \<Longrightarrow> inMemory st'"
  using inMemory_ops(6) [of now tok n st] by simp

text \<open>A node that answers every call of an attempt, for a wallet that can sign.\<close>

definition goodNode :: "geth \<Rightarrow> privateKey \<Rightarrow> address \<Rightarrow> (int \<Rightarrow> bool) \<Rightarrow> ethClient \<Rightarrow> bool" where
  "goodNode eth key from rightChain c \<longleftrightarrow> (\<exists>chainID p g. c_ChainID c = Inr chainID \<and> rightChain chainID \<and>
     c_PendingNonceAt c from = Inr p \<and> c_SuggestGasPrice c = Inr g \<and>
     (\<forall>tx. \<exists>raw. SignTx eth tx chainID key = Inr raw \<and> c_SendTransaction c raw = None))"

lemma reserve_inMemory: "inMemory st \<Longrightarrow> \<exists>x st'. ReserveChainNonce w n p st = (Inr x, st')"
  by (cases st) (auto simp: inMemory_def ReserveChainNonce_def onStore_def mem_ReserveChainNonce_def Let_def)

lemma reserveForSend_inMemory: "reserveForSend eth cfg c from network extra st = (r, st') \<Longrightarrow> inMemory st' = inMemory st"
proof -
  have m: "ReserveChainNonce wl n q st = (x, st1) \<Longrightarrow> inMemory st1 = inMemory st" for wl n q x st1
    using inMemory_ops(5) [of wl n q st] by simp
  show "reserveForSend eth cfg c from network extra st = (r, st') \<Longrightarrow> inMemory st' = inMemory st"
    by (auto simp: reserveForSend_def Let_def split: sum.splits prod.splits dest!: m)
qed

lemma reserveForSend_live:
  assumes "inMemory st" and "c_PendingNonceAt c from = Inr p" and "c_SuggestGasPrice c = Inr g"
  shows "\<exists>x st'. reserveForSend eth cfg c from network extra st = (Inr (x, g), st')"
  using assms(2,3) reserve_inMemory [OF assms(1), of "AddressHex eth from" network p]
  by (auto simp: reserveForSend_def Let_def)

lemma signAndSend_total:
  "signAndSend eth cfg now c key from network chainID tx item extra w = (r, w') \<Longrightarrow>
    r \<noteq> None \<and> inMemory (w_store w') = inMemory (w_store w)"
  by (auto simp: signAndSend_def failWith_def Let_def split: sum.splits option.splits)

lemma signAndSend_live:
  "signAndSend eth cfg now c key from network chainID tx item extra w = (r, w') \<Longrightarrow>
    \<exists>raw. SignTx eth tx chainID key = Inr raw \<and> c_SendTransaction c raw = None \<Longrightarrow> succeeded r"
  by (auto simp: signAndSend_def succeeded_def Let_def)

lemma goodNodeE:
  assumes "goodNode eth key from rightChain c" and "inMemory st"
  obtains chainID nonce g st' where "c_ChainID c = Inr chainID" "rightChain chainID"
    "reserveForSend eth cfg c from network extra st = (Inr (nonce, g), st')"
    "\<forall>tx. \<exists>raw. SignTx eth tx chainID key = Inr raw \<and> c_SendTransaction c raw = None"
proof -
  from assms(1) obtain chainID p g where c: "c_ChainID c = Inr chainID" "rightChain chainID"
      "c_PendingNonceAt c from = Inr p" "c_SuggestGasPrice c = Inr g"
      "\<forall>tx. \<exists>raw. SignTx eth tx chainID key = Inr raw \<and> c_SendTransaction c raw = None"
    unfolding goodNode_def by blast
  from reserveForSend_live [OF assms(2) c(3,4)] obtain nonce st' where
    "reserveForSend eth cfg c from network extra st = (Inr (nonce, g), st')" by blast
  with c that show thesis by blast
qed

text \<open>A transfer whose amount parses and fits the call data.\<close>

definition transferable :: "geth \<Rightarrow> SignerConfig \<Rightarrow> TransferRequest \<Rightarrow> string \<Rightarrow> bool" where
  "transferable eth cfg req network \<longleftrightarrow> (let
     tokenContract = normalizedTokenContract cfg req network;
     token = HexToAddress eth tokenContract
     in if TrimSpace tokenContract \<noteq> [] \<and> token \<noteq> zeroAddress
        then \<exists>amount. parseUnits (tr_Amount req) (TokenDecimals cfg) = Inr amount \<and>
          erc20TransferData (HexToAddress eth (tr_To req)) amount \<noteq> None
        else \<exists>amount. parseUnits (tr_Amount req) 18 = Inr amount)"

lemma transferTx_live:
  "transferable eth cfg req network \<Longrightarrow> \<exists>tx. transferTx eth cfg req network c from nonce gasPrice = Some (Inr tx)"
  by (auto simp: transferable_def transferTx_def Let_def split: if_splits)

interpretation transfer_live: live_attempt
  "executeEVMTransferWithClient eth cfg req network key from"
  "goodNode eth key from (\<lambda>chainID. network = ''BSC'' \<longrightarrow> chainID = 56)"
  "\<lambda>w. inMemory (w_store w) \<and> transferable eth cfg req network"
  for eth cfg req network key "from"
proof (unfold_locales, goal_cases)
  case (1 w c t r w')
  then obtain chainID nonce g st where c: "c_ChainID c = Inr chainID" "network = ''BSC'' \<longrightarrow> chainID = 56"
      "reserveForSend eth cfg c from network [] (w_store w) = (Inr (nonce, g), st)"
      "\<forall>tx. \<exists>raw. SignTx eth tx chainID key = Inr raw \<and> c_SendTransaction c raw = None"
    by (elim goodNodeE [where cfg = cfg and network = network and extra = "[]"] conjE) blast
  from 1 obtain tx where tx: "transferTx eth cfg req network c from nonce g = Some (Inr tx)" using transferTx_live by blast
  from 1(3) c(1-3) tx show ?case
    by (intro signAndSend_live [OF _ c(4) [rule_format]]) (auto simp: executeEVMTransferWithClient_def chainCheck_def)
next
  case (2 w t c r w')
  have tx: "transferTx eth cfg req network c from nonce g \<noteq> None" for nonce g
    using transferTx_live [of eth cfg req network c "from" nonce g] 2(1) by auto
  from 2 show ?case
    by (auto simp: tx executeEVMTransferWithClient_def failWith_def split: sum.splits option.splits prod.splits
        dest!: reserveForSend_inMemory signAndSend_total)
qed

interpretation settlement_live: live_attempt
  "executeEVMSettlementWithClient eth cfg req network key from amount"
  "goodNode eth key from (\<lambda>chainID. chainID = uint (se_ChainID req))"
  "\<lambda>w. inMemory (w_store w) \<and> (\<exists>data. vaultPayoutData eth (HexToHash eth (se_OperationID req))
     (HexToAddress eth (se_Token req)) (HexToAddress eth (se_Recipient req)) amount = Inr data)"
  for eth cfg req network key "from" amount
proof (unfold_locales, goal_cases)
  case (1 w c t r w')
  then obtain chainID nonce g st where c: "c_ChainID c = Inr chainID" "chainID = uint (se_ChainID req)"
      "reserveForSend eth cfg c from network
        [(''type'', EvText ''settlement''), (''operationId'', EvText (se_OperationID req))] (w_store w) = (Inr (nonce, g), st)"
      "\<forall>tx. \<exists>raw. SignTx eth tx chainID key = Inr raw \<and> c_SendTransaction c raw = None"
    by (elim goodNodeE [where cfg = cfg and network = network and extra = "[(''type'', EvText ''settlement''), (''operationId'', EvText (se_OperationID req))]"] conjE) blast
  from 1(1) obtain data where "vaultPayoutData eth (HexToHash eth (se_OperationID req))
     (HexToAddress eth (se_Token req)) (HexToAddress eth (se_Recipient req)) amount = Inr data" by blast
  with 1(3) c(1-3) show ?case
    by (intro signAndSend_live [OF _ c(4) [rule_format]]) (auto simp: executeEVMSettlementWithClient_def Let_def)
next
  case (2 w t c r w')
  then show ?case
    by (auto simp: executeEVMSettlementWithClient_def failWith_def Let_def split: sum.splits if_splits prod.splits
        dest!: reserveForSend_inMemory signAndSend_total)
qed

interpretation contract_call_live: live_attempt
  "executeEVMContractCallWithClient eth cfg req network key from"
  "goodNode eth key from (\<lambda>chainID. network = ''BSC'' \<longrightarrow> chainID = 56)"
  "\<lambda>w. inMemory (w_store w) \<and> (\<exists>data. decodeHexData (cc_Data req) = Inr data)"
  for eth cfg req network key "from"
proof (unfold_locales, goal_cases)
  case (1 w c t r w')
  then obtain chainID nonce g st where c: "c_ChainID c = Inr chainID" "network = ''BSC'' \<longrightarrow> chainID = 56"
      "reserveForSend eth cfg c from network [(''type'', EvText ''contract_call'')] (w_store w) = (Inr (nonce, g), st)"
      "\<forall>tx. \<exists>raw. SignTx eth tx chainID key = Inr raw \<and> c_SendTransaction c raw = None"
    by (elim goodNodeE [where cfg = cfg and network = network and extra = "[(''type'', EvText ''contract_call'')]"] conjE) blast
  from 1(1) obtain data where "decodeHexData (cc_Data req) = Inr data" by blast
  with 1(3) c(1-3) show ?case
    by (intro signAndSend_live [OF _ c(4) [rule_format]])
      (auto simp: executeEVMContractCallWithClient_def chainCheck_def Let_def simp del: firstNonEmptySigner.simps)
next
  case (2 w t c r w')
  then show ?case
    by (auto simp: executeEVMContractCallWithClient_def failWith_def Let_def split: sum.splits option.splits prod.splits
        dest!: reserveForSend_inMemory signAndSend_total)
qed

section \<open>Properties\<close>

text \<open>
  C16: An allowed transfer is paid: on the store in memory, when policy and treasury accept it and its amount
  fits, then one working node among the endpoints selected is enough, whatever the others do. The transfer
  succeeds and a node has accepted the transaction that was asked for.
\<close>

theorem transfer_paid:
  assumes "validateTransferPolicy eth cfg req network = None" and "network = requestedNetwork cfg req"
    and "validateTreasuryPolicy cfg now req network (w_store w) = (None, st)" and "inMemory (w_store w)"
    and "tr_DerivationIndex req = None" and "network \<in> {''BSC'', ''EVM''}" and "transferable eth cfg req network"
    and "HexToECDSA eth (TrimPrefix (EVMPrivateKey cfg) ''0x'') = Inr key" and "\<not> AllowSimulation cfg"
    and "w_fleet w = Some f" and "sendCandidates now (int (length (RPCURLs cfg))) f = (Some hs, f1)"
    and "h \<in> set hs" and "at_client (net (h_url h)) = Inr c"
    and "goodNode eth key (PubkeyToAddress eth key) (\<lambda>chainID. network = ''BSC'' \<longrightarrow> chainID = 56) c"
  shows "\<exists>resp w' s. executeTransfer eth cfg now net req w = (Some (Inr resp), w') \<and>
    s \<in> set (w_sent w') \<and> sent_ok s \<and> transferSpec eth cfg req s"
proof -
  let ?run = "executeEVMTransferWithClient eth cfg req network key (PubkeyToAddress eth key)"
  obtain r w' where v: "sendVia cfg now net ?run (w\<lparr>w_store := st\<rparr>) = (r, w')" by fastforce
  have e: "executeTransfer eth cfg now net req w = (r, w')"
    using assms(1-3,5,6,8,9) v by (auto simp: executeTransfer_def executeEVMTransfer_def withKey_def Let_def)
  have "inMemory st" using assms(3,4)
    by (auto simp: validateTreasuryPolicy_def treasuryCheck_def Let_def split: sum.splits prod.splits if_splits
        dest: inMemory_kept)
  then have "succeeded r" using transfer_live.sendVia_live [OF v _ _ assms(11-14)] assms(7,10) by simp
  moreover from transfer.sendVia_sent [OF v [unfolded assms(2)]] \<open>succeeded r\<close> obtain new where
    "w_sent w' = w_sent w @ new" "\<forall>s \<in> set new. transferSpec eth cfg req s" "length (filter sent_ok new) = 1" by auto
  then obtain s where "s \<in> set new" "sent_ok s" by (metis filter_empty_conv length_0_conv zero_neq_one)
  ultimately show ?thesis using e \<open>w_sent w' = w_sent w @ new\<close> \<open>\<forall>s \<in> set new. transferSpec eth cfg req s\<close>
    by (auto simp: succeeded_def)
qed

lemma selected_handle:
  assumes "case fst (sendCandidates now n f) of Some hs \<Rightarrow> list_ex (\<lambda>h. h_url h = url) hs | None \<Rightarrow> False"
  obtains hs f1 h where "sendCandidates now n f = (Some hs, f1)" "h \<in> set hs" "h_url h = url"
proof -
  obtain x f1 where s: "sendCandidates now n f = (x, f1)" by fastforce
  with assms obtain hs where "x = Some hs" "list_ex (\<lambda>h. h_url h = url) hs" by (cases x) auto
  with s that show thesis by (auto simp: list_ex_iff)
qed

lemma second_selected: "case fst (sendCandidates 1000 (int (length (RPCURLs payConfig))) (newRPCFleet 0 (RPCURLs payConfig))) of
    Some hs \<Rightarrow> list_ex (\<lambda>h. h_url h = ''https://b'') hs | None \<Rightarrow> False"
  by code_simp

lemma demo_transferable: "transferable demoGeth payConfig (payRequest []) ''BSC''"
proof -
  have "case parseUnits (tr_Amount (payRequest [])) (TokenDecimals payConfig) of Inl e \<Rightarrow> False
      | Inr amount \<Rightarrow> erc20TransferData (HexToAddress demoGeth (tr_To (payRequest []))) amount \<noteq> None" by code_simp
  moreover have "TrimSpace (normalizedTokenContract payConfig (payRequest []) ''BSC'') \<noteq> []"
    "HexToAddress demoGeth (normalizedTokenContract payConfig (payRequest []) ''BSC'') \<noteq> zeroAddress" by code_simp+
  ultimately show ?thesis
    by (auto simp: transferable_def Let_def split: sum.splits)
qed

lemma demo_goodNode:
  "goodNode demoGeth [0x11] (PubkeyToAddress demoGeth [0x11]) (\<lambda>chainID. ''BSC'' = ''BSC'' \<longrightarrow> chainID = 56) (payClient None)"
  by (simp add: goodNode_def payClient_def demoGeth_def)

theorem transfer_paid_witness:
  "\<exists>resp w' s. executeTransfer demoGeth payConfig 1000 (payNet firstTimesOut) (payRequest []) payStart = (Some (Inr resp), w') \<and>
     s \<in> set (w_sent w') \<and> sent_ok s \<and> transferSpec demoGeth payConfig (payRequest []) s"
proof -
  obtain hs f1 h where h: "sendCandidates 1000 (int (length (RPCURLs payConfig))) (newRPCFleet 0 (RPCURLs payConfig)) = (Some hs, f1)"
      "h \<in> set hs" "h_url h = ''https://b''" using second_selected by (rule selected_handle)
  have p: "validateTransferPolicy demoGeth payConfig (payRequest []) ''BSC'' = None"
      "''BSC'' = requestedNetwork payConfig (payRequest [])" "\<not> AllowSimulation payConfig"
      "HexToECDSA demoGeth (TrimPrefix (EVMPrivateKey payConfig) ''0x'') = Inr [0x11]" by code_simp+
  have "fst (validateTreasuryPolicy payConfig 1000 (payRequest []) ''BSC'' (w_store payStart)) = None" by code_simp
  then obtain st where st: "validateTreasuryPolicy payConfig 1000 (payRequest []) ''BSC'' (w_store payStart) = (None, st)"
    by (metis prod.collapse)
  have c: "at_client (payNet firstTimesOut (h_url h)) = Inr (payClient None)"
    by (simp add: h(3) payNet_def firstTimesOut_def)
  show ?thesis
    by (rule transfer_paid [where net = "payNet firstTimesOut" and h = h, OF p(1,2) st _ _ _ demo_transferable p(4,3) _ h(1,2) c demo_goodNode])
      (simp_all add: payStart_def demoStore_def inMemory_def payRequest_def)
qed

text \<open>A node that takes the transaction and answers with an error, as one whose answer comes too late.\<close>

definition erringNode :: "geth \<Rightarrow> privateKey \<Rightarrow> address \<Rightarrow> (int \<Rightarrow> bool) \<Rightarrow> ethClient \<Rightarrow> bool" where
  "erringNode eth key from rightChain c \<longleftrightarrow> (\<exists>chainID p g. c_ChainID c = Inr chainID \<and> rightChain chainID \<and>
     c_PendingNonceAt c from = Inr p \<and> c_SuggestGasPrice c = Inr g \<and>
     (\<forall>tx. \<exists>raw e. SignTx eth tx chainID key = Inr raw \<and> c_SendTransaction c raw = Some e))"

lemma signAndSend_erring:
  "signAndSend eth cfg now c key from network chainID tx item extra w = (r, w') \<Longrightarrow>
    \<exists>raw e. SignTx eth tx chainID key = Inr raw \<and> c_SendTransaction c raw = Some e \<Longrightarrow>
    \<exists>e s. r = Some (Inl e) \<and> w_sent w' = w_sent w @ [s] \<and> \<not> sent_ok s"
  by (auto simp: signAndSend_def failWith_def Let_def)

lemma transfer_erring:
  assumes "executeEVMTransferWithClient eth cfg req network key from t c w = (r, w')" and "inMemory (w_store w)"
    and "transferable eth cfg req network" and "erringNode eth key from (\<lambda>chainID. network = ''BSC'' \<longrightarrow> chainID = 56) c"
  shows "\<exists>e s. r = Some (Inl e) \<and> w_sent w' = w_sent w @ [s] \<and> \<not> sent_ok s"
proof -
  from assms(4) obtain chainID p g where c: "c_ChainID c = Inr chainID" "network = ''BSC'' \<longrightarrow> chainID = 56"
      "c_PendingNonceAt c from = Inr p" "c_SuggestGasPrice c = Inr g"
      "\<forall>tx. \<exists>raw e. SignTx eth tx chainID key = Inr raw \<and> c_SendTransaction c raw = Some e"
    unfolding erringNode_def by blast
  from reserveForSend_live [OF assms(2) c(3,4)] obtain nonce st where
    r: "reserveForSend eth cfg c from network [] (w_store w) = (Inr (nonce, g), st)" by blast
  obtain tx where tx: "transferTx eth cfg req network c from nonce g = Some (Inr tx)" using transferTx_live [OF assms(3)] by blast
  obtain item where "signAndSend eth cfg t c key from network chainID tx item [] (w\<lparr>w_store := st\<rparr>) = (r, w')"
    using assms(1) c(1,2) r tx by (auto simp: executeEVMTransferWithClient_def chainCheck_def)
  from signAndSend_erring [OF this c(5) [rule_format]] show ?thesis by simp
qed

lemma transferSpec_same:
  "transferSpec eth cfg req s \<Longrightarrow> transferSpec eth cfg req s' \<Longrightarrow> tx_to (sent_tx s) = tx_to (sent_tx s') \<and>
    tx_value (sent_tx s) = tx_value (sent_tx s') \<and> tx_data (sent_tx s) = tx_data (sent_tx s')"
  by (auto simp: transferSpec_def transferTxSpec_def Let_def split: if_splits)

text \<open>
  C39: On the store in memory an error of \<open>SendTransaction\<close> makes the loop send the same payment again, although a timeout does
  not tell whether the node took the transaction. When policy and treasury accept a transfer, the first selected
  node answers the send with an error and the second one works, the nodes are handed two transactions with the same
  recipient, value and data and with different nonces, and nothing keeps both from being mined.
\<close>

theorem send_error_pays_twice:
  assumes "validateTransferPolicy eth cfg req network = None" and "network = requestedNetwork cfg req"
    and "validateTreasuryPolicy cfg now req network (w_store w) = (None, st)" and "inMemory (w_store w)"
    and "tr_DerivationIndex req = None" and "network \<in> {''BSC'', ''EVM''}" and "transferable eth cfg req network"
    and "HexToECDSA eth (TrimPrefix (EVMPrivateKey cfg) ''0x'') = Inr key" and "\<not> AllowSimulation cfg"
    and "w_fleet w = Some f" and "sendCandidates now (int (length (RPCURLs cfg))) f = (Some (h1 # h2 # rest), f1)"
    and "at_client (net (h_url h1)) = Inr c1"
    and "erringNode eth key (PubkeyToAddress eth key) (\<lambda>chainID. network = ''BSC'' \<longrightarrow> chainID = 56) c1"
    and "at_client (net (h_url h2)) = Inr c2"
    and "goodNode eth key (PubkeyToAddress eth key) (\<lambda>chainID. network = ''BSC'' \<longrightarrow> chainID = 56) c2"
    and "noncesBelow (2 ^ 63) (w_store w)"
    and "\<And>url c a p. at_client (net url) = Inr c \<Longrightarrow> c_PendingNonceAt c a = Inr p \<Longrightarrow> uint p < 2 ^ 63"
  shows "\<exists>resp w' s1 s2. executeTransfer eth cfg now net req w = (Some (Inr resp), w') \<and>
    w_sent w' = w_sent w @ [s1, s2] \<and> \<not> sent_ok s1 \<and> sent_ok s2 \<and> nonceOf s1 \<noteq> nonceOf s2 \<and>
    tx_to (sent_tx s1) = tx_to (sent_tx s2) \<and> tx_value (sent_tx s1) = tx_value (sent_tx s2) \<and>
    tx_data (sent_tx s1) = tx_data (sent_tx s2)"
proof -
  let ?run = "executeEVMTransferWithClient eth cfg req network key (PubkeyToAddress eth key)"
  let ?w = "w\<lparr>w_store := st\<rparr>"
  obtain r w' where v: "sendVia cfg now net ?run ?w = (r, w')" by fastforce
  have e: "executeTransfer eth cfg now net req w = (r, w')"
    using assms(1-3,5,6,8,9) v by (auto simp: executeTransfer_def executeEVMTransfer_def withKey_def Let_def)
  have mem: "inMemory st" using assms(3,4)
    by (auto simp: validateTreasuryPolicy_def treasuryCheck_def Let_def split: sum.splits prod.splits if_splits
        dest: inMemory_kept)
  obtain x w1 where run1: "?run (at_end (net (h_url h1))) c1 ?w = (x, w1)" by fastforce
  from transfer_erring [OF this _ assms(7,13)] mem obtain err s1 where
    s1: "x = Some (Inl err)" "w_sent w1 = w_sent w @ [s1]" "\<not> sent_ok s1" by auto
  obtain y f2 w2 where l: "sendLoop net ?run None (h1 # h2 # rest) f1 ?w = (y, f2, w2)" by (metis prod_cases3)
  have ry: "r = y" "w_sent w' = w_sent w2" using v l assms(10,11) by (auto simp: sendVia_def Let_def)
  obtain z w3 where run2: "?run (at_end (net (h_url h2))) c2 w1 = (z, w3)" by fastforce
  have "inMemory (w_store w1)" using transfer_live.run_ready [OF _ run1] mem assms(7) by auto
  then have ok: "succeeded z" using transfer_live.run_good [OF _ assms(15) run2] assms(7) by simp
  have "y = z \<and> w2 = w3" using l run1 s1(1) run2 assms(12,14) ok by (auto simp: Let_def succeeded_def)
  with ry ok transfer.attempt [OF run2 [unfolded assms(2)]] obtain s2 where
    s2: "w_sent w' = w_sent w1 @ [s2]" "sent_ok s2" "succeeded r" by auto
  have sent: "w_sent w' = w_sent w @ [s1, s2]" using s1(2) s2(1) by simp
  from transfer.sendVia_sent [OF v [unfolded assms(2)]] sent have
    "transferSpec eth cfg req s1" "transferSpec eth cfg req s2" by auto
  note same = transferSpec_same [OF this]
  have "distinct (map nonceOf [s1, s2])"
    using transfer_sent_fresh [OF e assms(16,17,8)] sent by auto
  with e s1(3) s2(2,3) sent same show ?thesis by (auto simp: succeeded_def)
qed

definition twoTried :: "outcome \<times> runState" where
  "twoTried = executeTransfer demoGeth payConfig 1000 (payNet firstTimesOut) (payRequest []) payStart"

lemma twoTried_selected: "case fst (sendCandidates 1000 (int (length (RPCURLs payConfig))) (newRPCFleet 0 (RPCURLs payConfig))) of
    Some (h1 # h2 # rest) \<Rightarrow> h_url h1 = ''https://a'' \<and> h_url h2 = ''https://b'' | _ \<Rightarrow> False"
  by code_simp

theorem send_error_pays_twice_witness:
  "\<exists>s1 s2. w_sent (snd twoTried) = [s1, s2] \<and> \<not> sent_ok s1 \<and> sent_ok s2 \<and> nonceOf s1 \<noteq> nonceOf s2 \<and>
     tx_data (sent_tx s1) = tx_data (sent_tx s2)"
proof -
  obtain h1 h2 rest f1 where h: "sendCandidates 1000 (int (length (RPCURLs payConfig))) (newRPCFleet 0 (RPCURLs payConfig))
      = (Some (h1 # h2 # rest), f1)" "h_url h1 = ''https://a''" "h_url h2 = ''https://b''"
    using twoTried_selected by (auto split: option.splits list.splits simp: prod_eq_iff)
  have p: "validateTransferPolicy demoGeth payConfig (payRequest []) ''BSC'' = None"
      "''BSC'' = requestedNetwork payConfig (payRequest [])" "\<not> AllowSimulation payConfig"
      "HexToECDSA demoGeth (TrimPrefix (EVMPrivateKey payConfig) ''0x'') = Inr [0x11]" by code_simp+
  have "fst (validateTreasuryPolicy payConfig 1000 (payRequest []) ''BSC'' (w_store payStart)) = None" by code_simp
  then obtain st where st: "validateTreasuryPolicy payConfig 1000 (payRequest []) ''BSC'' (w_store payStart) = (None, st)"
    by (metis prod.collapse)
  have c: "at_client (payNet firstTimesOut (h_url h1)) = Inr (payClient (Some (Err ''context deadline exceeded'')))"
      "at_client (payNet firstTimesOut (h_url h2)) = Inr (payClient None)"
    by (simp_all add: h(2,3) payNet_def firstTimesOut_def)
  have g: "erringNode demoGeth [0x11] (PubkeyToAddress demoGeth [0x11]) (\<lambda>chainID. ''BSC'' = ''BSC'' \<longrightarrow> chainID = 56)
      (payClient (Some (Err ''context deadline exceeded'')))"
    by (simp add: erringNode_def payClient_def demoGeth_def)
  have low: "uint p < 2 ^ 63" if "at_client (payNet firstTimesOut url) = Inr c" "c_PendingNonceAt c a = Inr p" for url c a p
  proof -
    from that have "p = 5" by (auto simp: payNet_def payClient_def)
    then show ?thesis by simp
  qed
  have "\<exists>resp w' s1 s2. executeTransfer demoGeth payConfig 1000 (payNet firstTimesOut) (payRequest []) payStart = (Some (Inr resp), w') \<and>
    w_sent w' = w_sent payStart @ [s1, s2] \<and> \<not> sent_ok s1 \<and> sent_ok s2 \<and> nonceOf s1 \<noteq> nonceOf s2 \<and>
    tx_to (sent_tx s1) = tx_to (sent_tx s2) \<and> tx_value (sent_tx s1) = tx_value (sent_tx s2) \<and>
    tx_data (sent_tx s1) = tx_data (sent_tx s2)"
    by (rule send_error_pays_twice [OF p(1,2) st _ _ _ demo_transferable p(4,3) _ h(1) c(1) g c(2) demo_goodNode _ low])
      (simp_all add: payStart_def demoStore_def inMemory_def payRequest_def noncesBelow_def chainView_def newMemorySignerStore_def)
  then show ?thesis by (auto simp: twoTried_def payStart_sent)
qed

text \<open>Settlements and contract calls are paid under the same conditions.\<close>

theorem settlement_paid:
  assumes "validateSettlementExecuteRequest eth cfg now req = Inr (network, amount)" and "inMemory (w_store w)"
    and "network \<in> {''BSC'', ''EVM''}"
    and "vaultPayoutData eth (HexToHash eth (se_OperationID req)) (HexToAddress eth (se_Token req))
      (HexToAddress eth (se_Recipient req)) amount = Inr data"
    and "HexToECDSA eth (TrimPrefix (EVMPrivateKey cfg) ''0x'') = Inr key" and "\<not> AllowSimulation cfg"
    and "w_fleet w = Some f" and "sendCandidates now (int (length (RPCURLs cfg))) f = (Some hs, f1)"
    and "h \<in> set hs" and "at_client (net (h_url h)) = Inr c"
    and "goodNode eth key (PubkeyToAddress eth key) (\<lambda>chainID. chainID = uint (se_ChainID req)) c"
  shows "succeeded (fst (executeSettlement eth cfg now net req w))"
proof -
  let ?run = "executeEVMSettlementWithClient eth cfg req network key (PubkeyToAddress eth key) amount"
  obtain r w' where v: "sendVia cfg now net ?run w = (r, w')" by fastforce
  have "executeSettlement eth cfg now net req w = (r, w')"
    using assms(1,3,5,6) v by (auto simp: executeSettlement_def executeEVMSettlement_def withKey_def)
  with settlement_live.sendVia_live [OF v _ assms(7-11)] assms(2,4) show ?thesis by simp
qed

theorem contract_call_paid:
  assumes "validateContractCallPolicy eth cfg req network = None" and "network = requestedContractNetwork cfg req"
    and "validateContractCallTreasuryPolicy cfg now req network (w_store w) = (None, st)" and "inMemory (w_store w)"
    and "cc_DerivationIndex req = None" and "network \<in> {''BSC'', ''EVM''}" and "decodeHexData (cc_Data req) = Inr data"
    and "HexToECDSA eth (TrimPrefix (EVMPrivateKey cfg) ''0x'') = Inr key" and "\<not> AllowSimulation cfg"
    and "w_fleet w = Some f" and "sendCandidates now (int (length (RPCURLs cfg))) f = (Some hs, f1)"
    and "h \<in> set hs" and "at_client (net (h_url h)) = Inr c"
    and "goodNode eth key (PubkeyToAddress eth key) (\<lambda>chainID. network = ''BSC'' \<longrightarrow> chainID = 56) c"
  shows "succeeded (fst (executeContractCall eth cfg now net req w))"
proof -
  let ?run = "executeEVMContractCallWithClient eth cfg req network key (PubkeyToAddress eth key)"
  obtain r w' where v: "sendVia cfg now net ?run (w\<lparr>w_store := st\<rparr>) = (r, w')" by fastforce
  have e: "executeContractCall eth cfg now net req w = (r, w')"
    using assms(1-3,5,6,8,9) v by (auto simp: executeContractCall_def executeEVMContractCall_def withKey_def Let_def)
  have "inMemory st" using assms(3,4)
    by (auto simp: validateContractCallTreasuryPolicy_def treasuryCheck_def Let_def split: sum.splits prod.splits if_splits
        dest: inMemory_kept)
  then have "succeeded r" using contract_call_live.sendVia_live [OF v _ _ assms(11-14)] assms(7,10) by simp
  with e show ?thesis by simp
qed

end
