(* ===== verification/Answers.thy ===== *)
theory Answers
  imports Handlers
begin

text \<open>
  The HTTP answers: \<open>writeSignerJSON\<close> and \<open>writeJSONStatus\<close> of \<open>src/main.go\<close> (lines 1285-1293), \<open>respondWithError\<close> of
  \<open>src/internal/security/middleware.go\<close> (lines 110-119) and, of the standard library, \<open>http.Error\<close>. The keys of a Go map
  are listed in the order in which the encoder writes them, sorted. The text of the body of \<open>/readyz\<close>, which
  holds floating-point numbers, is left out.
\<close>

section \<open>Answers\<close>

record httpAnswer =
  ans_status :: int
  ans_type :: string
  ans_body :: string

definition newline :: string where "newline = [CHR 0x0A]"

definition writeJSONStatus :: "int \<Rightarrow> jsonValue \<Rightarrow> httpAnswer" where
  "writeJSONStatus status payload = \<lparr>ans_status = status, ans_type = ''application/json'', ans_body = jsonEncode payload @ newline\<rparr>"

definition writeSignerJSON :: "jsonValue \<Rightarrow> httpAnswer" where
  "writeSignerJSON payload = writeJSONStatus 200 payload"

definition httpErrorAnswer :: "string \<Rightarrow> int \<Rightarrow> httpAnswer" where
  "httpErrorAnswer text code = \<lparr>ans_status = code, ans_type = ''text/plain; charset=utf-8'', ans_body = text @ newline\<rparr>"

definition respondWithError :: "instant \<Rightarrow> string \<Rightarrow> int \<Rightarrow> httpAnswer" where
  "respondWithError now text status = \<lparr>ans_status = status, ans_type = ''application/json'',
     ans_body = jsonEncode (JObject [(''code'', JNumber (FormatInt status)), (''error'', JString text),
       (''status'', JString ''error''), (''timestamp'', JNumber (FormatInt (time_Unix now)))]) @ newline\<rparr>"

text \<open>
  The answer to a request: \<open>HttpError\<close> is a call of \<open>http.Error\<close>, in the handlers and in the middleware (a method not
  allowed), \<open>Rejected\<close> a call of \<open>respondWithError\<close>. A panic has no answer.
\<close>

definition answer :: "instant \<Rightarrow> reply \<Rightarrow> httpAnswer option" where
  "answer now rep = (case rep of
     HttpError code text \<Rightarrow> Some (httpErrorAnswer text code)
   | Rejected code text \<Rightarrow> Some (respondWithError now text code)
   | Paid resp \<Rightarrow> Some (writeSignerJSON (responseJSON resp))
   | Unlocked ident \<Rightarrow> Some (writeSignerJSON (JObject [(''lockdown'', JBool False), (''ok'', JBool True), (''requestId'', JString ident)]))
   | Healthy \<Rightarrow> Some (writeSignerJSON (JObject [(''ok'', JBool True), (''service'', JString ''signer'')]))
   | ReadyReply _ _ \<Rightarrow> None
   | Aborted \<Rightarrow> None)"

section \<open>Reading an answer back\<close>

text \<open>The answer of the middleware as a client decodes it.\<close>

record errorAnswer =
  err_Code :: "64 word"
  err_Error :: string
  err_Status :: string

definition errorFields :: "errorAnswer jsonField list" where
  "errorFields = [(''code'', uint64Field err_Code_update), (''error'', stringField err_Error_update),
     (''status'', stringField err_Status_update)]"

definition decodeError :: "byte list \<Rightarrow> errorAnswer result" where
  "decodeError body = decoded (Unmarshal errorFields body \<lparr>err_Code = 0, err_Error = [], err_Status = []\<rparr>)"

lemma newline_rest: "newline = [] \<or> newline = [CHR 0x0A]"
  by (simp add: newline_def)

lemma response_read_back:
  assumes "jsonOk (responseJSON resp)"
  shows "decodeResponse (stringBytes (jsonEncode (responseJSON resp) @ newline)) = Inr resp"
proof -
  obtain ms where js: "responseJSON resp = JObject ms" by (simp add: responseJSON_def)
  show ?thesis
    unfolding decodeResponse_def
    by (rule decoded_jsonEncode [OF assms flat_nesting(4) js newline_rest response_stores [OF js]])
qed

lemma names_utf8: "validUtf8 ''code''" "validUtf8 ''error''" "validUtf8 ''status''" "validUtf8 ''timestamp''"
  by code_simp+

text \<open>A key that no field has is skipped.\<close>

lemma error_fieldFor:
  "fieldFor errorFields ''code'' = Some (''code'', uint64Field err_Code_update)"
  "fieldFor errorFields ''error'' = Some (''error'', stringField err_Error_update)"
  "fieldFor errorFields ''status'' = Some (''status'', stringField err_Status_update)"
  "fieldFor errorFields ''timestamp'' = None"
  by (simp_all add: fieldFor_def errorFields_def upperChar_def)

lemma rejection_read_back:
  assumes "validUtf8 text" and "0 \<le> code" and "code < 2 ^ 64"
  shows "decodeError (stringBytes (ans_body (respondWithError now text code)))
    = Inr \<lparr>err_Code = word_of_int code, err_Error = text, err_Status = ''error''\<rparr>"
proof -
  define ms where "ms = [(''code'', JNumber (FormatInt code)), (''error'', JString text),
       (''status'', JString ''error''), (''timestamp'', JNumber (FormatInt (time_Unix now)))]"
  have ok: "jsonOk (JObject ms)" using assms(1) by (simp add: ms_def names_utf8 del: validUtf8.simps)
  have nest: "nesting (JObject ms) = 1" by (simp add: ms_def)
  have "uint (word_of_int code :: 64 word) = code" using assms(2,3) by (simp add: uint_word_of_int_eq take_bit_int_eq_self)
  then have code: "uint64Field err_Code_update (JNumber (FormatInt code)) r = Some (err_Code_update (\<lambda>_. word_of_int code) r)"
    for r :: errorAnswer
    using uint64Field_stores [of err_Code_update "word_of_int code :: 64 word" r] by simp
  have "fold (storeMember errorFields) ms (\<lparr>err_Code = 0, err_Error = [], err_Status = []\<rparr>, True)
      = (\<lparr>err_Code = word_of_int code, err_Error = text, err_Status = ''error''\<rparr>, True)"
    by (simp add: ms_def error_fieldFor code) (simp add: storeMember_def error_fieldFor)
  from decoded_jsonEncode [OF ok nest refl newline_rest this] show ?thesis
    by (simp add: decodeError_def respondWithError_def ms_def del: jsonEncode.simps)
qed

text \<open>
  C22: What the server writes can be read by its clients, whatever characters it holds, so long as these are UTF-8: every
  escape of the encoder reads back. The answer to a payment is JSON with status 200 that decodes to exactly the
  response of the execution; a request that the middleware turns away with \<open>respondWithError\<close>, under any status, is
  answered with JSON that decodes to that status and whose \<open>error\<close> is the reason; every other refusal (\<open>http.Error\<close>)
  carries its status and its text, followed by a newline, as plain text.
\<close>

theorem answers_read_back:
  assumes "jsonOk (responseJSON resp)" "validUtf8 text" "0 \<le> code" "code < 2 ^ 64"
  shows "(\<exists>ans. answer now (Paid resp) = Some ans \<and> ans_status ans = 200 \<and> ans_type ans = ''application/json'' \<and>
      decodeResponse (stringBytes (ans_body ans)) = Inr resp) \<and>
    (\<exists>ans e. answer now (Rejected code text) = Some ans \<and> ans_status ans = code \<and> ans_type ans = ''application/json'' \<and>
      decodeError (stringBytes (ans_body ans)) = Inr e \<and> err_Error e = text \<and> uint (err_Code e) = code) \<and>
    (\<exists>ans. answer now (HttpError code text) = Some ans \<and> ans_status ans = code \<and>
      ans_type ans = ''text/plain; charset=utf-8'' \<and> ans_body ans = text @ newline)"
proof (intro conjI)
  show "\<exists>ans. answer now (Paid resp) = Some ans \<and> ans_status ans = 200 \<and> ans_type ans = ''application/json'' \<and>
      decodeResponse (stringBytes (ans_body ans)) = Inr resp"
    using response_read_back [OF assms(1)] by (simp add: answer_def writeSignerJSON_def writeJSONStatus_def)
  have "uint (word_of_int code :: 64 word) = code" using assms(3,4) by (simp add: uint_word_of_int_eq take_bit_int_eq_self)
  then show "\<exists>ans e. answer now (Rejected code text) = Some ans \<and> ans_status ans = code \<and> ans_type ans = ''application/json'' \<and>
      decodeError (stringBytes (ans_body ans)) = Inr e \<and> err_Error e = text \<and> uint (err_Code e) = code"
    using rejection_read_back [OF assms(2-4), of now] by (simp add: answer_def) (simp add: respondWithError_def)
  show "\<exists>ans. answer now (HttpError code text) = Some ans \<and> ans_status ans = code \<and>
      ans_type ans = ''text/plain; charset=utf-8'' \<and> ans_body ans = text @ newline"
    by (simp add: answer_def httpErrorAnswer_def)
qed

text \<open>Quotation marks, markup, the line separator and a letter with an accent are all escaped or kept.\<close>

definition oddResponse :: TransferResponse where
  "oddResponse = \<lparr>resp_TxHash = ''0xab'', resp_From = [CHR 0x22, CHR ''<'', CHR 0x0A, CHR 0x5C],
     resp_Network = [CHR 0xC3, CHR 0xA9, CHR 0xE2, CHR 0x80, CHR 0xA8, CHR ''&'']\<rparr>"

theorem answers_read_back_witness:
  "(\<exists>ans. answer 0 (Paid oddResponse) = Some ans \<and> decodeResponse (stringBytes (ans_body ans)) = Inr oddResponse) \<and>
    (\<exists>ans e. answer 0 (Rejected 401 [CHR 0x22]) = Some ans \<and> decodeError (stringBytes (ans_body ans)) = Inr e \<and>
      err_Error e = [CHR 0x22])"
proof -
  have "jsonOk (responseJSON oddResponse)" "validUtf8 [CHR 0x22]" by code_simp+
  from answers_read_back [OF this, of 401 0] show ?thesis by auto
qed

end
