(* ===== verification/Spec2Isabelle.thy ===== *)
theory Spec2Isabelle
  imports Database_Runs Server_Refinement Failed_Sends Execution_Liveness Answers
begin

text \<open>
  A verification of the transaction signer: a small HTTP service that holds the private key of a wallet and, for
  authenticated requests, signs and sends transfers, contract calls and settlement payouts on BSC and other EVM
  chains. A request passes \<open>internal/security\<close> (body limit, HMAC signature, nonce, rate limit), then the handler
  of its route in \<open>main.go\<close> (custody lock, a second nonce check in the signer's store, decoding, a claim on the
  idempotency key), then the execution (policy, treasury limits, chain nonce, signing, sending with retries over
  the RPC fleet), and the result is stored under the idempotency key. Beside the requests the custody guard scans
  blocks for EIP-7702 delegations of protected wallets and locks the signer.

  \<^bold>\<open>The theories, in the order they build on each other.\<close>
  \<^item> \<open>Prelude\<close>: error values, results, fixed-width arithmetic and lemmas shared by all.
  \<^item> \<open>Go_Strings\<close>, \<open>Go_Float64\<close>, \<open>Go_Crypto\<close>, \<open>Go_Time\<close>, \<open>Go_Json\<close>: the functions of Go's standard library the program calls:
    strings and integers, binary64 arithmetic with rounding and \<open>ParseFloat\<close>, SHA-256 and HMAC, RFC 3339 times, and JSON
    (the encoder, and \<open>Unmarshal\<close> into structs).
  \<^item> \<open>Rpc_Fleet\<close> (\<open>rpc_fleet.go\<close>), \<open>Config\<close> (\<open>config.go\<close>), \<open>Signer_Types\<close> (the structs of \<open>main.go\<close> and \<open>store.go\<close> and the
    record of what go-ethereum offers), \<open>Policy\<close> (\<open>policy.go\<close>), \<open>Amounts\<close> (the pure helpers of \<open>main.go\<close>).
  \<^item> \<open>Requests\<close>: the JSON forms of the requests and of the response (the struct tags of \<open>main.go\<close> and the decoding calls).
  \<^item> \<open>Memory_Store\<close> and \<open>Postgres_Store\<close> (the two stores of \<open>store.go\<close>), \<open>Schema\<close> (\<open>migrate\<close>, the constraints it declares, and
    locales that lift facts about SQL statements to the operations), \<open>Store_Contracts\<close> (the interfaces as locales: claims
    on keys, chain nonces, request nonces, and what clients may conclude), \<open>Signer_Store\<close> (the Go interface
    \<open>signerStore\<close> as a union of the two, the interpretations of the locales and their consequences).
  \<^item> \<open>Hmac\<close>, \<open>Nonce\<close>, \<open>Rate_Limit\<close>, \<open>Middleware\<close>: the files of \<open>internal/security\<close>; \<open>Custody_Guard\<close> (\<open>custody_guard.go\<close>).
  \<^item> \<open>Execute\<close> (\<open>main.go\<close> from \<open>executeSettlement\<close> to \<open>checkSignerTransactions\<close>), \<open>Execution_Safety\<close> (what an execution may
    send and with which chain nonces), \<open>Execution_Liveness\<close> (that allowed payments are made), \<open>Failed_Sends\<close> (what a
    refused transaction does to the wallet on the database).
  \<^item> \<open>Handlers\<close> (\<open>main\<close>, \<open>setupSecurity\<close> and the routes), \<open>Answers\<close> (the HTTP answers and their JSON), \<open>Store_Relations\<close> (locales:
    a relation between stores that every operation respects is respected by the guard, the executions, the handlers and
    the server), \<open>Key_Frames\<close> (what leaves the idempotency keys alone), \<open>Serving\<close> (case rules and invariants of serving a
    request), \<open>Monitor\<close> (a round of the transaction monitor).
  \<^item> \<open>Background\<close> (runs of the server, with requests, scans and rounds of the monitor as its steps), \<open>Database_Runs\<close> (what holds
    of the database in every run), \<open>Server_Refinement\<close> (a run of the server refines a run of the automaton of
    interleaved requests), and this theory, with the other properties that span the components.

  \<^bold>\<open>State and effects.\<close> A struct is a record with the source's field names behind a short prefix, a Go map is a
  partial function or, where the code iterates over it, an association list; \<open>uint32\<close> and \<open>uint64\<close> are words,
  \<open>int64\<close> arithmetic that can wrap is wrapped explicitly, \<open>float64\<close> is a datatype of finite values, infinities and
  NaN. A call returns its result and the new state; an error is a value of type \<open>error\<close>, and a panic is the
  outcome \<open>None\<close> of an execution. The clock, random bytes and the answers of the outside are arguments. What the
  executions hand to \<open>SendTransaction\<close> is recorded in \<open>w_sent\<close>, with the node's answer; that list is what the
  safety properties speak about. The PostgreSQL store is its tables with one definition per SQL statement; a list
  of faults in its state decides which statements fail, so that every theorem about it holds under failures. Which of
  its tables and indexes exist is part of that state. The response of a key is kept decoded, where the code stores its
  JSON; \<open>response_read_back\<close> shows that decoding gives it back.

  \<^bold>\<open>Parameters.\<close> Code that is not part of the repository is an argument: go-ethereum (\<open>geth\<close>: addresses, hashes, keys,
  signing, ABI packing), the answers of each RPC endpoint (\<open>attempt\<close>, \<open>ethClient\<close>), the Redis library
  (\<open>redisLib\<close>, \<open>redisClient\<close>), opening the database (\<open>connect\<close>) and the order in which Go iterates over a map. No law is
  assumed of them except where a theorem states one: the Redis properties name the documented behaviour of
  \<open>SET NX\<close>, and \<open>transfer_nonces_fresh\<close> asks that nodes report pending nonces below \<open>2^63\<close>.

  \<^bold>\<open>What is shown.\<close>
  \<^item> Whole service (this theory): a payment answered once is never made again under its key; nothing is sent for an
    unauthenticated request or while the guard is locked; a dangerous delegation seen by a scan halts every payment
    until a request unlocks the signer; a server started in production is hardened; every run refines a run of the
    abstract automaton of claims that executes exactly the keys of the requests for which nodes accepted a transaction
    (\<open>Server_Refinement\<close>); on the database no chain nonce is ever used twice (\<open>Database_Runs\<close>).
  \<^item> Executions: every transaction sent refines the abstract description of its request and passed every limit; chain
    nonces are fresh; a success stands for exactly one accepted transaction, and an execution hands over at most two;
    conversely an allowed transfer is paid when one of the endpoints selected works.
  \<^item> Monitor: a round turns exactly the open transactions with a receipt into confirmed or reverted ones.
  \<^item> JSON: requests and answers read back as what was written, and a body cut off before its closing brace is refused.
  \<^item> Stores: the migration loses no row, can be repeated, creates all relations, and the keys its script declares hold; at
    most one execution per key and the replay of its response for both stores through one locale, with a call of the store
    as one step; chain nonces never handed out twice; request nonces accepted once.
  \<^item> Security layer: acceptance of a signature characterised exactly, down to the signed bytes; no replay through the validator
    on the store in memory with its detached deletions, while none is outstanding for the nonce; what a bad signature
    leaves unchanged, the bounds of both rate limiters.
  \<^item> Guard and fleet: a dangerous delegation locks the signer, the lock is sticky and survives a restart; endpoint
    selection is safe, never empty while an endpoint is enabled, and its exchange sort is a sort.
  \<^item> Amounts: exact base units, call data that reads back.
  \<^item> Defects, each as a theorem on the model: double sending after a send error in memory, on the database the wallet that
    stands still after one (\<open>Failed_Sends\<close>), the ignored exponent, NaN amounts, the race of two claim statements, the wrapping
    timestamp check, replay with the default lifetime, and others.

  \<^bold>\<open>Bounds.\<close> No definition uses fuel: the retry loop recurses over the candidates \<open>sendCandidates\<close> returns (at most two), all
  other loops over lists or, in the arithmetic of \<open>float64\<close>, SHA-256 and the printers, over a number that decreases; the JSON
  reader recurses over the text that is left and a list of tokens.

  \<^bold>\<open>Not modelled.\<close> Log output, the text of the body of \<open>/readyz\<close> (its content is the record \<open>readyBody\<close>; the rest is the printing of
  floating-point numbers), the \<open>Close\<close> methods of the stores, which run when the process ends, the driver and the connection
  pool of PostgreSQL, the listening socket and its timeouts, the tickers that repeat \<open>scanOnce\<close> and
  \<open>checkSignerTransactions\<close> (a tick is a step of \<open>server_step\<close>, at any time), and the tests: output, library code or glue
  without decisions of its own. A handler runs as one step in \<open>serve\<close>; interleavings of concurrent requests are
  analysed where they meet, in the stores (\<open>pay_step\<close>, \<open>nonce_step\<close>). In \<open>pay_step\<close> a call of the store is one step, while
  \<open>ClaimResult\<close> of the database is two statements; \<open>pg_claim_statements_race\<close> shows what that admits. The SQL
  statements are those of a migrated database: they keep the keys of the schema without asking which relations exist.
\<close>

section \<open>Lemmas\<close>

text \<open>The signature check and the body limit of the validator behind the interface.\<close>

definition hmacOf :: "'r securityStack \<Rightarrow> HMACValidator" where
  "hmacOf stack = (case stack of MemorySecurity rv \<Rightarrow> rv_hmac rv | RedisSecurity rv \<Rightarrow> rv_hmac rv)"

definition bodyLimitOf :: "'r securityStack \<Rightarrow> int" where
  "bodyLimitOf stack = (case stack of MemorySecurity rv \<Rightarrow> rv_maxBodySize rv | RedisSecurity rv \<Rightarrow> rv_maxBodySize rv)"

lemma Handler_authenticated:
  assumes "Handler opts now rnd r rv = (Forward r' c, rv')"
    and "\<not> isExcluded opts (rq_Path r)" and "so_Enabled opts" and "so_RequireHMAC opts" and "so_RequireNonce opts"
    and "credentials r = (tsStr, nonce, hdr, legacy)"
  shows "\<exists>ctx. c = Some ctx \<and> rc_Nonce ctx = nonce \<and> nonce \<noteq> [] \<and> hdr \<noteq> [] \<and>
    readLimited (rv_maxBodySize rv) r = Inr (rq_Body r') \<and> checkSignature now (rv_hmac rv) r (rq_Body r') = None"
proof -
  from assms(1-5) obtain ctx where v: "ValidateRequest now rnd r rv = ((ctx, None), r', rv')"
      and c: "c = Some ctx" "rc_Validated ctx" "rc_Nonce ctx \<noteq> []"
    unfolding Handler_def by (auto split: prod.splits option.splits if_splits)
  from ValidateRequest_ok [OF v assms(6)] c show ?thesis by auto
qed

lemma guardRequest_authenticated:
  assumes "guardRequest opts now rnd r stack = (Forward r' c, stack')"
    and "\<not> isExcluded opts (rq_Path r)" and "so_Enabled opts" and "so_RequireHMAC opts" and "so_RequireNonce opts"
    and "credentials r = (tsStr, nonce, hdr, legacy)"
  shows "\<exists>ctx. c = Some ctx \<and> rc_Nonce ctx = nonce \<and> nonce \<noteq> [] \<and> hdr \<noteq> [] \<and>
    readLimited (bodyLimitOf stack) r = Inr (rq_Body r') \<and> checkSignature now (hmacOf stack) r (rq_Body r') = None"
proof (cases stack)
  case (MemorySecurity rv)
  with assms(1) obtain rv' where "Handler opts now rnd r rv = (Forward r' c, rv')"
    by (auto simp: guardRequest_def split: prod.splits)
  from Handler_authenticated [OF this assms(2-6)] MemorySecurity show ?thesis by (simp add: hmacOf_def bodyLimitOf_def)
next
  case (RedisSecurity rv)
  with assms(1) obtain rv' where "Handler opts now rnd r rv = (Forward r' c, rv')"
    by (auto simp: guardRequest_def split: prod.splits)
  from Handler_authenticated [OF this assms(2-6)] RedisSecurity show ?thesis by (simp add: hmacOf_def bodyLimitOf_def)
qed

lemma serve_paid:
  assumes "serve eth out r sv = (Paid resp, sv')" and "payKey r k" and "k \<noteq> []"
  shows "settled k resp sv'"
  using assms(1)
proof (cases rule: serve_cases)
  case (pay r1 ctx stack)
  from guardRequest_forward [OF pay(2)] obtain m where "rq_Path r1 = rq_Path r" "rq_Body r1 = take m (rq_Body r)" by blast
  then have k1: "payKey r1 k" using payKey_forward assms(2) by blast
  from pay(3) show ?thesis
  proof (cases rule: payRoutes_cases)
    case (passed reqCtx st key exec)
    from passed(8) [OF k1] have "key = k" .
    from executeOnce_paid [OF passed(7) [unfolded this] assms(3) passed(6)] show ?thesis by (simp add: settled_def)
  qed simp
qed blast+

lemma serve_settled_again:
  assumes "serve eth out r sv = (rep, sv')" and "payKey r k" and "k \<noteq> []" and "settled k resp sv"
  shows "w_sent (sv_run sv') = w_sent (sv_run sv) \<and> (\<forall>p. rep = Paid p \<longrightarrow> p = resp)"
  using assms(1)
proof (cases rule: serve_cases)
  case idle
  then show ?thesis by simp
next
  case (store st)
  then show ?thesis by simp
next
  case (pay r1 ctx stack)
  from guardRequest_forward [OF pay(2)] obtain m where "rq_Path r1 = rq_Path r" "rq_Body r1 = take m (rq_Body r)" by blast
  then have k1: "payKey r1 k" using payKey_forward assms(2) by blast
  from pay(3) show ?thesis
  proof (cases rule: payRoutes_cases)
    case (failed code msg st)
    then show ?thesis by simp
  next
    case (passed reqCtx st key exec)
    from passed(8) [OF k1] have "key = k" .
    moreover have "storeView (w_store ((sv_run sv)\<lparr>w_store := st\<rparr>)) k = Done resp"
      using assms(4) passed(5) by (simp add: settled_def storeView_cong [of st])
    ultimately show ?thesis using executeOnce_settled [OF _ assms(3)] passed(7) by fastforce
  qed
qed

section \<open>Properties that span the components\<close>

text \<open>
  C1: A payment is made once. After a paying request with idempotency key \<open>k\<close> was answered with a response,
  the server may serve any requests in any order, with scans of the guard and rounds of the monitor in between;
  whenever a request with key \<open>k\<close> arrives again, on whichever route, nothing is handed to a node for it and the
  only response it can get is the first one.
\<close>

theorem payment_made_once:
  assumes "serve eth out r sv = (Paid resp, sv1)" and "payKey r k" and "k \<noteq> []"
    and "server_run eth sv1 sv2"
    and "serve eth out2 r2 sv2 = (rep, sv3)" and "payKey r2 k"
  shows "w_sent (sv_run sv3) = w_sent (sv_run sv2) \<and> (\<forall>p. rep = Paid p \<longrightarrow> p = resp)"
  using serve_settled_again [OF assms(5,6,3)] server_run_settled [OF assms(4,3)] serve_paid [OF assms(1-3)] by blast

theorem payment_made_once_witness:
  "\<exists>resp sv1. serve demoGeth demoOut (demoRequest demoSig) (demoServer None) = (Paid resp, sv1) \<and>
     w_sent (sv_run sv1) \<noteq> [] \<and>
     w_sent (sv_run (snd (serve demoGeth demoOut (demoRequest demoSig) sv1))) = w_sent (sv_run sv1)"
proof -
  obtain resp sv1 where s: "serve demoGeth demoOut (demoRequest demoSig) (demoServer None) = (Paid resp, sv1)"
      "sv_run sv1 = snd demoPay" using demo_serve by blast
  note k = demo_payKey
  from payment_made_once [OF s(1) k _ _ _ k, of sv1 demoOut "fst (serve demoGeth demoOut (demoRequest demoSig) sv1)"
      "snd (serve demoGeth demoOut (demoRequest demoSig) sv1)"]
  have "w_sent (sv_run (snd (serve demoGeth demoOut (demoRequest demoSig) sv1))) = w_sent (sv_run sv1)"
    by (simp add: server_run_def)
  moreover have "w_sent (sv_run sv1) \<noteq> []" using s(2) demoPay_sent by auto
  ultimately show ?thesis using s(1) by blast
qed

text \<open>
  C2: Nothing is signed for a stranger. With signatures and nonces required, a request makes the server hand a
  transaction to a node only if it is a POST on a paying route, its signature verifies against the
  configured secret over the body the handler is given, the store accepted its nonce as new in this very
  request, and the custody guard is not locked.
\<close>

theorem sends_only_for_authenticated_requests:
  assumes "serve eth out r sv = (rep, sv')" and "w_sent (sv_run sv') \<noteq> w_sent (sv_run sv)"
    and "sv_opts sv = securityOptions (sv_cfg sv)" and "RequireHMAC (Security (sv_cfg sv))" and "RequireNonce (Security (sv_cfg sv))"
    and "credentials r = (tsStr, nonce, hdr, legacy)"
  shows "rq_Path r \<in> payPaths \<and> rq_Method r = ''POST'' \<and> \<not> fst (Locked (sv_guard sv)) \<and> hdr \<noteq> [] \<and> nonce \<noteq> [] \<and>
    (\<exists>body. readLimited (bodyLimitOf (sv_security sv)) r = Inr body \<and>
       checkSignature (o_now out) (hmacOf (sv_security sv)) r body = None) \<and>
    fst (AcceptNonce (o_now out) nonce (GetNonceTTL (sv_cfg sv)) (w_store (sv_run sv))) = Inr True"
  using assms(1)
proof (cases rule: serve_cases)
  case (pay r1 ctx stack)
  from guardRequest_forward [OF pay(2)] have f: "rq_Method r1 = rq_Method r" by blast
  have o1: "so_Enabled (sv_opts sv)" "so_RequireHMAC (sv_opts sv)" "so_RequireNonce (sv_opts sv)"
    using assms(3-5) by (simp_all add: securityOptions_def)
  have "\<not> isExcluded (sv_opts sv) (rq_Path r)"
    using pay(1) assms(3) by (auto simp: isExcluded_def securityOptions_def payPaths_def)
  from guardRequest_authenticated [OF pay(2) this o1 assms(6)] obtain c where
    c: "ctx = Some c" "rc_Nonce c = nonce" "nonce \<noteq> []" "hdr \<noteq> []"
      "readLimited (bodyLimitOf (sv_security sv)) r = Inr (rq_Body r1)"
      "checkSignature (o_now out) (hmacOf (sv_security sv)) r (rq_Body r1) = None" by auto
  from pay(3) show ?thesis
  proof (cases rule: payRoutes_cases)
    case (failed code msg st)
    with assms(2) show ?thesis by simp
  next
    case (passed reqCtx st key exec)
    with c f pay(1) show ?thesis by auto
  qed
qed (use assms(2) in simp_all)

theorem sends_only_for_authenticated_requests_witness:
  "fst (AcceptNonce 1300000000000 ''n1'' (GetNonceTTL payConfig) (w_store payStart)) = Inr True \<and>
   (\<exists>body. checkSignature 1300000000000 (hmacOf (MemorySecurity (demoRV 300000000000) :: unit securityStack)) (demoRequest demoSig) body = None)"
proof -
  obtain resp sv1 where s: "serve demoGeth demoOut (demoRequest demoSig) (demoServer None) = (Paid resp, sv1)"
      "sv_run sv1 = snd demoPay" using demo_serve by blast
  have n: "w_sent (sv_run sv1) \<noteq> w_sent (sv_run (demoServer None))"
    using s(2) demoPay_sent payStart_sent by (auto simp: demoServer_def)
  have "RequireHMAC (Security payConfig)" "RequireNonce (Security payConfig)" by code_simp+
  then show ?thesis
    using sends_only_for_authenticated_requests [OF s(1) n _ _ _ demo_credentials]
    by (simp add: demoServer_def demoOut_def demoRequest_def) blast
qed

text \<open>
  While the custody guard is locked nothing moves: whatever request comes in, no transaction reaches a
  node, no idempotency key changes hands, and no response says that a payment was made.
\<close>

theorem lockdown_stops_payments:
  assumes "serve eth out r sv = (rep, sv')" and "fst (Locked (sv_guard sv))"
  shows "w_sent (sv_run sv') = w_sent (sv_run sv) \<and> keyView (w_store (sv_run sv')) = keyView (w_store (sv_run sv)) \<and>
    (\<forall>p. rep \<noteq> Paid p)"
  using assms by (rule serve_locked)

theorem lockdown_stops_payments_witness:
  "w_sent (sv_run (snd (serve demoGeth demoOut (demoRequest demoSig) (demoServer (Some (demoGuard\<lparr>cg_locked := True\<rparr>)))))) = []"
  using lockdown_stops_payments [of demoGeth demoOut "demoRequest demoSig" "demoServer (Some (demoGuard\<lparr>cg_locked := True\<rparr>))"
      "fst (serve demoGeth demoOut (demoRequest demoSig) (demoServer (Some (demoGuard\<lparr>cg_locked := True\<rparr>))))"
      "snd (serve demoGeth demoOut (demoRequest demoSig) (demoServer (Some (demoGuard\<lparr>cg_locked := True\<rparr>))))"]
  by (simp add: Locked_def demoServer_def payStart_sent)

text \<open>
  C6: A dangerous delegation halts the signer. If a scan meets an EIP-7702 authorisation of a protected wallet that
  is not allowed (outside shadow mode), then until a request unlocks the signer, whatever is served, scanned or
  monitored, no transaction reaches a node and no idempotency key changes.
\<close>

theorem danger_halts_payments:
  assumes "sv_guard sv = Some g" and "guardMode g \<noteq> ''shadow''" and "tag \<in> {''pending'', ''latest''}"
    and "firstAnswer (\<lambda>url. net_block net url tag) (RPCURLs (cg_cfg g)) = Some txs"
    and "tx \<in> set txs" and "dangerousTx eth net g tx"
    and "scanOnce eth net now (g, Some (w_store (sv_run sv))) = (g', Some st)"
    and "locked_run eth (sv\<lparr>sv_guard := Some g', sv_run := (sv_run sv)\<lparr>w_store := st\<rparr>\<rparr>) sv'"
  shows "fst (Locked (sv_guard sv')) \<and> w_sent (sv_run sv') = w_sent (sv_run sv) \<and>
    keyView (w_store (sv_run sv')) = keyView (w_store (sv_run sv))"
proof -
  from scanOnce_locks [OF assms(2-6), of now "Some (w_store (sv_run sv))"] assms(7) have "cg_locked g'" by simp
  moreover from guard_keys(1) [OF assms(7)] have "keyView st = keyView (w_store (sv_run sv))" by simp
  ultimately show ?thesis using locked_run_quiet [OF assms(8)] by (simp add: Locked_def)
qed

theorem danger_halts_payments_witness:
  "\<exists>g' st sv'. scanOnce demoGeth demoNet 5 (demoGuard, Some (w_store payStart)) = (g', Some st) \<and>
     server_step demoGeth None ((demoServer None)\<lparr>sv_guard := Some g', sv_run := payStart\<lparr>w_store := st\<rparr>\<rparr>) sv' \<and>
     fst (Locked (sv_guard sv')) \<and> w_sent (sv_run sv') = []"
proof -
  obtain g' st' where s: "scanOnce demoGeth demoNet 5 (demoGuard, Some (w_store payStart)) = (g', st')" by fastforce
  then obtain st where "st' = Some st" using guard_keys(1) by blast
  with s have st: "scanOnce demoGeth demoNet 5 (demoGuard, Some (w_store payStart)) = (g', Some st)" by simp
  define sv where "sv = (demoServer None)\<lparr>sv_guard := Some g', sv_run := payStart\<lparr>w_store := st\<rparr>\<rparr>"
  have "\<not> AllowSimulation payConfig" by code_simp
  then have runs: "monitorRuns sv" by (simp add: monitorRuns_def sv_def demoServer_def)
  obtain sv' where step: "server_step demoGeth None sv sv'"
    using server_step.monitored [of sv demoGeth "\<lambda>_. None"] runs by blast
  then have "locked_run demoGeth sv sv'"
    unfolding locked_run_def by (intro r_into_rtranclp exI [of _ None]) simp
  moreover have "firstAnswer (\<lambda>url. net_block demoNet url ''latest'') (RPCURLs (cg_cfg demoGuard)) = Some [None, demoTx]"
    by (simp add: demoNet_def demoGuard_def)
  ultimately have "fst (Locked (sv_guard sv'))" "w_sent (sv_run sv') = []"
    using danger_halts_payments [of "demoServer (Some demoGuard)" demoGuard "''latest''" demoNet "[None, demoTx]" demoTx demoGeth 5 g' st sv']
      demoGuard_mode demoTx_dangerous st by (simp_all add: demoServer_def sv_def payStart_sent)
  with st step show ?thesis by (auto simp: sv_def)
qed

text \<open>
  C18: A server that starts in a production environment runs on the migrated database, never on the store in memory, does not
  simulate, pins its token contracts and has a signing secret of at least 32 characters.
\<close>

theorem production_server_is_hardened:
  assumes "startServer eth redis iter connect now cfg = Inr sv" and "IsProduction cfg"
  shows "(\<exists>s0 s. connect (DatabaseURL cfg) = Inr s0 \<and> pg_migrate s0 = (None, s) \<and> w_store (sv_run sv) = PgStore s) \<and> sv_cfg sv = cfg \<and> \<not> AllowSimulation cfg \<and>
    AllowedTokenContracts cfg \<noteq> {} \<and> 32 \<le> length (TrimSpace (HMACSecret (Security cfg))) \<and>
    sv_opts sv = securityOptions cfg"
proof -
  from assms(1) have v: "ValidateProduction cfg = None"
    by (auto simp: startServer_def split: option.splits)
  then have p: "\<not> AllowSimulation cfg" "TrimSpace (DatabaseURL cfg) \<noteq> []" "AllowedTokenContracts cfg \<noteq> {}"
    "32 \<le> length (TrimSpace (HMACSecret (Security cfg)))"
    using assms(2) by (simp_all add: ValidateProduction_def not_less split: if_splits)
  then have d: "DatabaseURL cfg \<noteq> []" by (auto simp: TrimSpace_def)
  obtain stack opts where s: "setupSecurity redis cfg = Inr (stack, opts)"
    using assms(1) v by (auto simp: startServer_def split: sum.splits)
  then have o1: "opts = securityOptions cfg" by (auto simp: setupSecurity_def split: if_splits sum.splits)
  have "sv_opts sv = opts"
    using assms(1) v s by (auto simp: startServer_def Let_def split: sum.splits if_splits)
  moreover from startServer_store [OF assms(1)] d obtain s0 s where
    "connect (DatabaseURL cfg) = Inr s0" "pg_migrate s0 = (None, s)" "w_store (sv_run sv) = PgStore s"
    by (auto simp: openSignerStore_def split: if_splits sum.splits prod.splits option.splits)
  ultimately show ?thesis using startServer_store [OF assms(1)] o1 p by blast
qed

theorem production_server_is_hardened_witness:
  "\<exists>sv s. productionStart = Inr sv \<and> w_store (sv_run sv) = PgStore s"
proof -
  have "is_ok productionStart" by code_simp
  then obtain sv where s: "productionStart = Inr sv" by (auto simp: is_ok_def split: sum.splits)
  have "IsProduction (LoadSignerConfig productionEnv)" by code_simp
  with production_server_is_hardened [OF s [unfolded productionStart_def]] s show ?thesis by blast
qed

text \<open>
  \<open>/readyz\<close> answers 200 exactly when the guard is not locked, the store answers, and for BSC or EVM an RPC
  endpoint and the token contract are configured; otherwise 503.
\<close>

theorem ready_iff:
  "(\<exists>body. fst (readyRoute cfg guard w) = ReadyReply 200 body) \<longleftrightarrow>
     \<not> fst (Locked guard) \<and> fst (Ready (w_store w)) = None \<and>
     (DefaultNetwork cfg \<in> {''BSC'', ''EVM''} \<longrightarrow> RPCURLs cfg \<noteq> [] \<and> BSCUSDTContract cfg \<noteq> [])"
  by (cases "Ready (w_store w)"; cases "Locked guard") (auto simp: readyRoute_def readyInitial_def Let_def split: option.splits)

end
